theory Spec2Isabelle
  imports Main "HOL-Library.Word"
begin

section \<open>The BTF encoder of dwarves (btf\_encoder.c)\<close>

text \<open>
  A shallow embedding of \<^verbatim>\<open>btf_encoder.c\<close>. The file-level variables of the C file
  become one record that every operation takes and returns; the BTF writer (libbtf), the
  ELF reader and the DWARF loader are collaborators whose code is elsewhere, so their
  answers are inputs of the model.
\<close>

subsection \<open>Machine integers\<close>

type_synonym u16 = "16 word"
type_synonym u32 = "32 word"
type_synonym u64 = "64 word"

text \<open>
  \<^verbatim>\<open>int32_t\<close> and \<^verbatim>\<open>int\<close> values that come back from the writer are kept as 32-bit
  words and read with \<^const>\<open>sint\<close>; converting one to \<^verbatim>\<open>uint32_t\<close> keeps the bits.
\<close>

type_synonym s32 = "32 word"

definition is_neg :: "s32 \<Rightarrow> bool" where
  "is_neg r = (sint r < 0)"

subsection \<open>The C library: strcmp, ctype, bsearch, qsort\<close>

text \<open>
  A C string is the list of its characters before the terminating NUL; \<open>deref s p\<close> is
  the byte read at \<^verbatim>\<open>s[p]\<close>, the terminator once \<open>p\<close> reaches the end.
\<close>

definition deref :: "string \<Rightarrow> nat \<Rightarrow> char" where
  "deref s p = (if p < length s then s ! p else CHR 0x00)"

text \<open>\<^verbatim>\<open>strcmp\<close> compares bytes as unsigned values; only the sign of the result is used.\<close>

fun strcmp :: "string \<Rightarrow> string \<Rightarrow> int" where
  "strcmp [] [] = 0"
| "strcmp [] (b # bs) = -1"
| "strcmp (a # as) [] = 1"
| "strcmp (a # as) (b # bs) =
     (if a = b then strcmp as bs
      else if (of_char a :: nat) < of_char b then -1 else 1)"

text \<open>The character classes of \<^verbatim>\<open>ctype.h\<close> in the "C" locale.\<close>

definition isupper :: "char \<Rightarrow> bool" where
  "isupper c = (65 \<le> (of_char c :: nat) \<and> (of_char c :: nat) \<le> 90)"

definition islower :: "char \<Rightarrow> bool" where
  "islower c = (97 \<le> (of_char c :: nat) \<and> (of_char c :: nat) \<le> 122)"

definition isdigit :: "char \<Rightarrow> bool" where
  "isdigit c = (48 \<le> (of_char c :: nat) \<and> (of_char c :: nat) \<le> 57)"

definition isalpha :: "char \<Rightarrow> bool" where
  "isalpha c = (isupper c \<or> islower c)"

definition isalnum :: "char \<Rightarrow> bool" where
  "isalnum c = (isalpha c \<or> isdigit c)"

text \<open>
  \<^verbatim>\<open>bsearch(key, base, nmemb, size, compar)\<close>: the halving search of the C library over
  the first \<open>nmemb\<close> cells of \<open>base\<close>. The result is the index of the cell found
  (the C pointer), \<open>None\<close> for \<^verbatim>\<open>NULL\<close>.
\<close>

function bsearch_loop ::
  "('a \<Rightarrow> 'a \<Rightarrow> int) \<Rightarrow> 'a \<Rightarrow> 'a list \<Rightarrow> nat \<Rightarrow> nat \<Rightarrow> nat option" where
  "bsearch_loop compar key base l u =
     (if l < u then
        (if compar key (base ! ((l + u) div 2)) < 0
           then bsearch_loop compar key base l ((l + u) div 2)
         else if compar key (base ! ((l + u) div 2)) > 0
           then bsearch_loop compar key base ((l + u) div 2 + 1) u
         else Some ((l + u) div 2))
      else None)"
  by pat_completeness auto
termination
  by (relation "measure (\<lambda>(compar, key, base, l, u). u - l)") auto

declare bsearch_loop.simps [simp del]

definition bsearch :: "'a \<Rightarrow> 'a list \<Rightarrow> nat \<Rightarrow> ('a \<Rightarrow> 'a \<Rightarrow> int) \<Rightarrow> nat option" where
  "bsearch key base nmemb compar = bsearch_loop compar key base 0 nmemb"

text \<open>
  \<^verbatim>\<open>qsort(base, nmemb, size, compar)\<close>: a sort by insertion under \<open>compar\<close>. The C
  library does not fix the order of cells that compare equal; nothing below depends on it.
\<close>

fun qsort_insert :: "('a \<Rightarrow> 'a \<Rightarrow> int) \<Rightarrow> 'a \<Rightarrow> 'a list \<Rightarrow> 'a list" where
  "qsort_insert compar x [] = [x]"
| "qsort_insert compar x (y # ys) =
     (if compar x y \<le> 0 then x # y # ys else y # qsort_insert compar x ys)"

definition qsort :: "'a list \<Rightarrow> ('a \<Rightarrow> 'a \<Rightarrow> int) \<Rightarrow> 'a list" where
  "qsort base compar = foldr (qsort_insert compar) base []"

text \<open>
  A C array with a separate element count: the list holds the cells written so far, and
  \<open>array_store xs i v\<close> is \<^verbatim>\<open>xs[i] = v\<close> for \<open>i\<close> up to the number of cells.
\<close>

definition array_store :: "'a list \<Rightarrow> nat \<Rightarrow> 'a \<Rightarrow> 'a list" where
  "array_store xs i v = take i xs @ v # drop (Suc i) xs"

subsection \<open>The name validator\<close>

definition KSYM_NAME_LEN :: nat where
  "KSYM_NAME_LEN = 128"

definition btf_name_char_ok :: "char \<Rightarrow> bool \<Rightarrow> bool" where
  "btf_name_char_ok c first =
     (if c = CHR ''_'' \<or> c = CHR ''.'' then True
      else if first then isalpha c else isalnum c)"

text \<open>
  The loop of \<^verbatim>\<open>btf_name_valid\<close>: \<open>p\<close> and \<open>limit\<close> are offsets from the start of
  the name. It returns \<^verbatim>\<open>false\<close> from inside on a bad character and \<^verbatim>\<open>!*p\<close> after
  the loop.
\<close>

function btf_name_valid_loop :: "string \<Rightarrow> nat \<Rightarrow> nat \<Rightarrow> bool" where
  "btf_name_valid_loop s p limit =
     (if deref s p \<noteq> CHR 0x00 \<and> p < limit then
        (if \<not> btf_name_char_ok (deref s p) False then False
         else btf_name_valid_loop s (p + 1) limit)
      else deref s p = CHR 0x00)"
  by pat_completeness auto
termination
  by (relation "measure (\<lambda>(s, p, limit). limit - p)") auto

declare btf_name_valid_loop.simps [simp del]

definition btf_name_valid :: "string \<Rightarrow> bool" where
  "btf_name_valid s =
     (if \<not> btf_name_char_ok (deref s 0) True then False
      else btf_name_valid_loop s 1 (0 + KSYM_NAME_LEN))"

text \<open>
  The language of the specification, written from its words: a first character that is
  a letter, an underscore or a dot, then at most \<open>n\<close> characters that are letters,
  digits, underscores or dots.
\<close>

definition first_class :: "char \<Rightarrow> bool" where
  "first_class c = (isalpha c \<or> c = CHR ''_'' \<or> c = CHR ''.'')"

definition rest_class :: "char \<Rightarrow> bool" where
  "rest_class c = (isalpha c \<or> isdigit c \<or> c = CHR ''_'' \<or> c = CHR ''.'')"

definition name_language :: "nat \<Rightarrow> string \<Rightarrow> bool" where
  "name_language n s =
     (case s of [] \<Rightarrow> False
      | c # cs \<Rightarrow> first_class c \<and> list_all rest_class cs \<and> length cs \<le> n)"

subsection \<open>The ELF side\<close>

text \<open>
  A symbol as the symbol-table iterator yields it: its name (already looked up in the
  string section), value, size, section index and type.
\<close>

record elf_sym =
  sym_name :: string
  st_value :: u64
  st_size :: u64
  st_shndx :: nat
  sym_type :: nat

definition STT_OBJECT :: nat where
  "STT_OBJECT = 1"

definition STT_FUNC :: nat where
  "STT_FUNC = 2"

text \<open>
  A section as \<^verbatim>\<open>gelf_getshdr\<close> and \<^verbatim>\<open>elf_getdata\<close> show it: the address it is
  loaded at and its data. \<open>d_buf\<close> is \<open>None\<close> when \<^verbatim>\<open>elf_getdata\<close> fails; otherwise
  it gives, for a byte offset, the native-width word stored there.
\<close>

record elf_scn =
  sh_addr :: u64
  d_buf :: "(u64 \<Rightarrow> u64) option"

text \<open>
  The ELF handle of a compilation unit: \<open>elf_scns\<close> answers \<^verbatim>\<open>elf_getscn\<close> followed
  by \<^verbatim>\<open>gelf_getshdr\<close> (\<open>None\<close> when either fails); the other three fields are what
  the writer's constructor finds in the file.
\<close>

record Elf =
  elf_scns :: "nat \<Rightarrow> elf_scn option"
  elf_symtab :: "elf_sym list option"
  elf_percpu_shndx :: nat
  elf_percpu_base_addr :: u64

record funcs_layout =
  mcount_start :: u64
  mcount_stop :: u64
  init_begin :: u64
  init_end :: u64
  init_bpf_begin :: u64
  init_bpf_end :: u64
  mcount_sec_idx :: nat

record elf_function =
  fn_name :: string
  fn_addr :: u64
  generated :: bool

record var_info =
  vi_addr :: u64
  vi_sz :: u32
  vi_name :: string

definition MAX_PERCPU_VAR_CNT :: nat where
  "MAX_PERCPU_VAR_CNT = 4096"

subsection \<open>The DWARF side\<close>

type_synonym strings_t = u32

datatype dw_tag =
    DW_TAG_base_type
  | DW_TAG_const_type
  | DW_TAG_pointer_type
  | DW_TAG_restrict_type
  | DW_TAG_volatile_type
  | DW_TAG_typedef
  | DW_TAG_structure_type
  | DW_TAG_union_type
  | DW_TAG_class_type
  | DW_TAG_array_type
  | DW_TAG_enumeration_type
  | DW_TAG_subroutine_type
  | DW_TAG_other u16

text \<open>
  \<^verbatim>\<open>struct base_type\<close>: the name handle, the size in bits, and the remaining encoding
  bit-fields taken together (zero in a zero-initialised structure).
\<close>

record base_type =
  bt_name :: strings_t
  bit_size :: u16
  bt_encoding :: nat

record class_member =
  cm_name :: strings_t
  cm_type :: u32
  bitfield_size :: u32
  bit_offset :: u32

record enumerator =
  en_name :: strings_t
  en_value :: u32

record parameter =
  parm_name :: strings_t
  parm_type :: u32

record ftype =
  ft_type :: u32
  parms :: "parameter list"
  unspec_parms :: bool

text \<open>
  \<^verbatim>\<open>struct type\<close> (structures, unions, classes, enumerations): the size, the
  declaration flag, the data members and the enumerators, each in declared order.
\<close>

record type_rec =
  ty_size :: u32
  ty_declaration :: bool
  data_members :: "class_member list"
  enumerators :: "enumerator list"

text \<open>
  \<^verbatim>\<open>struct array_type\<close>: the list is \<^verbatim>\<open>nr_entries[0 .. dimensions - 1]\<close>, so
  \<^verbatim>\<open>dimensions\<close> is its length.
\<close>

record array_type =
  nr_entries :: "u32 list"

definition dimensions :: "array_type \<Rightarrow> nat" where
  "dimensions array = length (nr_entries array)"

text \<open>
  A tag, with the fields of the structures that embed it: \<open>tag_base\<close> is what
  \<^verbatim>\<open>tag__base_type\<close> reads, \<open>namespace_name\<close> what \<^verbatim>\<open>tag__namespace(tag)->name\<close>
  reads, \<open>tag_class\<close> what \<^verbatim>\<open>tag__type\<close> reads, \<open>tag_array\<close> what
  \<^verbatim>\<open>tag__array_type\<close> reads and \<open>tag_ftype\<close> what \<^verbatim>\<open>tag__ftype\<close> reads. Only
  the fields of the tag's own kind are read.
\<close>

record tag =
  tag_tag :: dw_tag
  tag_type :: u32
  tag_base :: base_type
  namespace_name :: strings_t
  tag_class :: type_rec
  tag_array :: array_type
  tag_ftype :: ftype

record function_t =
  func_name :: strings_t
  proto :: ftype
  func_declaration :: bool
  func_external :: bool

datatype vscope =
  VSCOPE_UNKNOWN | VSCOPE_LOCAL | VSCOPE_GLOBAL | VSCOPE_REGISTER | VSCOPE_OPTIMIZED

text \<open>
  A variable: \<open>var_scope\<close> is the result of \<^verbatim>\<open>variable__scope\<close>, \<open>var_spec\<close> the
  specification link (\<open>None\<close> for \<^verbatim>\<open>NULL\<close>).
\<close>

datatype variable =
  Variable (var_declaration: bool) (var_scope: vscope) (var_ip_addr: u64)
    (var_ip_tag_type: u32) (var_external: bool) (var_spec: "variable option")

text \<open>
  A compilation unit as the loader hands it over. \<open>cu_strings\<close> is the string resolver
  (\<open>None\<close> for \<^verbatim>\<open>NULL\<close>); \<open>types_table\<close> is the sequence of pairs (core ID, tag)
  that \<^verbatim>\<open>cu__for_each_type\<close> yields, \<open>cu_functions\<close> and \<open>cu_variables\<close> what
  \<^verbatim>\<open>cu__for_each_function\<close> and \<^verbatim>\<open>cu__for_each_variable\<close> yield;
  \<open>types_nr_entries\<close> is \<^verbatim>\<open>cu->types_table.nr_entries\<close>; \<open>find_int\<close> is the
  answer of \<^verbatim>\<open>cu__find_base_type_by_name(cu, "int", &id)\<close>: the core ID found, or
  \<open>None\<close>.
\<close>

record cu =
  cu_filename :: string
  cu_name :: string
  cu_elf :: Elf
  cu_strings :: "strings_t \<Rightarrow> string option"
  types_table :: "(u32 \<times> tag) list"
  types_nr_entries :: u32
  cu_functions :: "function_t list"
  cu_variables :: "variable list"
  find_int :: "u32 option"

definition strings__ptr :: "cu \<Rightarrow> strings_t \<Rightarrow> string option" where
  "strings__ptr cu s = cu_strings cu s"

text \<open>
  Modelled from the spec: \<^verbatim>\<open>function__name\<close> is declared in a header that is not
  among the sources; the function's name is its name handle resolved in the unit's
  string table. It is handed to \<^verbatim>\<open>strcmp\<close>, which has no defined behaviour on
  \<^verbatim>\<open>NULL\<close>; an unresolved handle is compared as the empty string here.
\<close>

definition function__name :: "function_t \<Rightarrow> cu \<Rightarrow> string" where
  "function__name fn cu = (case strings__ptr cu (func_name fn) of None \<Rightarrow> [] | Some n \<Rightarrow> n)"

subsection \<open>The BTF writer\<close>

datatype btf_kind =
    BTF_KIND_PTR
  | BTF_KIND_STRUCT
  | BTF_KIND_UNION
  | BTF_KIND_FWD
  | BTF_KIND_TYPEDEF
  | BTF_KIND_VOLATILE
  | BTF_KIND_CONST
  | BTF_KIND_RESTRICT
  | BTF_KIND_FUNC

definition BTF_VAR_STATIC :: u32 where
  "BTF_VAR_STATIC = 0"

definition BTF_VAR_GLOBAL_ALLOCATED :: u32 where
  "BTF_VAR_GLOBAL_ALLOCATED = 1"

definition PERCPU_SECTION :: string where
  "PERCPU_SECTION = ''.data..percpu''"

record var_secinfo =
  si_type :: u32
  si_offset :: u32
  si_size :: u32

text \<open>
  One constructor for each operation of the writer that the encoder calls, with the
  arguments of the call.
\<close>

datatype btf_call =
    Add_base_type base_type "string option"
  | Add_ref_type btf_kind u32 "string option" bool
  | Add_struct btf_kind "string option" u32
  | Add_member "string option" u32 u32 u32
  | Add_array u32 u32 u32
  | Add_enum "string option" u32
  | Add_enum_val "string option" u32
  | Add_func_proto cu ftype u32
  | Add_var_type u32 string u32
  | Add_var_secinfo u32 u32 u32
  | Add_datasec_type string "var_secinfo list"
  | Encode u32

text \<open>
  Modelled from the spec: the writer (\<^verbatim>\<open>struct btf_elf\<close> of libbtf, with the
  \<^verbatim>\<open>struct btf\<close> of libbpf inside) is not among the sources. Its state is the
  sequence of operations applied to it so far (\<open>calls\<close>); what an operation returns
  (\<open>answer\<close>) and the type count (\<open>nr_types\<close>) are arbitrary functions of that
  history, so the model covers every deterministic writer. \<open>percpu_secinfo\<close> is the
  per-CPU section-info buffer: the records appended so far. \<open>deleted\<close> tells whether
  \<^verbatim>\<open>btf_elf__delete\<close> has been applied to the writer.
\<close>

record btf_elf =
  filename :: string
  elf :: Elf
  symtab :: "elf_sym list option"
  percpu_shndx :: nat
  percpu_base_addr :: u64
  percpu_secinfo :: "var_secinfo list"
  calls :: "btf_call list"
  answer :: "btf_call list \<Rightarrow> btf_call \<Rightarrow> s32"
  nr_types :: "btf_call list \<Rightarrow> u32"
  deleted :: bool

definition writer_call :: "btf_elf \<Rightarrow> btf_call \<Rightarrow> s32 \<times> btf_elf" where
  "writer_call btfe c = (answer btfe (calls btfe) c, btfe\<lparr>calls := calls btfe @ [c]\<rparr>)"

definition btf__get_nr_types :: "btf_elf \<Rightarrow> u32" where
  "btf__get_nr_types btfe = nr_types btfe (calls btfe)"

text \<open>
  \<^verbatim>\<open>btf_elf__add_var_secinfo\<close> appends to the buffer it is given; a negative result
  leaves the buffer as it was.
\<close>

definition btf_elf__add_var_secinfo :: "btf_elf \<Rightarrow> u32 \<Rightarrow> u32 \<Rightarrow> u32 \<Rightarrow> s32 \<times> btf_elf" where
  "btf_elf__add_var_secinfo btfe type offset sz =
     (case writer_call btfe (Add_var_secinfo type offset sz) of
        (r, btfe') \<Rightarrow>
          if is_neg r then (r, btfe')
          else (r, btfe'\<lparr>percpu_secinfo := percpu_secinfo btfe' @
                  [\<lparr>si_type = type, si_offset = offset, si_size = sz\<rparr>]\<rparr>))"

text \<open>
  \<^verbatim>\<open>btf_elf__delete\<close> releases the writer: it is marked as deleted, and nothing
  else of it changes.
\<close>

definition btf_elf__delete :: "btf_elf \<Rightarrow> btf_elf" where
  "btf_elf__delete btfe = btfe\<lparr>deleted := True\<rparr>"

text \<open>
  The collaborators' choices that the encoder cannot see in advance: whether the
  allocator grants a request of a given number of bytes, whether the writer's
  constructor succeeds for a file, and how the writer it creates answers.
\<close>

record env =
  alloc_ok :: "nat \<Rightarrow> bool"
  new_ok :: "string \<Rightarrow> bool"
  writer_answer :: "btf_call list \<Rightarrow> btf_call \<Rightarrow> s32"
  writer_nr_types :: "btf_call list \<Rightarrow> u32"

definition btf_elf__new :: "env \<Rightarrow> string \<Rightarrow> Elf \<Rightarrow> btf_elf option" where
  "btf_elf__new e fname el =
     (if \<not> new_ok e fname then None
      else Some \<lparr>filename = fname, elf = el, symtab = elf_symtab el,
                 percpu_shndx = elf_percpu_shndx el,
                 percpu_base_addr = elf_percpu_base_addr el,
                 percpu_secinfo = [], calls = [],
                 answer = writer_answer e, nr_types = writer_nr_types e,
                 deleted = False\<rparr>)"

subsection \<open>Diagnostics and the file-level variables\<close>

text \<open>
  The messages written to the standard error stream, one constructor for each
  \<^verbatim>\<open>fprintf(stderr, ...)\<close> of the file, with the values it formats. Messages of the
  verbose mode on standard output are not part of the model.
\<close>

datatype message =
    Section_header_failed nat
  | Section_data_failed nat
  | Ftrace_alloc_failed
  | Invalid_symbol_warning string string
  | Invalid_symbol_error string string
  | Force_hint
  | Id_drift dw_tag u32 u32 u32
  | Unsupported_tag dw_tag
  | Percpu_limit_reached nat
  | Filter_failed
  | Void_type_variable string string
  | Variable_failed string u64
  | Secinfo_failed string u64

record globals =
  "functions" :: "elf_function list"
  functions_alloc :: nat
  functions_cnt :: nat
  need_index_type :: bool
  btfe :: "btf_elf option"
  array_index_id :: u32
  has_index_type :: bool
  percpu_vars :: "var_info list"
  percpu_var_cnt :: nat
  btf_elf__verbose :: bool
  btf_elf__force :: bool
  stderr :: "message list"

definition report :: "message \<Rightarrow> globals \<Rightarrow> globals" where
  "report m g = g\<lparr>stderr := stderr g @ [m]\<rparr>"

subsection \<open>Collecting and filtering the functions of the symbol table\<close>

definition functions_cmp :: "elf_function \<Rightarrow> elf_function \<Rightarrow> int" where
  "functions_cmp a b = strcmp (fn_name a) (fn_name b)"

definition delete_functions :: "globals \<Rightarrow> globals" where
  "delete_functions g = g\<lparr>functions := [], functions_alloc := 0, functions_cnt := 0\<rparr>"

text \<open>
  \<^verbatim>\<open>collect_function\<close>: the capacity is raised before \<^verbatim>\<open>realloc\<close> is called, and
  stays raised when \<^verbatim>\<open>realloc\<close> fails. The size of a table entry is 24 bytes.
\<close>

definition collect_function :: "env \<Rightarrow> elf_sym \<Rightarrow> globals \<Rightarrow> int \<times> globals" where
  "collect_function e symb g =
     (if sym_type symb \<noteq> STT_FUNC then (0, g)
      else if st_value symb = 0 then (0, g)
      else
        let g1 = (if functions_cnt g = functions_alloc g
                  then g\<lparr>functions_alloc := max 1000 (functions_alloc g * 3 div 2)\<rparr>
                  else g)
        in if functions_cnt g = functions_alloc g \<and> \<not> alloc_ok e (functions_alloc g1 * 24)
           then (-1, g1)
           else (0, g1\<lparr>functions := array_store (functions g1) (functions_cnt g1)
                           \<lparr>fn_name = sym_name symb, fn_addr = st_value symb, generated = False\<rparr>,
                         functions_cnt := functions_cnt g1 + 1\<rparr>))"

definition addrs_cmp :: "u64 \<Rightarrow> u64 \<Rightarrow> int" where
  "addrs_cmp a b = (if a = b then 0 else if a < b then -1 else 1)"

definition is_init :: "funcs_layout \<Rightarrow> u64 \<Rightarrow> bool" where
  "is_init fl addr = (addr \<ge> init_begin fl \<and> addr < init_end fl)"

definition is_bpf_init :: "funcs_layout \<Rightarrow> u64 \<Rightarrow> bool" where
  "is_bpf_init fl addr = (addr \<ge> init_bpf_begin fl \<and> addr < init_bpf_end fl)"

text \<open>
  The loop of \<^verbatim>\<open>filter_functions\<close> over the table: \<open>cnt\<close> is \<^verbatim>\<open>functions_cnt\<close>,
  \<open>i\<close> the loop index, \<open>fs\<close> the table and \<open>valid\<close> is \<^verbatim>\<open>functions_valid\<close>. It
  returns the table and \<^verbatim>\<open>functions_valid\<close> as they are when the loop ends.
\<close>

function filter_functions_loop ::
  "funcs_layout \<Rightarrow> u64 list \<Rightarrow> nat \<Rightarrow> nat \<Rightarrow> nat \<Rightarrow> elf_function list \<Rightarrow> nat
     \<Rightarrow> elf_function list \<times> nat" where
  "filter_functions_loop fl addrs count cnt i fs valid =
     (if i < cnt then
        (if is_init fl (fn_addr (fs ! i)) \<and> \<not> is_bpf_init fl (fn_addr (fs ! i))
           then filter_functions_loop fl addrs count cnt (i + 1) fs valid
         else if bsearch (fn_addr (fs ! i)) addrs count addrs_cmp \<noteq> None
           then filter_functions_loop fl addrs count cnt (i + 1)
                  (if i \<noteq> valid then fs[valid := fs ! i] else fs) (valid + 1)
         else filter_functions_loop fl addrs count cnt (i + 1) fs valid)
      else (fs, valid))"
  by pat_completeness auto
termination
  by (relation "measure (\<lambda>(fl, addrs, count, cnt, i, fs, valid). cnt - i)") auto

declare filter_functions_loop.simps [simp del]

text \<open>
  \<^verbatim>\<open>filter_functions\<close>: \<open>offset\<close> and \<open>count\<close> are computed in \<^verbatim>\<open>unsigned long\<close>;
  \<open>addrs\<close> is the copy of the mcount table, sorted.
\<close>

text \<open>
  The test of the loop body on one entry: \<open>True\<close> when the entry is kept.
\<close>

definition keeps :: "funcs_layout \<Rightarrow> u64 list \<Rightarrow> nat \<Rightarrow> elf_function \<Rightarrow> bool" where
  "keeps fl addrs count f =
     (\<not> (is_init fl (fn_addr f) \<and> \<not> is_bpf_init fl (fn_addr f)) \<and>
      bsearch (fn_addr f) addrs count addrs_cmp \<noteq> None)"

text \<open>
  \<^verbatim>\<open>memcpy(addrs, data->d_buf + offset, count * sizeof(addrs[0]))\<close>: the \<open>count\<close>
  words of the section's data that start at byte \<open>offset\<close>.
\<close>

definition load_addrs :: "(u64 \<Rightarrow> u64) \<Rightarrow> u64 \<Rightarrow> u64 \<Rightarrow> u64 list" where
  "load_addrs buf offset count = map (\<lambda>k. buf (offset + 8 * of_nat k)) [0..<unat count]"

definition filter_functions :: "env \<Rightarrow> btf_elf \<Rightarrow> funcs_layout \<Rightarrow> globals \<Rightarrow> int \<times> globals" where
  "filter_functions e b fl g =
     (case elf_scns (elf b) (mcount_sec_idx fl) of
        None \<Rightarrow> (-1, report (Section_header_failed (mcount_sec_idx fl)) g)
      | Some sec \<Rightarrow>
         (let offset = mcount_start fl - sh_addr sec;
              count = (mcount_stop fl - mcount_start fl) div 8
          in case d_buf sec of
               None \<Rightarrow> (-1, report (Section_data_failed (mcount_sec_idx fl)) g)
             | Some buf \<Rightarrow>
                 if \<not> alloc_ok e (unat (count * 8)) then (-1, report Ftrace_alloc_failed g)
                 else
                   (let addrs = qsort (load_addrs buf offset count) addrs_cmp
                    in case filter_functions_loop fl addrs (unat count) (functions_cnt g) 0
                              (functions g) 0 of
                         (fs, functions_valid) \<Rightarrow>
                           (0, g\<lparr>functions := fs, functions_cnt := functions_valid\<rparr>))))"

definition should_generate_function :: "string \<Rightarrow> globals \<Rightarrow> bool \<times> globals" where
  "should_generate_function name g =
     (case bsearch \<lparr>fn_name = name, fn_addr = 0, generated = False\<rparr>
             (functions g) (functions_cnt g) functions_cmp of
        None \<Rightarrow> (False, g)
      | Some p \<Rightarrow>
          if generated (functions g ! p) then (False, g)
          else (True, g\<lparr>functions := (functions g)[p := (functions g ! p)\<lparr>generated := True\<rparr>]\<rparr>))"

definition dump_invalid_symbol :: "string \<Rightarrow> string \<Rightarrow> bool \<Rightarrow> bool \<Rightarrow> globals \<Rightarrow> globals" where
  "dump_invalid_symbol msg symb verbose force g =
     (if force then (if verbose then report (Invalid_symbol_warning msg symb) g else g)
      else report Force_hint (report (Invalid_symbol_error msg symb) g))"

subsection \<open>Encoding one tag\<close>

definition tag__check_id_drift :: "tag \<Rightarrow> u32 \<Rightarrow> u32 \<Rightarrow> u32 \<Rightarrow> globals \<Rightarrow> int \<times> globals" where
  "tag__check_id_drift tg core_id btf_type_id type_id_off g =
     (if btf_type_id \<noteq> core_id + type_id_off
      then (-1, report (Id_drift (tag_tag tg) core_id btf_type_id type_id_off) g)
      else (0, g))"

text \<open>
  The member loop of \<^verbatim>\<open>structure_type__encode\<close>: a member that the writer answers
  with anything but zero ends the function with -1.
\<close>

fun add_members :: "btf_elf \<Rightarrow> cu \<Rightarrow> u32 \<Rightarrow> s32 \<Rightarrow> class_member list \<Rightarrow> s32 \<times> btf_elf" where
  "add_members b cu type_id_off type_id [] = (type_id, b)"
| "add_members b cu type_id_off type_id (pos # rest) =
     (case writer_call b (Add_member (strings__ptr cu (cm_name pos))
                            (type_id_off + cm_type pos) (bitfield_size pos) (bit_offset pos)) of
        (r, b') \<Rightarrow> if r \<noteq> 0 then (-1, b') else add_members b' cu type_id_off type_id rest)"

definition structure_type__encode :: "btf_elf \<Rightarrow> cu \<Rightarrow> tag \<Rightarrow> u32 \<Rightarrow> s32 \<times> btf_elf" where
  "structure_type__encode b cu tg type_id_off =
     (let kind = (if tag_tag tg = DW_TAG_union_type then BTF_KIND_UNION else BTF_KIND_STRUCT);
          name = strings__ptr cu (namespace_name tg)
      in case writer_call b (Add_struct kind name (ty_size (tag_class tg))) of
           (type_id, b') \<Rightarrow>
             if is_neg type_id then (type_id, b')
             else add_members b' cu type_id_off type_id (data_members (tag_class tg)))"

text \<open>
  The loop of \<^verbatim>\<open>array_type__nelems\<close>. The C index \<open>i\<close> runs from
  \<^verbatim>\<open>dimensions - 1\<close> down to 0; the counter here is \<open>i + 1\<close>, so the loop ends at 0.
  The multiplication is that of \<^verbatim>\<open>uint32_t\<close>.
\<close>

fun array_type__nelems_loop :: "array_type \<Rightarrow> nat \<Rightarrow> u32 \<Rightarrow> u32" where
  "array_type__nelems_loop array 0 nelem = nelem"
| "array_type__nelems_loop array (Suc i) nelem =
     array_type__nelems_loop array i (nelem * nr_entries array ! i)"

definition array_type__nelems :: "tag \<Rightarrow> u32" where
  "array_type__nelems tg = array_type__nelems_loop (tag_array tg) (dimensions (tag_array tg)) 1"

fun add_enum_vals :: "btf_elf \<Rightarrow> cu \<Rightarrow> s32 \<Rightarrow> enumerator list \<Rightarrow> s32 \<times> btf_elf" where
  "add_enum_vals b cu type_id [] = (type_id, b)"
| "add_enum_vals b cu type_id (pos # rest) =
     (case writer_call b (Add_enum_val (strings__ptr cu (en_name pos)) (en_value pos)) of
        (r, b') \<Rightarrow> if r \<noteq> 0 then (-1, b') else add_enum_vals b' cu type_id rest)"

definition enumeration_type__encode :: "btf_elf \<Rightarrow> cu \<Rightarrow> tag \<Rightarrow> s32 \<times> btf_elf" where
  "enumeration_type__encode b cu tg =
     (case writer_call b (Add_enum (strings__ptr cu (namespace_name tg))
                            (ty_size (tag_class tg))) of
        (type_id, b') \<Rightarrow>
          if is_neg type_id then (type_id, b')
          else add_enum_vals b' cu type_id (enumerators (tag_class tg)))"

text \<open>
  \<^verbatim>\<open>tag__encode_btf\<close>: the result is the writer's answer, the writer, and the
  file-level variables (the array case sets \<^verbatim>\<open>need_index_type\<close>, the default case
  reports the tag).
\<close>

definition tag__encode_btf ::
  "cu \<Rightarrow> tag \<Rightarrow> u32 \<Rightarrow> btf_elf \<Rightarrow> u32 \<Rightarrow> u32 \<Rightarrow> globals \<Rightarrow> s32 \<times> btf_elf \<times> globals" where
  "tag__encode_btf cu tg core_id b arr_index_id type_id_off g =
     (let ref_type_id = (if tag_type tg = 0 then 0 else type_id_off + tag_type tg);
          wr = (\<lambda>c. case writer_call b c of (r, b') \<Rightarrow> (r, b', g));
          on = (\<lambda>rb. case rb of (r, b') \<Rightarrow> (r, b', g))
      in case tag_tag tg of
           DW_TAG_base_type \<Rightarrow>
             wr (Add_base_type (tag_base tg) (strings__ptr cu (bt_name (tag_base tg))))
         | DW_TAG_const_type \<Rightarrow> wr (Add_ref_type BTF_KIND_CONST ref_type_id None False)
         | DW_TAG_pointer_type \<Rightarrow> wr (Add_ref_type BTF_KIND_PTR ref_type_id None False)
         | DW_TAG_restrict_type \<Rightarrow> wr (Add_ref_type BTF_KIND_RESTRICT ref_type_id None False)
         | DW_TAG_volatile_type \<Rightarrow> wr (Add_ref_type BTF_KIND_VOLATILE ref_type_id None False)
         | DW_TAG_typedef \<Rightarrow>
             wr (Add_ref_type BTF_KIND_TYPEDEF ref_type_id
                   (strings__ptr cu (namespace_name tg)) False)
         | DW_TAG_structure_type \<Rightarrow>
             if ty_declaration (tag_class tg)
             then wr (Add_ref_type BTF_KIND_FWD 0 (strings__ptr cu (namespace_name tg)) False)
             else on (structure_type__encode b cu tg type_id_off)
         | DW_TAG_union_type \<Rightarrow>
             if ty_declaration (tag_class tg)
             then wr (Add_ref_type BTF_KIND_FWD 0 (strings__ptr cu (namespace_name tg)) True)
             else on (structure_type__encode b cu tg type_id_off)
         | DW_TAG_class_type \<Rightarrow>
             if ty_declaration (tag_class tg)
             then wr (Add_ref_type BTF_KIND_FWD 0 (strings__ptr cu (namespace_name tg)) False)
             else on (structure_type__encode b cu tg type_id_off)
         | DW_TAG_array_type \<Rightarrow>
             (case writer_call b (Add_array ref_type_id arr_index_id (array_type__nelems tg)) of
                (r, b') \<Rightarrow> (r, b', g\<lparr>need_index_type := True\<rparr>))
         | DW_TAG_enumeration_type \<Rightarrow> on (enumeration_type__encode b cu tg)
         | DW_TAG_subroutine_type \<Rightarrow> wr (Add_func_proto cu (tag_ftype tg) type_id_off)
         | DW_TAG_other v \<Rightarrow> (-1, b, report (Unsupported_tag (DW_TAG_other v)) g))"

subsection \<open>Finalization\<close>

text \<open>
  \<^verbatim>\<open>btf_encoder__encode\<close>, applied to the writer that the file-level pointer
  \<^verbatim>\<open>btfe\<close> designates (the C function reads through the pointer without a test). The
  first component is the status, \<^verbatim>\<open>int\<close> read as an integer; the second is the
  writer after \<^verbatim>\<open>btf_elf__delete\<close>.
\<close>

definition btf_encoder__encode :: "btf_elf \<Rightarrow> globals \<Rightarrow> int \<times> btf_elf \<times> globals" where
  "btf_encoder__encode b g =
     (let b1 = (if percpu_secinfo b \<noteq> []
                then snd (writer_call b (Add_datasec_type PERCPU_SECTION (percpu_secinfo b)))
                else b)
      in case writer_call b1 (Encode 0) of
           (err, b2) \<Rightarrow>
             (sint err, btf_elf__delete b2, (delete_functions g)\<lparr>btfe := None\<rparr>))"

subsection \<open>The per-CPU variables of the symbol table\<close>

definition percpu_var_cmp :: "var_info \<Rightarrow> var_info \<Rightarrow> int" where
  "percpu_var_cmp a b = (if vi_addr a = vi_addr b then 0 else if vi_addr a < vi_addr b then -1 else 1)"

text \<open>The result is \<open>None\<close> for \<^verbatim>\<open>false\<close>, and the size and name written through the
  two pointers for \<^verbatim>\<open>true\<close>.\<close>

definition percpu_var_exists :: "u64 \<Rightarrow> globals \<Rightarrow> (u32 \<times> string) option" where
  "percpu_var_exists addr g =
     (case bsearch \<lparr>vi_addr = addr, vi_sz = 0, vi_name = []\<rparr>
             (percpu_vars g) (percpu_var_cnt g) percpu_var_cmp of
        None \<Rightarrow> None
      | Some p \<Rightarrow> Some (vi_sz (percpu_vars g ! p), vi_name (percpu_vars g ! p)))"

definition invalid_name_msg :: string where
  "invalid_name_msg = ''Found symbol of invalid name when encoding btf''"

definition collect_percpu_var :: "btf_elf \<Rightarrow> elf_sym \<Rightarrow> globals \<Rightarrow> int \<times> globals" where
  "collect_percpu_var b symb g =
     (if st_shndx symb \<noteq> percpu_shndx b then (0, g)
      else if sym_type symb \<noteq> STT_OBJECT then (0, g)
      else if st_value symb = 0 then (0, g)
      else if (ucast (st_size symb) :: u32) = 0 then (0, g)
      else if \<not> btf_name_valid (sym_name symb) then
        (if btf_elf__force g then 0 else -1,
         dump_invalid_symbol invalid_name_msg (sym_name symb)
           (btf_elf__verbose g) (btf_elf__force g) g)
      else if percpu_var_cnt g = MAX_PERCPU_VAR_CNT
        then (-1, report (Percpu_limit_reached MAX_PERCPU_VAR_CNT) g)
      else (0, g\<lparr>percpu_vars := array_store (percpu_vars g) (percpu_var_cnt g)
                    \<lparr>vi_addr = st_value symb, vi_sz = ucast (st_size symb),
                     vi_name = sym_name symb\<rparr>,
                  percpu_var_cnt := percpu_var_cnt g + 1\<rparr>))"

definition collect_symbol :: "elf_sym \<Rightarrow> funcs_layout \<Rightarrow> funcs_layout" where
  "collect_symbol symb fl0 =
     (let fl1 = (if mcount_start fl0 = 0 \<and> strcmp ''__start_mcount_loc'' (sym_name symb) = 0
                 then fl0\<lparr>mcount_start := st_value symb, mcount_sec_idx := st_shndx symb\<rparr>
                 else fl0);
          fl2 = (if mcount_stop fl1 = 0 \<and> strcmp ''__stop_mcount_loc'' (sym_name symb) = 0
                 then fl1\<lparr>mcount_stop := st_value symb\<rparr> else fl1);
          fl3 = (if init_begin fl2 = 0 \<and> strcmp ''__init_begin'' (sym_name symb) = 0
                 then fl2\<lparr>init_begin := st_value symb\<rparr> else fl2);
          fl4 = (if init_end fl3 = 0 \<and> strcmp ''__init_end'' (sym_name symb) = 0
                 then fl3\<lparr>init_end := st_value symb\<rparr> else fl3);
          fl5 = (if init_bpf_begin fl4 = 0 \<and>
                    strcmp ''__init_bpf_preserve_type_begin'' (sym_name symb) = 0
                 then fl4\<lparr>init_bpf_begin := st_value symb\<rparr> else fl4)
      in if init_bpf_end fl5 = 0 \<and> strcmp ''__init_bpf_preserve_type_end'' (sym_name symb) = 0
         then fl5\<lparr>init_bpf_end := st_value symb\<rparr> else fl5)"

definition has_all_symbols :: "funcs_layout \<Rightarrow> bool" where
  "has_all_symbols fl =
     (mcount_start fl \<noteq> 0 \<and> mcount_stop fl \<noteq> 0 \<and> init_begin fl \<noteq> 0 \<and> init_end fl \<noteq> 0 \<and>
      init_bpf_begin fl \<noteq> 0 \<and> init_bpf_end fl \<noteq> 0)"

text \<open>
  The loop of \<^verbatim>\<open>collect_symbols\<close> over the symbol table; it leaves with -1 as soon
  as a symbol is refused.
\<close>

fun collect_symbols_loop ::
  "env \<Rightarrow> btf_elf \<Rightarrow> bool \<Rightarrow> elf_sym list \<Rightarrow> funcs_layout \<Rightarrow> globals
     \<Rightarrow> int \<times> funcs_layout \<times> globals" where
  "collect_symbols_loop e b collect_percpu_vars [] fl g = (0, fl, g)"
| "collect_symbols_loop e b collect_percpu_vars (symb # rest) fl g =
     (case (if collect_percpu_vars then collect_percpu_var b symb g else (0, g)) of
        (r1, g1) \<Rightarrow>
          if r1 \<noteq> 0 then (-1, fl, g1)
          else (case collect_function e symb g1 of
                  (r2, g2) \<Rightarrow>
                    if r2 \<noteq> 0 then (-1, fl, g2)
                    else collect_symbols_loop e b collect_percpu_vars rest
                           (collect_symbol symb fl) g2))"

definition funcs_layout_zero :: funcs_layout where
  "funcs_layout_zero =
     \<lparr>mcount_start = 0, mcount_stop = 0, init_begin = 0, init_end = 0,
      init_bpf_begin = 0, init_bpf_end = 0, mcount_sec_idx = 0\<rparr>"

text \<open>
  \<^verbatim>\<open>collect_symbols\<close>. A writer without a symbol table gives the loop nothing to
  visit (the C macro would read through the null pointer).
\<close>

definition collect_symbols :: "env \<Rightarrow> btf_elf \<Rightarrow> bool \<Rightarrow> globals \<Rightarrow> int \<times> globals" where
  "collect_symbols e b collect_percpu_vars g =
     (case collect_symbols_loop e b collect_percpu_vars
             (case symtab b of None \<Rightarrow> [] | Some syms \<Rightarrow> syms)
             funcs_layout_zero (g\<lparr>percpu_var_cnt := 0\<rparr>) of
        (r, fl, g1) \<Rightarrow>
          if r \<noteq> 0 then (-1, g1)
          else
            (let g2 = (if collect_percpu_vars \<and> percpu_var_cnt g1 \<noteq> 0
                       then g1\<lparr>percpu_vars :=
                                 qsort (take (percpu_var_cnt g1) (percpu_vars g1)) percpu_var_cmp
                                 @ drop (percpu_var_cnt g1) (percpu_vars g1)\<rparr>
                       else g1)
             in if functions_cnt g2 \<noteq> 0 \<and> has_all_symbols fl then
                  (case filter_functions e b fl
                          (g2\<lparr>functions :=
                                qsort (take (functions_cnt g2) (functions g2)) functions_cmp
                                @ drop (functions_cnt g2) (functions g2)\<rparr>) of
                     (r3, g3) \<Rightarrow> if r3 \<noteq> 0 then (-1, report Filter_failed g3) else (0, g3))
                else (0, delete_functions g2)))"

subsection \<open>The driver\<close>

fun has_arg_names_loop :: "cu \<Rightarrow> parameter list \<Rightarrow> bool" where
  "has_arg_names_loop cu [] = True"
| "has_arg_names_loop cu (param # rest) =
     (if strings__ptr cu (parm_name param) = None then False else has_arg_names_loop cu rest)"

definition has_arg_names :: "cu \<Rightarrow> ftype \<Rightarrow> bool" where
  "has_arg_names cu ft = has_arg_names_loop cu (parms ft)"

text \<open>
  The array-index-type preparation of \<^verbatim>\<open>cu__encode_btf\<close>.
\<close>

definition prepare_index_type :: "cu \<Rightarrow> u32 \<Rightarrow> globals \<Rightarrow> globals" where
  "prepare_index_type cu type_id_off g =
     (if \<not> has_index_type g then
        (case find_int cu of
           Some int_id \<Rightarrow> g\<lparr>has_index_type := True, array_index_id := type_id_off + int_id\<rparr>
         | None \<Rightarrow> g\<lparr>has_index_type := False,
                     array_index_id := type_id_off + types_nr_entries cu\<rparr>)
      else g)"

text \<open>
  The type pass of \<^verbatim>\<open>cu__encode_btf\<close>: the loop over the pairs of core ID and tag.
  The status is 0 when every tag was encoded, -1 at the first tag that the writer
  refuses or that fails the drift check.
\<close>

fun encode_types ::
  "cu \<Rightarrow> u32 \<Rightarrow> (u32 \<times> tag) list \<Rightarrow> btf_elf \<Rightarrow> globals \<Rightarrow> int \<times> btf_elf \<times> globals" where
  "encode_types cu type_id_off [] b g = (0, b, g)"
| "encode_types cu type_id_off ((core_id, pos) # rest) b g =
     (case tag__encode_btf cu pos core_id b (array_index_id g) type_id_off g of
        (btf_type_id, b1, g1) \<Rightarrow>
          if is_neg btf_type_id then (-1, b1, g1)
          else (case tag__check_id_drift pos core_id btf_type_id type_id_off g1 of
                  (d, g2) \<Rightarrow>
                    if d \<noteq> 0 then (-1, b1, g2)
                    else encode_types cu type_id_off rest b1 g2))"

definition synthetic_index_type :: base_type where
  "synthetic_index_type = \<lparr>bt_name = 0, bit_size = 32, bt_encoding = 0\<rparr>"

text \<open>
  The synthetic index type of \<^verbatim>\<open>cu__encode_btf\<close>; what the writer answers is not
  looked at.
\<close>

definition encode_index_type :: "btf_elf \<Rightarrow> globals \<Rightarrow> btf_elf \<times> globals" where
  "encode_index_type b g =
     (if need_index_type g \<and> \<not> has_index_type g
      then (snd (writer_call b (Add_base_type synthetic_index_type (Some ''__ARRAY_SIZE_TYPE__''))),
            g\<lparr>has_index_type := True\<rparr>)
      else (b, g))"

text \<open>
  The test at the head of the function loop: \<open>True\<close> when the function goes on to be
  emitted, \<open>False\<close> for \<^verbatim>\<open>continue\<close>.
\<close>

definition function_selected :: "cu \<Rightarrow> function_t \<Rightarrow> globals \<Rightarrow> bool \<times> globals" where
  "function_selected cu fn g =
     (if functions_cnt g \<noteq> 0 then
        (if \<not> has_arg_names cu (proto fn) then (False, g)
         else should_generate_function (function__name fn cu) g)
      else
        (if func_declaration fn \<or> \<not> func_external fn then (False, g) else (True, g)))"

text \<open>
  The function pass: both writer operations are called before either answer is tested.
\<close>

fun encode_functions ::
  "cu \<Rightarrow> u32 \<Rightarrow> function_t list \<Rightarrow> btf_elf \<Rightarrow> globals \<Rightarrow> int \<times> btf_elf \<times> globals" where
  "encode_functions cu type_id_off [] b g = (0, b, g)"
| "encode_functions cu type_id_off (fn # rest) b g =
     (case function_selected cu fn g of
        (False, g1) \<Rightarrow> encode_functions cu type_id_off rest b g1
      | (True, g1) \<Rightarrow>
          (case writer_call b (Add_func_proto cu (proto fn) type_id_off) of
             (btf_fnproto_id, b1) \<Rightarrow>
               (case writer_call b1 (Add_ref_type BTF_KIND_FUNC btf_fnproto_id
                                       (strings__ptr cu (func_name fn)) False) of
                  (btf_fn_id, b2) \<Rightarrow>
                    if is_neg btf_fnproto_id \<or> is_neg btf_fn_id then (-1, b2, g1)
                    else encode_functions cu type_id_off rest b2 g1)))"

text \<open>
  The variable pass: \<^verbatim>\<open>continue\<close> goes on with the rest, \<^verbatim>\<open>break\<close> leaves with the
  status set.
\<close>

fun encode_variables ::
  "cu \<Rightarrow> bool \<Rightarrow> u32 \<Rightarrow> variable list \<Rightarrow> btf_elf \<Rightarrow> globals \<Rightarrow> int \<times> btf_elf \<times> globals" where
  "encode_variables cu force type_id_off [] b g = (0, b, g)"
| "encode_variables cu force type_id_off (pos # rest) b g =
     (if var_declaration pos \<and> var_spec pos = None
        then encode_variables cu force type_id_off rest b g
      else if var_scope pos \<noteq> VSCOPE_GLOBAL \<and> var_spec pos = None
        then encode_variables cu force type_id_off rest b g
      else
        (let addr = var_ip_addr pos;
             var = (case var_spec pos of Some sp \<Rightarrow> sp | None \<Rightarrow> pos)
         in case percpu_var_exists addr g of
              None \<Rightarrow> encode_variables cu force type_id_off rest b g
            | Some (sz, name) \<Rightarrow>
                if var_ip_tag_type var = 0 then
                  (if force
                   then encode_variables cu force type_id_off rest b
                          (report (Void_type_variable name (cu_name cu)) g)
                   else (-1, b, report (Void_type_variable name (cu_name cu)) g))
                else
                  (case writer_call b
                          (Add_var_type (var_ip_tag_type var + type_id_off) name
                             (if var_external var then BTF_VAR_GLOBAL_ALLOCATED
                              else BTF_VAR_STATIC)) of
                     (var_id, b1) \<Rightarrow>
                       if is_neg var_id then (-1, b1, report (Variable_failed name addr) g)
                       else
                         (case btf_elf__add_var_secinfo b1 var_id
                                 (ucast (addr - percpu_base_addr b1)) sz of
                            (si_id, b2) \<Rightarrow>
                              if is_neg si_id then (-1, b2, report (Secinfo_failed name addr) g)
                              else encode_variables cu force type_id_off rest b2 g))))"

text \<open>
  The part of \<^verbatim>\<open>cu__encode_btf\<close> that runs on the active writer: from the snapshot
  of the type count to the label \<^verbatim>\<open>out\<close>.
\<close>

definition encode_cu_passes ::
  "cu \<Rightarrow> bool \<Rightarrow> bool \<Rightarrow> bool \<Rightarrow> btf_elf \<Rightarrow> globals \<Rightarrow> int \<times> btf_elf \<times> globals" where
  "encode_cu_passes cu verbose force skip_encoding_vars b g0 =
     (let g = g0\<lparr>btf_elf__verbose := verbose, btf_elf__force := force\<rparr>;
          type_id_off = btf__get_nr_types b;
          g1 = prepare_index_type cu type_id_off g
      in case encode_types cu type_id_off (types_table cu) b g1 of
           (err, b2, g2) \<Rightarrow>
             if err \<noteq> 0 then (err, b2, g2)
             else (case encode_index_type b2 g2 of
                     (b3, g3) \<Rightarrow>
                       (case encode_functions cu type_id_off (cu_functions cu) b3 g3 of
                          (err4, b4, g4) \<Rightarrow>
                            if err4 \<noteq> 0 then (err4, b4, g4)
                            else if skip_encoding_vars then (0, b4, g4)
                            else if percpu_shndx b4 = 0 \<or> symtab b4 = None then (0, b4, g4)
                            else encode_variables cu force type_id_off (cu_variables cu) b4 g4)))"

text \<open>
  The label \<^verbatim>\<open>out\<close>: on an error the function table is cleared and the writer is
  deleted, so that nothing of it remains in the state; otherwise the writer stays active.
\<close>

definition encode_out :: "int \<Rightarrow> btf_elf option \<Rightarrow> globals \<Rightarrow> int \<times> globals" where
  "encode_out err bo g =
     (if err \<noteq> 0 then (err, (delete_functions g)\<lparr>btfe := None\<rparr>)
      else (err, g\<lparr>btfe := bo\<rparr>))"

text \<open>
  The block \<^verbatim>\<open>if (!btfe)\<close> of \<^verbatim>\<open>cu__encode_btf\<close>: with no active writer a
  session starts. The result is either the status and state that the function returns
  at once (\<open>Inl\<close>), or the active writer and the state to go on with (\<open>Inr\<close>). A
  constructor that fails returns -1 without going through \<^verbatim>\<open>out\<close>.
\<close>

definition encode_cu_open ::
  "env \<Rightarrow> cu \<Rightarrow> bool \<Rightarrow> globals \<Rightarrow> (int \<times> globals) + (btf_elf \<times> globals)" where
  "encode_cu_open e cu skip_encoding_vars g =
     (case btfe g of
        Some b \<Rightarrow> Inr (b, g)
      | None \<Rightarrow>
          (case btf_elf__new e (cu_filename cu) (cu_elf cu) of
             None \<Rightarrow> Inl (-1, g)
           | Some b \<Rightarrow>
               (case collect_symbols e b (\<not> skip_encoding_vars) (g\<lparr>btfe := Some b\<rparr>) of
                  (err, g1) \<Rightarrow>
                    if err \<noteq> 0 then Inl (encode_out err (Some b) g1)
                    else Inr (b, g1\<lparr>has_index_type := False, need_index_type := False,
                                     array_index_id := 0\<rparr>))))"

text \<open>
  The head of \<^verbatim>\<open>cu__encode_btf\<close>: an active writer for another file is finalized
  first.
\<close>

definition encode_cu_begin ::
  "env \<Rightarrow> cu \<Rightarrow> bool \<Rightarrow> globals \<Rightarrow> (int \<times> globals) + (btf_elf \<times> globals)" where
  "encode_cu_begin e cu skip_encoding_vars g =
     (case btfe g of
        Some b \<Rightarrow>
          if strcmp (filename b) (cu_filename cu) \<noteq> 0 then
            (case btf_encoder__encode b g of
               (err, b', g1) \<Rightarrow>
                 if err \<noteq> 0 then Inl (encode_out err None g1)
                 else encode_cu_open e cu skip_encoding_vars g1)
          else encode_cu_open e cu skip_encoding_vars g
      | None \<Rightarrow> encode_cu_open e cu skip_encoding_vars g)"

definition cu__encode_btf ::
  "env \<Rightarrow> cu \<Rightarrow> bool \<Rightarrow> bool \<Rightarrow> bool \<Rightarrow> globals \<Rightarrow> int \<times> globals" where
  "cu__encode_btf e cu verbose force skip_encoding_vars g =
     (case encode_cu_begin e cu skip_encoding_vars g of
        Inl r \<Rightarrow> r
      | Inr (b, g1) \<Rightarrow>
          (case encode_cu_passes cu verbose force skip_encoding_vars b g1 of
             (err, b2, g2) \<Rightarrow> encode_out err (Some b2) g2))"

text \<open>
  The loader calls \<^verbatim>\<open>cu__encode_btf\<close> once for each compilation unit, in turn; a
  request is the unit with the three flags of the call.
\<close>

fun encode_cus :: "env \<Rightarrow> (cu \<times> bool \<times> bool \<times> bool) list \<Rightarrow> globals \<Rightarrow> globals" where
  "encode_cus e [] g = g"
| "encode_cus e ((cu, verbose, force, skip_encoding_vars) # rest) g =
     encode_cus e rest (snd (cu__encode_btf e cu verbose force skip_encoding_vars g))"

subsection \<open>Notions used to state the claims\<close>





text \<open>
  The variable that the pass goes on with once it has followed the specification link.
\<close>

definition resolved :: "variable \<Rightarrow> variable" where
  "resolved pos = (case var_spec pos of Some sp \<Rightarrow> sp | None \<Rightarrow> pos)"

text \<open>
  A per-CPU variable of type void: the variable pass does not skip it, its address is
  in the per-CPU table, and the type of the resolved variable is 0.
\<close>

definition void_percpu_variable :: "globals \<Rightarrow> variable \<Rightarrow> bool" where
  "void_percpu_variable g pos =
     (\<not> (var_declaration pos \<and> var_spec pos = None) \<and>
      \<not> (var_scope pos \<noteq> VSCOPE_GLOBAL \<and> var_spec pos = None) \<and>
      percpu_var_exists (var_ip_addr pos) g \<noteq> None \<and>
      var_ip_tag_type (resolved pos) = 0)"

text \<open>Two writers that differ at most in their history and section-info buffer.\<close>

definition same_writer :: "btf_elf \<Rightarrow> btf_elf \<Rightarrow> bool" where
  "same_writer b b' =
     (filename b' = filename b \<and> elf b' = elf b \<and> symtab b' = symtab b \<and>
      percpu_shndx b' = percpu_shndx b \<and> percpu_base_addr b' = percpu_base_addr b \<and>
      answer b' = answer b \<and> nr_types b' = nr_types b)"

text \<open>
  Two states with the same function table, per-CPU table, index type and flags other
  than \<^verbatim>\<open>need_index_type\<close>: they differ at most in \<^verbatim>\<open>need_index_type\<close>, the active
  writer and the messages.
\<close>

definition same_tables :: "globals \<Rightarrow> globals \<Rightarrow> bool" where
  "same_tables g g' =
     (functions g' = functions g \<and> functions_alloc g' = functions_alloc g \<and>
      functions_cnt g' = functions_cnt g \<and> percpu_vars g' = percpu_vars g \<and>
      percpu_var_cnt g' = percpu_var_cnt g \<and> array_index_id g' = array_index_id g \<and>
      has_index_type g' = has_index_type g \<and> btf_elf__verbose g' = btf_elf__verbose g \<and>
      btf_elf__force g' = btf_elf__force g)"

text \<open>
  Two states whose function tables hold the same names in the same cells and whose
  per-CPU tables are equal: they differ at most in the generated flags, the index type,
  the active writer and the messages.
\<close>

definition same_names :: "globals \<Rightarrow> globals \<Rightarrow> bool" where
  "same_names g g' =
     (map fn_name (functions g') = map fn_name (functions g) \<and>
      functions_cnt g' = functions_cnt g \<and> percpu_vars g' = percpu_vars g \<and>
      percpu_var_cnt g' = percpu_var_cnt g)"

text \<open>The DATASEC call of the finalization: made when the section-info buffer is not
  empty.\<close>

definition datasec_calls :: "btf_elf \<Rightarrow> btf_call list" where
  "datasec_calls b =
     (if percpu_secinfo b \<noteq> [] then [Add_datasec_type PERCPU_SECTION (percpu_secinfo b)]
      else [])"

text \<open>The calls that add a base type.\<close>

fun is_base_type_call :: "btf_call \<Rightarrow> bool" where
  "is_base_type_call (Add_base_type bt n) = True"
| "is_base_type_call c = False"

text \<open>The names of the FUNC entries among a sequence of writer calls, in order.\<close>

fun func_names :: "btf_call list \<Rightarrow> string option list" where
  "func_names [] = []"
| "func_names (Add_ref_type BTF_KIND_FUNC t n u # cs) = n # func_names cs"
| "func_names (c # cs) = func_names cs"

text \<open>The string that a name stands for in a comparison: a null name reads as empty.\<close>

definition name_key :: "string option \<Rightarrow> string" where
  "name_key n = (case n of None \<Rightarrow> [] | Some s \<Rightarrow> s)"

text \<open>The table entry that the search finds for a name has its generated flag set.\<close>

definition flagged :: "globals \<Rightarrow> string \<Rightarrow> bool" where
  "flagged g k =
     (case bsearch \<lparr>fn_name = k, fn_addr = 0, generated = False\<rparr>
             (functions g) (functions_cnt g) functions_cmp of
        None \<Rightarrow> False
      | Some p \<Rightarrow> generated (functions g ! p))"

text \<open>
  The state of the function pass in kernel mode: the table has at least
  \<^verbatim>\<open>functions_cnt\<close> cells; when it is not empty, the FUNC entries emitted so far have
  distinct names and each of them is flagged in the table.
\<close>

definition emitted_once :: "btf_elf \<Rightarrow> globals \<Rightarrow> bool" where
  "emitted_once b g =
     (functions_cnt g \<le> length (functions g) \<and>
      (functions_cnt g \<noteq> 0 \<longrightarrow>
         distinct (map name_key (func_names (calls b))) \<and>
         (\<forall>n\<in>set (func_names (calls b)). flagged g (name_key n))))"

definition kernel_inv :: "globals \<Rightarrow> bool" where
  "kernel_inv g =
     (case btfe g of
        None \<Rightarrow> functions_cnt g \<le> length (functions g)
      | Some b \<Rightarrow> emitted_once b g)"

subsection \<open>Concrete inputs\<close>

text \<open>
  A writer that numbers the types it is given in sequence, from 1, and answers 0 to the
  operations that add no type; its type count is the number of types added so far.
\<close>

fun is_type_call :: "btf_call \<Rightarrow> bool" where
  "is_type_call (Add_member n t s off) = False"
| "is_type_call (Add_enum_val n v) = False"
| "is_type_call (Add_var_secinfo t off s) = False"
| "is_type_call (Encode fl) = False"
| "is_type_call c = True"

definition seq_nr_types :: "btf_call list \<Rightarrow> u32" where
  "seq_nr_types h = of_nat (length (filter is_type_call h))"

definition seq_answer :: "btf_call list \<Rightarrow> btf_call \<Rightarrow> s32" where
  "seq_answer h c = (if is_type_call c then seq_nr_types h + 1 else 0)"

definition env_seq :: env where
  "env_seq = \<lparr>alloc_ok = (\<lambda>n. True), new_ok = (\<lambda>f. True),
              writer_answer = seq_answer, writer_nr_types = seq_nr_types\<rparr>"

definition elf_empty :: Elf where
  "elf_empty = \<lparr>elf_scns = (\<lambda>i. None), elf_symtab = Some [],
                elf_percpu_shndx = 0, elf_percpu_base_addr = 0\<rparr>"

definition ftype_zero :: ftype where
  "ftype_zero = \<lparr>ft_type = 0, parms = [], unspec_parms = False\<rparr>"

definition tag_zero :: tag where
  "tag_zero = \<lparr>tag_tag = DW_TAG_other 0, tag_type = 0,
               tag_base = \<lparr>bt_name = 0, bit_size = 0, bt_encoding = 0\<rparr>,
               namespace_name = 0,
               tag_class = \<lparr>ty_size = 0, ty_declaration = False, data_members = [],
                            enumerators = []\<rparr>,
               tag_array = \<lparr>nr_entries = []\<rparr>,
               tag_ftype = ftype_zero\<rparr>"

definition cu_empty :: cu where
  "cu_empty = \<lparr>cu_filename = ''a.o'', cu_name = ''a.c'', cu_elf = elf_empty,
               cu_strings = (\<lambda>s. None), types_table = [], types_nr_entries = 1,
               cu_functions = [], cu_variables = [], find_int = None\<rparr>"

text \<open>The file-level variables when the program starts: all zero.\<close>

definition globals_init :: globals where
  "globals_init = \<lparr>functions = [], functions_alloc = 0, functions_cnt = 0,
                   need_index_type = False, btfe = None, array_index_id = 0,
                   has_index_type = False, percpu_vars = [], percpu_var_cnt = 0,
                   btf_elf__verbose = False, btf_elf__force = False, stderr = []\<rparr>"

text \<open>A two-dimensional array \<^verbatim>\<open>[4][3]\<close> and one of \<^verbatim>\<open>[65536][65536]\<close>.\<close>

definition tag_array_4_3 :: tag where
  "tag_array_4_3 = tag_zero\<lparr>tag_tag := DW_TAG_array_type, tag_array := \<lparr>nr_entries = [4, 3]\<rparr>\<rparr>"

definition tag_array_big :: tag where
  "tag_array_big =
     tag_zero\<lparr>tag_tag := DW_TAG_array_type, tag_array := \<lparr>nr_entries = [65536, 65536]\<rparr>\<rparr>"

text \<open>The writer that \<^const>\<open>btf_elf__new\<close> creates for \<^verbatim>\<open>a.o\<close> with the sequential
  answers, before any operation.\<close>

definition btfe_fresh :: btf_elf where
  "btfe_fresh = \<lparr>filename = ''a.o'', elf = elf_empty, symtab = Some [],
                 percpu_shndx = 0, percpu_base_addr = 0, percpu_secinfo = [], calls = [],
                 answer = seq_answer, nr_types = seq_nr_types, deleted = False\<rparr>"

text \<open>
  A unit with one function \<^verbatim>\<open>foo\<close>, external, defined, without parameters; and the
  file-level variables of a session in kernel mode whose table holds \<^verbatim>\<open>bar\<close> and
  \<^verbatim>\<open>foo\<close>.
\<close>

definition func_foo :: function_t where
  "func_foo = \<lparr>func_name = 1, proto = ftype_zero, func_declaration = False,
               func_external = True\<rparr>"

definition cu_foo :: cu where
  "cu_foo = cu_empty\<lparr>cu_strings := (\<lambda>s. if s = 1 then Some ''foo'' else None),
                     cu_functions := [func_foo]\<rparr>"

definition globals_kernel :: globals where
  "globals_kernel =
     globals_init\<lparr>functions := [\<lparr>fn_name = ''bar'', fn_addr = 0x1000, generated = False\<rparr>,
                                 \<lparr>fn_name = ''foo'', fn_addr = 0x1100, generated = False\<rparr>],
                   functions_alloc := 1000, functions_cnt := 2, btfe := Some btfe_fresh\<rparr>"







text \<open>
  A session with one per-CPU symbol \<^verbatim>\<open>v\<close> of 8 bytes at address 0x40, and a global
  variable at that address whose type is void.
\<close>

definition btfe_percpu :: btf_elf where
  "btfe_percpu = btfe_fresh\<lparr>percpu_shndx := 3\<rparr>"

definition globals_percpu :: globals where
  "globals_percpu =
     globals_init\<lparr>percpu_vars := [\<lparr>vi_addr = 0x40, vi_sz = 8, vi_name = ''v''\<rparr>],
                   percpu_var_cnt := 1, btfe := Some btfe_percpu\<rparr>"

definition var_void :: variable where
  "var_void = Variable False VSCOPE_GLOBAL 0x40 0 True None"

text \<open>
  A unit with the base type \<^verbatim>\<open>int\<close> (core ID 1) and a pointer to it (core ID 2); a
  session with an active writer for \<^verbatim>\<open>a.o\<close>; and a writer that answers 7 to every
  operation.
\<close>

definition tag_int :: tag where
  "tag_int = tag_zero\<lparr>tag_tag := DW_TAG_base_type,
                       tag_base := \<lparr>bt_name = 2, bit_size = 32, bt_encoding = 1\<rparr>\<rparr>"

definition tag_ptr_int :: tag where
  "tag_ptr_int = tag_zero\<lparr>tag_tag := DW_TAG_pointer_type, tag_type := 1\<rparr>"

definition cu_int_ptr :: cu where
  "cu_int_ptr =
     cu_empty\<lparr>cu_strings := (\<lambda>s. if s = 2 then Some ''int'' else None),
               types_table := [(1, tag_int), (2, tag_ptr_int)], types_nr_entries := 3,
               find_int := Some 1\<rparr>"

definition globals_active :: globals where
  "globals_active = globals_init\<lparr>btfe := Some btfe_fresh\<rparr>"

definition btfe_drift :: btf_elf where
  "btfe_drift = btfe_fresh\<lparr>answer := (\<lambda>h c. 7)\<rparr>"

definition globals_drift :: globals where
  "globals_drift = globals_init\<lparr>btfe := Some btfe_drift\<rparr>"

text \<open>A unit with one array \<^verbatim>\<open>[4][3]\<close> and no \<^verbatim>\<open>int\<close>; and one with \<^verbatim>\<open>int\<close> and an
  array of it.\<close>

definition cu_array :: cu where
  "cu_array = cu_empty\<lparr>types_table := [(1, tag_array_4_3)], types_nr_entries := 2\<rparr>"

definition cu_int_array :: cu where
  "cu_int_array =
     cu_empty\<lparr>cu_strings := (\<lambda>s. if s = 2 then Some ''int'' else None),
               types_table := [(1, tag_int), (2, tag_array_4_3\<lparr>tag_type := 1\<rparr>)],
               types_nr_entries := 3, find_int := Some 1\<rparr>"

text \<open>
  A writer that refuses every base type and every DATASEC record with -1 and otherwise
  numbers types in sequence; a session with it active; and the same writer with one
  record in its section-info buffer.
\<close>

definition reject_answer :: "btf_call list \<Rightarrow> btf_call \<Rightarrow> s32" where
  "reject_answer h c =
     (case c of Add_base_type bt n \<Rightarrow> -1 | Add_datasec_type n si \<Rightarrow> -1 | _ \<Rightarrow> seq_answer h c)"

definition btfe_reject :: btf_elf where
  "btfe_reject = btfe_fresh\<lparr>answer := reject_answer\<rparr>"

definition globals_reject :: globals where
  "globals_reject = globals_init\<lparr>btfe := Some btfe_reject\<rparr>"

definition btfe_reject_secinfo :: btf_elf where
  "btfe_reject_secinfo =
     btfe_reject\<lparr>percpu_secinfo := [\<lparr>si_type = 1, si_offset = 0x40, si_size = 8\<rparr>]\<rparr>"

text \<open>The kernel-mode session after \<^verbatim>\<open>foo\<close> has been emitted, with a given
  index type ID.\<close>

definition globals_kernel_after :: "u32 \<Rightarrow> globals" where
  "globals_kernel_after idx =
     globals_init\<lparr>functions := [\<lparr>fn_name = ''bar'', fn_addr = 0x1000, generated = False\<rparr>,
                                 \<lparr>fn_name = ''foo'', fn_addr = 0x1100, generated = True\<rparr>],
                   functions_alloc := 1000, functions_cnt := 2, array_index_id := idx,
                   btfe := Some (btfe_fresh\<lparr>calls :=
                     [Add_func_proto cu_foo ftype_zero 0,
                      Add_ref_type BTF_KIND_FUNC 1 (Some ''foo'') False]\<rparr>)\<rparr>"

text \<open>
  A session with two per-CPU symbols, \<^verbatim>\<open>v\<close> of 8 bytes at address 0x40 and \<^verbatim>\<open>w\<close>
  of 4 bytes at address 0x48; and a unit with two global variables: one of type void at
  the address of \<^verbatim>\<open>v\<close>, then one of type 1 at the address of \<^verbatim>\<open>w\<close>.
\<close>

definition globals_percpu_two :: globals where
  "globals_percpu_two =
     globals_init\<lparr>percpu_vars := [\<lparr>vi_addr = 0x40, vi_sz = 8, vi_name = ''v''\<rparr>,
                                   \<lparr>vi_addr = 0x48, vi_sz = 4, vi_name = ''w''\<rparr>],
                   percpu_var_cnt := 2, btfe := Some btfe_percpu\<rparr>"

definition var_w :: variable where
  "var_w = Variable False VSCOPE_GLOBAL 0x48 1 True None"

definition cu_void_w :: cu where
  "cu_void_w = cu_empty\<lparr>cu_variables := [var_void, var_w]\<rparr>"

text \<open>
  A unit with three functions: a declaration, the external definition of \<^verbatim>\<open>foo\<close>, and
  a definition that is not external.
\<close>

definition func_decl :: function_t where
  "func_decl = \<lparr>func_name = 3, proto = ftype_zero, func_declaration = True,
                func_external = True\<rparr>"

definition func_local :: function_t where
  "func_local = \<lparr>func_name = 4, proto = ftype_zero, func_declaration = False,
                 func_external = False\<rparr>"

definition cu_three :: cu where
  "cu_three =
     cu_empty\<lparr>cu_strings := (\<lambda>s. if s = 1 then Some ''foo'' else if s = 3 then Some ''decl''
                                else if s = 4 then Some ''local'' else None),
               cu_functions := [func_decl, func_foo, func_local]\<rparr>"
subsection \<open>Lemmas: the name validator\<close>

lemma btf_name_char_ok_first: "btf_name_char_ok c True = first_class c"
  by (auto simp: btf_name_char_ok_def first_class_def)

lemma btf_name_char_ok_rest: "btf_name_char_ok c False = rest_class c"
  by (auto simp: btf_name_char_ok_def rest_class_def isalnum_def)

lemma btf_name_valid_loop_eq:
  "CHR 0x00 \<notin> set s \<Longrightarrow> p \<le> limit \<Longrightarrow>
   btf_name_valid_loop s p limit = (list_all rest_class (drop p s) \<and> length s \<le> limit)"
proof (induction s p limit rule: btf_name_valid_loop.induct)
  case (1 s p limit)
  show ?case
  proof (cases "p < length s")
    case inside: True
    then have "s ! p \<noteq> CHR 0x00"
      using "1.prems"(1) by (metis nth_mem)
    with inside have nz: "deref s p \<noteq> CHR 0x00" and rd: "deref s p = s ! p"
      by (simp_all add: deref_def)
    have dr: "drop p s = s ! p # drop (Suc p) s"
      using inside by (simp add: Cons_nth_drop_Suc)
    show ?thesis
    proof (cases "p < limit")
      case True
      show ?thesis
      proof (cases "btf_name_char_ok (s ! p) False")
        case ok: True
        have "btf_name_valid_loop s p limit = btf_name_valid_loop s (p + 1) limit"
          using nz True ok rd by (subst btf_name_valid_loop.simps) simp
        also have "\<dots> = (list_all rest_class (drop (p + 1) s) \<and> length s \<le> limit)"
          using "1.IH" nz True ok rd "1.prems" by simp
        finally show ?thesis
          using ok dr by (simp add: btf_name_char_ok_rest)
      next
        case bad: False
        have "\<not> btf_name_valid_loop s p limit"
          using nz True bad rd by (subst btf_name_valid_loop.simps) simp
        then show ?thesis
          using bad dr by (simp add: btf_name_char_ok_rest)
      qed
    next
      case False
      have "\<not> btf_name_valid_loop s p limit"
        using nz False by (subst btf_name_valid_loop.simps) simp
      then show ?thesis
        using False inside by simp
    qed
  next
    case False
    then have "deref s p = CHR 0x00"
      by (simp add: deref_def)
    then have "btf_name_valid_loop s p limit"
      by (subst btf_name_valid_loop.simps) simp
    then show ?thesis
      using False "1.prems"(2) by simp
  qed
qed

lemma btf_name_valid_eq:
  "CHR 0x00 \<notin> set s \<Longrightarrow> btf_name_valid s = name_language 127 s"
proof (cases s)
  case Nil
  then show ?thesis
    by (simp add: btf_name_valid_def name_language_def deref_def btf_name_char_ok_def
        isalpha_def isupper_def islower_def)
next
  case (Cons c cs)
  assume nn: "CHR 0x00 \<notin> set s"
  have "btf_name_valid_loop s 1 128 = (list_all rest_class (drop 1 s) \<and> length s \<le> 128)"
    using nn by (rule btf_name_valid_loop_eq) simp
  then show ?thesis
    using Cons
    by (auto simp: btf_name_valid_def name_language_def deref_def KSYM_NAME_LEN_def
        btf_name_char_ok_first)
qed

subsection \<open>Lemmas: searching and sorting\<close>

lemma bsearch_loop_bounds:
  "bsearch_loop compar key base l u = Some i \<Longrightarrow> l \<le> i \<and> i < u"
proof (induction compar key base l u rule: bsearch_loop.induct)
  case (1 compar key base l u)
  show ?case
  proof (cases "l < u")
    case True
    with "1.prems" "1.IH" show ?thesis
      by (subst (asm) bsearch_loop.simps) (fastforce split: if_splits)
  next
    case False
    with "1.prems" show ?thesis
      by (subst (asm) bsearch_loop.simps) simp
  qed
qed







lemma length_qsort_insert: "length (qsort_insert compar x ys) = Suc (length ys)"
  by (induction ys) auto


lemma length_qsort: "length (qsort xs compar) = length xs"
  by (induction xs) (simp_all add: qsort_def length_qsort_insert)




subsection \<open>Lemmas: the filter loop\<close>

lemma filter_functions_loop_inv:
  "valid \<le> i \<Longrightarrow> i \<le> cnt \<Longrightarrow> cnt \<le> length fs \<Longrightarrow>
   filter_functions_loop fl addrs count cnt i fs valid = (fs', valid') \<Longrightarrow>
   take valid' fs' = take valid fs @ filter (keeps fl addrs count) (take (cnt - i) (drop i fs))
   \<and> length fs' = length fs \<and> valid' \<le> cnt"
proof (induction fl addrs count cnt i fs valid rule: filter_functions_loop.induct)
  case (1 fl addrs count cnt i fs valid)
  show ?case
  proof (cases "i < cnt")
    case False
    with "1.prems" show ?thesis
      by (subst (asm) filter_functions_loop.simps) auto
  next
    case True
    then have il: "i < length fs"
      using "1.prems" by simp
    have dr: "take (cnt - i) (drop i fs) = fs ! i # take (cnt - (i + 1)) (drop (i + 1) fs)"
      using True il by (simp add: Cons_nth_drop_Suc [symmetric] take_Suc_Cons [symmetric] Suc_diff_Suc del: take_Suc_Cons)
    show ?thesis
    proof (cases "keeps fl addrs count (fs ! i)")
      case False
      then have res: "filter_functions_loop fl addrs count cnt (i + 1) fs valid = (fs', valid')"
        using "1.prems"(4) True
        by (subst (asm) filter_functions_loop.simps) (auto simp: keeps_def split: if_splits)
      have "take valid' fs' = take valid fs @
              filter (keeps fl addrs count) (take (cnt - (i + 1)) (drop (i + 1) fs))
            \<and> length fs' = length fs \<and> valid' \<le> cnt"
      proof (cases "is_init fl (fn_addr (fs ! i)) \<and> \<not> is_bpf_init fl (fn_addr (fs ! i))")
        case True
        show ?thesis
          by (rule "1.IH"(1) [OF \<open>i < cnt\<close> True _ _ _ res]) (use "1.prems" \<open>i < cnt\<close> in auto)
      next
        case ni: False
        with False have nb: "\<not> bsearch (fn_addr (fs ! i)) addrs count addrs_cmp \<noteq> None"
          by (auto simp: keeps_def)
        show ?thesis
          by (rule "1.IH"(3) [OF \<open>i < cnt\<close> ni nb _ _ _ res]) (use "1.prems" \<open>i < cnt\<close> in auto)
      qed
      then show ?thesis
        using False dr by simp
    next
      case kp: True
      let ?fs1 = "if i \<noteq> valid then fs[valid := fs ! i] else fs"
      from kp have ni: "\<not> (is_init fl (fn_addr (fs ! i)) \<and> \<not> is_bpf_init fl (fn_addr (fs ! i)))"
        and bs: "bsearch (fn_addr (fs ! i)) addrs count addrs_cmp \<noteq> None"
        by (auto simp: keeps_def)
      have res: "filter_functions_loop fl addrs count cnt (i + 1) ?fs1 (valid + 1) = (fs', valid')"
        using "1.prems"(4) True ni bs
        by (subst (asm) filter_functions_loop.simps) (auto split: if_splits)
      have vl: "valid < length fs"
        using "1.prems" il by simp
      have t1: "take (valid + 1) ?fs1 = take valid fs @ [fs ! i]"
        using vl by (auto simp: take_Suc_conv_app_nth)
      have d1: "drop (i + 1) ?fs1 = drop (i + 1) fs"
        using "1.prems"(1) by simp
      have "take valid' fs' = take (valid + 1) ?fs1 @
              filter (keeps fl addrs count) (take (cnt - (i + 1)) (drop (i + 1) ?fs1))
            \<and> length fs' = length ?fs1 \<and> valid' \<le> cnt"
        by (rule "1.IH"(2) [OF \<open>i < cnt\<close> ni bs _ _ _ res]) (use "1.prems" \<open>i < cnt\<close> in auto)
      then show ?thesis
        using kp dr t1 d1 by simp
    qed
  qed
qed

subsection \<open>Lemmas: the element count of an array\<close>

lemma array_type__nelems_loop_eq:
  "n \<le> length (nr_entries a) \<Longrightarrow>
   array_type__nelems_loop a n acc = acc * prod_list (take n (nr_entries a))"
proof (induction n arbitrary: acc)
  case 0
  then show ?case by simp
next
  case (Suc n)
  then have "take (Suc n) (nr_entries a) = take n (nr_entries a) @ [nr_entries a ! n]"
    by (simp add: take_Suc_conv_app_nth)
  with Suc show ?case
    by (simp add: mult.assoc mult.commute)
qed

lemma unat_prod_list:
  "unat (prod_list (ws :: u32 list)) = prod_list (map unat ws) mod 2 ^ 32"
proof (induction ws)
  case Nil
  show ?case by simp
next
  case (Cons w ws)
  have "unat (w * prod_list ws) = unat w * unat (prod_list ws) mod 2 ^ 32"
    by (simp add: unat_word_ariths)
  also have "\<dots> = unat w * (prod_list (map unat ws) mod 2 ^ 32) mod 2 ^ 32"
    by (simp only: Cons.IH)
  also have "\<dots> = unat w * prod_list (map unat ws) mod 2 ^ 32"
    by (rule mod_mult_right_eq)
  finally show ?case by simp
qed

lemma array_type__nelems_eq:
  "array_type__nelems tg = prod_list (nr_entries (tag_array tg))"
  by (simp add: array_type__nelems_def dimensions_def array_type__nelems_loop_eq)

subsection \<open>Lemmas: filter\_functions\<close>








subsection \<open>Lemmas: the writer and the variable pass\<close>

lemma same_writer_refl [simp]: "same_writer b b"
  by (simp add: same_writer_def)

lemma same_writer_trans: "same_writer a b \<Longrightarrow> same_writer b c \<Longrightarrow> same_writer a c"
  by (simp add: same_writer_def)

lemma writer_call_same: "writer_call b c = (r, b') \<Longrightarrow> same_writer b b'"
  by (auto simp: writer_call_def same_writer_def)

lemma writer_call_calls: "writer_call b c = (r, b') \<Longrightarrow> calls b' = calls b @ [c]"
  by (auto simp: writer_call_def)

lemma snd_writer_call_same [simp]: "same_writer b (snd (writer_call b c))"
  by (simp add: writer_call_def same_writer_def)

lemma add_var_secinfo_same:
  "btf_elf__add_var_secinfo b t off sz = (r, b') \<Longrightarrow> same_writer b b'"
  by (auto simp: btf_elf__add_var_secinfo_def writer_call_def same_writer_def
      split: if_splits)

lemma percpu_var_exists_report [simp]:
  "percpu_var_exists addr (report m g) = percpu_var_exists addr g"
  by (simp add: percpu_var_exists_def report_def split: option.splits)

lemma void_percpu_variable_report [simp]:
  "void_percpu_variable (report m g) pos = void_percpu_variable g pos"
  by (simp add: void_percpu_variable_def)

lemma encode_variables_void_step:
  assumes "void_percpu_variable g pos"
    and "percpu_var_exists (var_ip_addr pos) g = Some (sz, name)"
  shows "encode_variables cu force off (pos # rest) b g =
           (if force
            then encode_variables cu force off rest b
                   (report (Void_type_variable name (cu_name cu)) g)
            else (-1, b, report (Void_type_variable name (cu_name cu)) g))"
  using assms by (auto simp: void_percpu_variable_def resolved_def Let_def)

lemma encode_variables_void_fatal:
  "pos \<in> set vars \<Longrightarrow> void_percpu_variable g pos \<Longrightarrow>
   fst (encode_variables cu False off vars b g) = -1"
proof (induction vars arbitrary: b)
  case Nil
  then show ?case by simp
next
  case (Cons v vars)
  show ?case
  proof (cases "void_percpu_variable g v")
    case True
    then obtain sz name where "percpu_var_exists (var_ip_addr v) g = Some (sz, name)"
      by (auto simp: void_percpu_variable_def)
    with True show ?thesis
      by (simp add: encode_variables_void_step del: encode_variables.simps)
  next
    case False
    with Cons.prems have "pos \<in> set vars" by auto
    then have ih: "fst (encode_variables cu False off vars b' g) = -1" for b'
      using Cons.IH Cons.prems(2) by simp
    show ?thesis
      using ih by (auto simp: Let_def split: option.splits prod.splits)
  qed
qed


subsection \<open>Lemmas: what each pass leaves unchanged\<close>

lemma same_writer_calls_left [simp]:
  "same_writer (b\<lparr>calls := cs\<rparr>) b' = same_writer b b'"
  by (simp add: same_writer_def)

lemma same_writer_calls_right [simp]:
  "same_writer b (b'\<lparr>calls := cs\<rparr>) = same_writer b b'"
  by (simp add: same_writer_def)

lemma same_writer_secinfo_right [simp]:
  "same_writer b (b'\<lparr>percpu_secinfo := si\<rparr>) = same_writer b b'"
  by (simp add: same_writer_def)

lemma add_members_same: "same_writer b (snd (add_members b cu off tid ms))"
proof (induction ms arbitrary: b)
  case Nil
  show ?case by simp
next
  case (Cons m ms)
  have "same_writer (b\<lparr>calls := cs\<rparr>) (snd (add_members (b\<lparr>calls := cs\<rparr>) cu off tid ms))" for cs
    by (rule Cons.IH)
  then show ?case
    by (simp add: writer_call_def)
qed

lemma add_enum_vals_same: "same_writer b (snd (add_enum_vals b cu tid es))"
proof (induction es arbitrary: b)
  case Nil
  show ?case by simp
next
  case (Cons e es)
  have "same_writer (b\<lparr>calls := cs\<rparr>) (snd (add_enum_vals (b\<lparr>calls := cs\<rparr>) cu tid es))" for cs
    by (rule Cons.IH)
  then show ?case
    by (simp add: writer_call_def)
qed

lemma structure_type__encode_same:
  "same_writer b (snd (structure_type__encode b cu tg off))"
proof -
  have "same_writer (b\<lparr>calls := cs\<rparr>) (snd (add_members (b\<lparr>calls := cs\<rparr>) cu off tid ms))"
    for cs tid ms
    by (rule add_members_same)
  then show ?thesis
    by (simp add: structure_type__encode_def writer_call_def Let_def)
qed

lemma enumeration_type__encode_same:
  "same_writer b (snd (enumeration_type__encode b cu tg))"
proof -
  have "same_writer (b\<lparr>calls := cs\<rparr>) (snd (add_enum_vals (b\<lparr>calls := cs\<rparr>) cu tid es))"
    for cs tid es
    by (rule add_enum_vals_same)
  then show ?thesis
    by (simp add: enumeration_type__encode_def writer_call_def)
qed


lemma tag__encode_btf_same:
  "same_writer b (fst (snd (tag__encode_btf cu tg core_id b idx off g)))"
proof -
  have s: "same_writer b (snd (structure_type__encode b cu tg off))"
    by (rule structure_type__encode_same)
  have e: "same_writer b (snd (enumeration_type__encode b cu tg))"
    by (rule enumeration_type__encode_same)
  show ?thesis
    using s e
    by (cases "tag_tag tg")
      (simp_all add: tag__encode_btf_def Let_def writer_call_def case_prod_beta)
qed

text \<open>The file-level variables after one tag: only the array case and the default
  case touch them.\<close>

lemma tag__encode_btf_globals:
  "snd (snd (tag__encode_btf cu tg core_id b idx off g)) =
     (case tag_tag tg of
        DW_TAG_array_type \<Rightarrow> g\<lparr>need_index_type := True\<rparr>
      | DW_TAG_other v \<Rightarrow> report (Unsupported_tag (DW_TAG_other v)) g
      | _ \<Rightarrow> g)"
  by (cases "tag_tag tg")
    (simp_all add: tag__encode_btf_def Let_def writer_call_def case_prod_beta)


lemma same_tables_refl [simp]: "same_tables g g"
  by (simp add: same_tables_def)

lemma same_tables_trans: "same_tables a b \<Longrightarrow> same_tables b c \<Longrightarrow> same_tables a c"
  by (simp add: same_tables_def)

lemma same_tables_report [simp]: "same_tables g (report m g)"
  by (simp add: same_tables_def report_def)

lemma tag__encode_btf_tables:
  "same_tables g (snd (snd (tag__encode_btf cu tg core_id b idx off g)))"
  unfolding tag__encode_btf_globals
  by (cases "tag_tag tg") (simp_all add: same_tables_def report_def)

lemma tag__check_id_drift_tables:
  "same_tables g (snd (tag__check_id_drift tg core_id tid off g))"
  by (simp add: tag__check_id_drift_def)

lemma tag__check_id_drift_status:
  "fst (tag__check_id_drift tg core_id tid off g) = (if tid \<noteq> core_id + off then -1 else 0)"
  by (simp add: tag__check_id_drift_def)

lemma encode_types_frame:
  "same_writer b (fst (snd (encode_types cu off tys b g))) \<and>
   same_tables g (snd (snd (encode_types cu off tys b g))) \<and>
   (fst (encode_types cu off tys b g) = 0 \<or> fst (encode_types cu off tys b g) = -1)"
proof (induction tys arbitrary: b g)
  case Nil
  show ?case by simp
next
  case (Cons ct tys)
  obtain core_id pos where ct: "ct = (core_id, pos)"
    by (cases ct)
  obtain r b1 g1 where enc:
    "tag__encode_btf cu pos core_id b (array_index_id g) off g = (r, b1, g1)"
    by (cases "tag__encode_btf cu pos core_id b (array_index_id g) off g")
  have b1: "same_writer b b1"
    using tag__encode_btf_same [of b cu pos core_id "array_index_id g" off g] enc by simp
  have g1: "same_tables g g1"
    using tag__encode_btf_tables [of g cu pos core_id b "array_index_id g" off] enc by simp
  obtain d g2 where dr: "tag__check_id_drift pos core_id r off g1 = (d, g2)"
    by (cases "tag__check_id_drift pos core_id r off g1")
  have g2: "same_tables g g2"
    using tag__check_id_drift_tables [of g1 pos core_id r off] dr g1
    by (auto intro: same_tables_trans)
  note ih = Cons.IH [of b1 g2]
  show ?case
  proof (cases "is_neg r \<or> d \<noteq> 0")
    case True
    then show ?thesis
      using ct enc dr b1 g1 g2 by auto
  next
    case False
    then have "encode_types cu off (ct # tys) b g = encode_types cu off tys b1 g2"
      using ct enc dr by simp
    then show ?thesis
      using ih b1 g2 by (auto intro: same_writer_trans same_tables_trans)
  qed
qed


subsection \<open>Lemmas: the function pass and the passes together\<close>

lemma same_names_refl [simp]: "same_names g g"
  by (simp add: same_names_def)

lemma same_names_trans: "same_names a b \<Longrightarrow> same_names b c \<Longrightarrow> same_names a c"
  by (simp add: same_names_def)

lemma same_tables_names: "same_tables g g' \<Longrightarrow> same_names g g'"
  by (simp add: same_tables_def same_names_def)

lemma same_names_report [simp]: "same_names g (report m g)"
  by (simp add: same_names_def report_def)

lemma map_update_same: "map f (xs[p := upd (xs ! p)]) = map f xs"
  if "\<And>x. f (upd x) = f x"
  by (cases "p < length xs") (simp_all add: map_update that list_update_same_conv list_update_beyond)

lemma should_generate_function_names:
  "same_names g (snd (should_generate_function name g))"
proof -
  have "map fn_name ((functions g)[p := (functions g ! p)\<lparr>generated := True\<rparr>]) =
        map fn_name (functions g)" for p
    by (rule map_update_same [where upd = "\<lambda>x. x\<lparr>generated := True\<rparr>"]) simp
  then show ?thesis
    by (simp add: should_generate_function_def same_names_def split: option.splits)
qed

lemma function_selected_names: "same_names g (snd (function_selected cu fn g))"
  by (simp add: function_selected_def should_generate_function_names)

lemma encode_functions_frame:
  "same_writer b (fst (snd (encode_functions cu off fns b g))) \<and>
   same_names g (snd (snd (encode_functions cu off fns b g))) \<and>
   (fst (encode_functions cu off fns b g) = 0 \<or> fst (encode_functions cu off fns b g) = -1)"
proof (induction fns arbitrary: b g)
  case Nil
  show ?case by simp
next
  case (Cons fn fns)
  obtain sel g1 where sel: "function_selected cu fn g = (sel, g1)"
    by (cases "function_selected cu fn g")
  have g1: "same_names g g1"
    using function_selected_names [of g cu fn] sel by simp
  show ?case
  proof (cases sel)
    case False
    then have "encode_functions cu off (fn # fns) b g = encode_functions cu off fns b g1"
      using sel by simp
    then show ?thesis
      using Cons.IH [of b g1] g1 by (auto intro: same_names_trans)
  next
    case True
    obtain p b1 where c1: "writer_call b (Add_func_proto cu (proto fn) off) = (p, b1)"
      by (cases "writer_call b (Add_func_proto cu (proto fn) off)")
    obtain f b2 where c2:
      "writer_call b1 (Add_ref_type BTF_KIND_FUNC p (strings__ptr cu (func_name fn)) False)
         = (f, b2)"
      by (cases "writer_call b1 (Add_ref_type BTF_KIND_FUNC p (strings__ptr cu (func_name fn)) False)")
    have b2: "same_writer b b2"
      using writer_call_same [OF c1] writer_call_same [OF c2] by (rule same_writer_trans)
    show ?thesis
    proof (cases "is_neg p \<or> is_neg f")
      case True
      then show ?thesis
        using sel \<open>sel\<close> c1 c2 b2 g1 by auto
    next
      case False
      then have "encode_functions cu off (fn # fns) b g = encode_functions cu off fns b2 g1"
        using sel \<open>sel\<close> c1 c2 by simp
      then show ?thesis
        using Cons.IH [of b2 g1] g1 b2 by (auto intro: same_names_trans same_writer_trans)
    qed
  qed
qed

lemma encode_index_type_frame:
  "same_writer b (fst (encode_index_type b g)) \<and> same_names g (snd (encode_index_type b g))"
  by (simp add: encode_index_type_def same_names_def)

lemma prepare_index_type_names: "same_names g (prepare_index_type cu off g)"
  by (simp add: prepare_index_type_def same_names_def split: option.splits)

lemma percpu_var_exists_names:
  "same_names g g' \<Longrightarrow> percpu_var_exists addr g' = percpu_var_exists addr g"
  by (simp add: same_names_def percpu_var_exists_def split: option.splits)

lemma void_percpu_variable_names:
  "same_names g g' \<Longrightarrow> void_percpu_variable g' pos = void_percpu_variable g pos"
  by (simp add: void_percpu_variable_def percpu_var_exists_names)


lemma encode_cu_passes_void:
  assumes v: "void_percpu_variable g0 pos" and m: "pos \<in> set (cu_variables cu)"
    and sh: "percpu_shndx b \<noteq> 0" and st: "symtab b \<noteq> None"
  shows "fst (encode_cu_passes cu verbose False False b g0) = -1"
proof -
  let ?g = "g0\<lparr>btf_elf__verbose := verbose, btf_elf__force := False\<rparr>"
  let ?off = "btf__get_nr_types b"
  let ?g1 = "prepare_index_type cu ?off ?g"
  obtain err b2 g2 where ty: "encode_types cu ?off (types_table cu) b ?g1 = (err, b2, g2)"
    by (cases "encode_types cu ?off (types_table cu) b ?g1")
  obtain b3 g3 where ix: "encode_index_type b2 g2 = (b3, g3)"
    by (cases "encode_index_type b2 g2")
  obtain err4 b4 g4 where fn: "encode_functions cu ?off (cu_functions cu) b3 g3 = (err4, b4, g4)"
    by (cases "encode_functions cu ?off (cu_functions cu) b3 g3")
  have n0: "same_names g0 ?g"
    by (simp add: same_names_def)
  have n1: "same_names g0 ?g1"
    using n0 prepare_index_type_names by (rule same_names_trans)
  have f2: "same_writer b b2" "same_names ?g1 g2" "err = 0 \<or> err = -1"
    using encode_types_frame [of b cu ?off "types_table cu" ?g1] ty
    by (simp_all add: same_tables_names)
  have f3: "same_writer b2 b3" "same_names g2 g3"
    using encode_index_type_frame [of b2 g2] ix by simp_all
  have f4: "same_writer b3 b4" "same_names g3 g4" "err4 = 0 \<or> err4 = -1"
    using encode_functions_frame [of b3 cu ?off "cu_functions cu" g3] fn by simp_all
  have n4: "same_names g0 g4"
    using n1 f2(2) f3(2) f4(2) by (blast intro: same_names_trans)
  have w4: "same_writer b b4"
    using f2(1) f3(1) f4(1) by (blast intro: same_writer_trans)
  have v4: "void_percpu_variable g4 pos"
    using v void_percpu_variable_names [OF n4] by simp
  have var: "fst (encode_variables cu False ?off (cu_variables cu) b4 g4) = -1"
    using m v4 by (rule encode_variables_void_fatal)
  have sh4: "percpu_shndx b4 \<noteq> 0" "symtab b4 \<noteq> None"
    using w4 sh st by (simp_all add: same_writer_def)
  have "encode_cu_passes cu verbose False False b g0 =
          (if err \<noteq> 0 then (err, b2, g2)
           else if err4 \<noteq> 0 then (err4, b4, g4)
           else encode_variables cu False ?off (cu_variables cu) b4 g4)"
    by (simp add: encode_cu_passes_def Let_def ty ix fn sh4)
  then show ?thesis
    using f2(3) f4(3) var by auto
qed


subsection \<open>Lemmas: the error exit and concrete runs\<close>

lemma encode_out_error: "err \<noteq> 0 \<Longrightarrow> encode_out err bo g = (err, (delete_functions g)\<lparr>btfe := None\<rparr>)"
  by (simp add: encode_out_def)

subsection \<open>Lemmas: the type pass inside the driver\<close>

lemma encode_types_append:
  "encode_types cu off (pre @ rest) b g =
     (case encode_types cu off pre b g of
        (err, b0, g0) \<Rightarrow> if err \<noteq> 0 then (err, b0, g0) else encode_types cu off rest b0 g0)"
proof (induction pre arbitrary: b g)
  case Nil
  show ?case by simp
next
  case (Cons ct pre)
  obtain core_id pos where ct: "ct = (core_id, pos)"
    by (cases ct)
  show ?case
    by (simp add: ct Cons.IH split: prod.splits)
qed

lemma encode_types_at:
  assumes pre: "encode_types cu off pre b g = (0, b0, g0)"
    and enc: "tag__encode_btf cu pos core_id b0 (array_index_id g0) off g0 = (tid, b1, g1)"
  shows "tid \<noteq> core_id + off \<or> is_neg tid \<Longrightarrow>
           fst (encode_types cu off (pre @ (core_id, pos) # post) b g) = -1"
    and "fst (encode_types cu off (pre @ (core_id, pos) # post) b g) = 0 \<Longrightarrow>
           tid = core_id + off \<and> \<not> is_neg tid"
proof -
  have step: "encode_types cu off (pre @ (core_id, pos) # post) b g =
        (if is_neg tid then (-1, b1, g1)
         else if tid \<noteq> core_id + off
           then (-1, b1, snd (tag__check_id_drift pos core_id tid off g1))
         else encode_types cu off post b1 g1)"
    by (simp add: encode_types_append pre enc tag__check_id_drift_def)
  show "tid \<noteq> core_id + off \<or> is_neg tid \<Longrightarrow>
           fst (encode_types cu off (pre @ (core_id, pos) # post) b g) = -1"
    by (auto simp: step)
  show "fst (encode_types cu off (pre @ (core_id, pos) # post) b g) = 0 \<Longrightarrow>
           tid = core_id + off \<and> \<not> is_neg tid"
    by (auto simp: step split: if_splits)
qed

lemma encode_cu_passes_types_failed:
  assumes "fst (encode_types cu (btf__get_nr_types b) (types_table cu) b
          (prepare_index_type cu (btf__get_nr_types b)
             (g\<lparr>btf_elf__verbose := verbose, btf_elf__force := force\<rparr>))) \<noteq> 0"
  shows "encode_cu_passes cu verbose force skip b g =
     encode_types cu (btf__get_nr_types b) (types_table cu) b
       (prepare_index_type cu (btf__get_nr_types b)
          (g\<lparr>btf_elf__verbose := verbose, btf_elf__force := force\<rparr>))"
proof -
  obtain err b2 g2 where ty: "encode_types cu (btf__get_nr_types b) (types_table cu) b
       (prepare_index_type cu (btf__get_nr_types b)
          (g\<lparr>btf_elf__verbose := verbose, btf_elf__force := force\<rparr>)) = (err, b2, g2)"
    by (metis prod_cases3)
  with assms have "err \<noteq> 0" by simp
  then show ?thesis
    by (simp add: encode_cu_passes_def Let_def ty)
qed

lemma encode_cu_passes_ok_types:
  assumes "fst (encode_cu_passes cu verbose force skip b g) = 0"
  shows "fst (encode_types cu (btf__get_nr_types b) (types_table cu) b
          (prepare_index_type cu (btf__get_nr_types b)
             (g\<lparr>btf_elf__verbose := verbose, btf_elf__force := force\<rparr>))) = 0"
proof (rule ccontr)
  assume n: "\<not> ?thesis"
  from encode_cu_passes_types_failed [OF n, where skip = skip] assms n show False
    by simp
qed

lemma cu__encode_btf_passes:
  "encode_cu_begin e cu skip g = Inr (b, g1) \<Longrightarrow>
   cu__encode_btf e cu verbose force skip g =
     encode_out (fst (encode_cu_passes cu verbose force skip b g1))
       (Some (fst (snd (encode_cu_passes cu verbose force skip b g1))))
       (snd (snd (encode_cu_passes cu verbose force skip b g1)))"
  by (simp add: cu__encode_btf_def case_prod_beta)

lemma fst_encode_out [simp]: "fst (encode_out err bo g) = err"
  by (simp add: encode_out_def)

lemma btfe_encode_out: "btfe (snd (encode_out err bo g)) = (if err \<noteq> 0 then None else bo)"
  by (simp add: encode_out_def)

lemma nr_types_fresh: "btf__get_nr_types btfe_fresh = 0"
  by (simp add: btf__get_nr_types_def btfe_fresh_def seq_nr_types_def)

lemma nr_types_drift: "btf__get_nr_types btfe_drift = 0"
  by (simp add: btf__get_nr_types_def btfe_drift_def btfe_fresh_def seq_nr_types_def)

lemma begin_active:
  "encode_cu_begin env_seq cu_int_ptr True globals_active = Inr (btfe_fresh, globals_active)"
  by (simp add: encode_cu_begin_def encode_cu_open_def globals_active_def globals_init_def
      btfe_fresh_def cu_int_ptr_def cu_empty_def)

lemma begin_drift:
  "encode_cu_begin env_seq cu_int_ptr True globals_drift = Inr (btfe_drift, globals_drift)"
  by (simp add: encode_cu_begin_def encode_cu_open_def globals_drift_def globals_init_def
      btfe_drift_def btfe_fresh_def cu_int_ptr_def cu_empty_def)

lemma types_table_int_ptr:
  "types_table cu_int_ptr = [] @ (1, tag_int) # [(2, tag_ptr_int)]"
  "types_table cu_int_ptr = [(1, tag_int)] @ (2, tag_ptr_int) # []"
  by (simp_all add: cu_int_ptr_def cu_empty_def)

lemma encode_int_fresh:
  "tag__encode_btf cu_int_ptr tag_int 1 btfe_fresh idx 0 g =
     (1, btfe_fresh\<lparr>calls := [Add_base_type (tag_base tag_int) (Some ''int'')]\<rparr>, g)"
  by (simp add: tag__encode_btf_def tag_int_def tag_zero_def writer_call_def btfe_fresh_def
      seq_answer_def seq_nr_types_def strings__ptr_def cu_int_ptr_def cu_empty_def Let_def)

lemma encode_ptr_fresh:
  "tag__encode_btf cu_int_ptr tag_ptr_int 2
     (btfe_fresh\<lparr>calls := [Add_base_type (tag_base tag_int) (Some ''int'')]\<rparr>) idx 0 g =
     (2, btfe_fresh\<lparr>calls := [Add_base_type (tag_base tag_int) (Some ''int''),
                               Add_ref_type BTF_KIND_PTR 1 None False]\<rparr>, g)"
  by (simp add: tag__encode_btf_def tag_ptr_int_def tag_zero_def writer_call_def btfe_fresh_def
      seq_answer_def seq_nr_types_def Let_def)

lemma encode_int_drift:
  "tag__encode_btf cu_int_ptr tag_int 1 btfe_drift idx 0 g =
     (7, btfe_drift\<lparr>calls := [Add_base_type (tag_base tag_int) (Some ''int'')]\<rparr>, g)"
  by (simp add: tag__encode_btf_def tag_int_def tag_zero_def writer_call_def btfe_drift_def
      btfe_fresh_def strings__ptr_def cu_int_ptr_def cu_empty_def Let_def)

lemma not_neg_small [simp]: "\<not> is_neg 1" "\<not> is_neg 2" "\<not> is_neg 7" "\<not> is_neg 0"
  by (simp_all add: is_neg_def)

lemma cu_int_ptr_fields:
  "types_table cu_int_ptr = [(1, tag_int), (2, tag_ptr_int)]"
  "cu_functions cu_int_ptr = []" "cu_variables cu_int_ptr = []"
  "find_int cu_int_ptr = Some 1" "cu_filename cu_int_ptr = ''a.o''"
  by (simp_all add: cu_int_ptr_def cu_empty_def)

lemma run_int_ptr:
  "fst (cu__encode_btf env_seq cu_int_ptr False False True globals_active) = 0"
proof -
  have ty: "encode_types cu_int_ptr 0 [(1, tag_int), (2, tag_ptr_int)] btfe_fresh g =
      (0, btfe_fresh\<lparr>calls := [Add_base_type (tag_base tag_int) (Some ''int''),
                               Add_ref_type BTF_KIND_PTR 1 None False]\<rparr>, g)" for g
    by (simp add: encode_int_fresh encode_ptr_fresh tag__check_id_drift_def)
  have "fst (encode_cu_passes cu_int_ptr False False True btfe_fresh globals_active) = 0"
    by (simp add: encode_cu_passes_def Let_def nr_types_fresh cu_int_ptr_fields ty
        encode_index_type_def prepare_index_type_def globals_active_def globals_init_def
        del: encode_types.simps)
  then show ?thesis
    by (simp add: cu__encode_btf_passes [OF begin_active])
qed

subsection \<open>Lemmas: the calls of the passes and the index type\<close>

lemma encode_types_need:
  "fst (encode_types cu off tys b g) = 0 \<Longrightarrow>
   need_index_type (snd (snd (encode_types cu off tys b g))) =
     (need_index_type g \<or> (\<exists>ct\<in>set tys. tag_tag (snd ct) = DW_TAG_array_type))"
proof (induction tys arbitrary: b g)
  case Nil
  show ?case by simp
next
  case (Cons ct tys)
  obtain core_id pos where ct: "ct = (core_id, pos)"
    by (cases ct)
  obtain r b1 g1 where enc:
    "tag__encode_btf cu pos core_id b (array_index_id g) off g = (r, b1, g1)"
    by (metis prod_cases3)
  obtain d g2 where dr: "tag__check_id_drift pos core_id r off g1 = (d, g2)"
    by (cases "tag__check_id_drift pos core_id r off g1")
  have ok: "\<not> is_neg r" "d = 0"
    using Cons.prems ct enc dr by (auto split: if_splits)
  then have step: "encode_types cu off (ct # tys) b g = encode_types cu off tys b1 g2"
    using ct enc dr by simp
  have "g1 = (case tag_tag pos of
        DW_TAG_array_type \<Rightarrow> g\<lparr>need_index_type := True\<rparr>
      | DW_TAG_other v \<Rightarrow> report (Unsupported_tag (DW_TAG_other v)) g
      | _ \<Rightarrow> g)"
    using tag__encode_btf_globals [of cu pos core_id b "array_index_id g" off g] enc by simp
  then have n1: "need_index_type g1 = (need_index_type g \<or> tag_tag pos = DW_TAG_array_type)"
    by (cases "tag_tag pos") (simp_all add: report_def)
  have "g2 = g1"
    using dr ok by (simp add: tag__check_id_drift_def split: if_splits)
  with n1 have n2: "need_index_type g2 = (need_index_type g \<or> tag_tag pos = DW_TAG_array_type)"
    by simp
  have "need_index_type (snd (snd (encode_types cu off tys b1 g2))) =
     (need_index_type g2 \<or> (\<exists>ct\<in>set tys. tag_tag (snd ct) = DW_TAG_array_type))"
    using Cons.prems step by (intro Cons.IH) simp
  then show ?case
    by (simp only: step n2) (auto simp: ct)
qed

lemma encode_functions_calls:
  "\<exists>rest. calls (fst (snd (encode_functions cu off fns b g))) = calls b @ rest \<and>
          list_all (\<lambda>c. \<not> is_base_type_call c) rest"
proof (induction fns arbitrary: b g)
  case Nil
  show ?case by simp
next
  case (Cons fn fns)
  obtain sel g1 where sel: "function_selected cu fn g = (sel, g1)"
    by (cases "function_selected cu fn g")
  show ?case
  proof (cases sel)
    case False
    then have "encode_functions cu off (fn # fns) b g = encode_functions cu off fns b g1"
      using sel by simp
    then show ?thesis
      using Cons.IH [of b g1] by simp
  next
    case True
    let ?c1 = "Add_func_proto cu (proto fn) off"
    let ?c2 = "Add_ref_type BTF_KIND_FUNC (answer b (calls b) ?c1)
                 (strings__ptr cu (func_name fn)) False"
    let ?b2 = "b\<lparr>calls := calls b @ [?c1, ?c2]\<rparr>"
    let ?f = "answer b (calls b @ [?c1]) ?c2"
    have step: "encode_functions cu off (fn # fns) b g =
        (if is_neg (answer b (calls b) ?c1) \<or> is_neg ?f then (-1, ?b2, g1)
         else encode_functions cu off fns ?b2 g1)"
      using sel True by (simp add: writer_call_def)
    obtain rest where rest:
      "calls (fst (snd (encode_functions cu off fns ?b2 g1))) = calls ?b2 @ rest"
      "list_all (\<lambda>c. \<not> is_base_type_call c) rest"
      using Cons.IH [of ?b2 g1] by blast
    show ?thesis
    proof (cases "is_neg (answer b (calls b) ?c1) \<or> is_neg ?f")
      case True
      then have "calls (fst (snd (encode_functions cu off (fn # fns) b g))) =
                   calls b @ [?c1, ?c2]"
        by (simp add: step del: encode_functions.simps)
      then show ?thesis
        by (intro exI [of _ "[?c1, ?c2]"]) simp
    next
      case False
      then have "calls (fst (snd (encode_functions cu off (fn # fns) b g))) =
                   calls b @ ([?c1, ?c2] @ rest)"
        using rest(1) by (simp add: step del: encode_functions.simps)
      then show ?thesis
        using rest(2) by (intro exI [of _ "[?c1, ?c2] @ rest"]) simp
    qed
  qed
qed

lemma encode_variables_step_calls:
  assumes P1: "\<And>t n l. P (Add_var_type t n l)" and P2: "\<And>i off sz. P (Add_var_secinfo i off sz)"
  shows "\<exists>b' g' pre. calls b' = calls b @ pre \<and> list_all P pre \<and> same_tables g g' \<and>
     (encode_variables cu force off (v # vars) b g = encode_variables cu force off vars b' g' \<or>
      snd (encode_variables cu force off (v # vars) b g) = (b', g'))"
proof -
  let ?var = "case var_spec v of Some sp \<Rightarrow> sp | None \<Rightarrow> v"
  have skip: ?thesis if "encode_variables cu force off (v # vars) b g =
      encode_variables cu force off vars b g'" "same_tables g g'" for g'
    using that by (intro exI [of _ b] exI [of _ g'] exI [of _ "[]"]) simp
  have stop: ?thesis if "snd (encode_variables cu force off (v # vars) b g) = (b', g')"
    "calls b' = calls b @ pre" "list_all P pre" "same_tables g g'" for b' g' pre
    using that by blast
  show ?thesis
  proof (cases "(var_declaration v \<and> var_spec v = None) \<or>
                (var_scope v \<noteq> VSCOPE_GLOBAL \<and> var_spec v = None)")
    case True
    then have "encode_variables cu force off (v # vars) b g =
      encode_variables cu force off vars b g"
      by auto
    then show ?thesis by (rule skip) simp
  next
    case ns: False
    show ?thesis
    proof (cases "percpu_var_exists (var_ip_addr v) g")
      case None
      with ns have "encode_variables cu force off (v # vars) b g =
        encode_variables cu force off vars b g"
        by (auto simp: Let_def)
      then show ?thesis by (rule skip) simp
    next
      case (Some sn)
      obtain sz name where sn: "sn = (sz, name)"
        by (cases sn)
      show ?thesis
      proof (cases "var_ip_tag_type ?var = 0")
        case True
        show ?thesis
        proof (cases force)
          case True
          with ns Some sn \<open>var_ip_tag_type ?var = 0\<close>
          have "encode_variables cu force off (v # vars) b g =
            encode_variables cu force off vars b (report (Void_type_variable name (cu_name cu)) g)"
            by (auto simp: Let_def)
          then show ?thesis by (rule skip) simp
        next
          case False
          with ns Some sn \<open>var_ip_tag_type ?var = 0\<close>
          have "snd (encode_variables cu force off (v # vars) b g) =
                 (b, report (Void_type_variable name (cu_name cu)) g)"
            by (auto simp: Let_def)
          then show ?thesis by (rule stop [where pre = "[]"]) simp_all
        qed
      next
        case nv: False
        let ?c1 = "Add_var_type (var_ip_tag_type ?var + off) name
                     (if var_external ?var then BTF_VAR_GLOBAL_ALLOCATED else BTF_VAR_STATIC)"
        let ?id = "answer b (calls b) ?c1"
        let ?b1 = "b\<lparr>calls := calls b @ [?c1]\<rparr>"
        let ?c2 = "Add_var_secinfo ?id (ucast (var_ip_addr v - percpu_base_addr b)) sz"
        obtain r2 b2 where si: "btf_elf__add_var_secinfo ?b1 ?id
            (ucast (var_ip_addr v - percpu_base_addr ?b1)) sz = (r2, b2)"
          by (cases "btf_elf__add_var_secinfo ?b1 ?id
            (ucast (var_ip_addr v - percpu_base_addr ?b1)) sz")
        then have c2: "calls b2 = calls b @ [?c1, ?c2]"
          by (auto simp: btf_elf__add_var_secinfo_def writer_call_def split: if_splits)
        have step: "encode_variables cu force off (v # vars) b g =
            (if is_neg ?id then (-1, ?b1, report (Variable_failed name (var_ip_addr v)) g)
             else if is_neg r2 then (-1, b2, report (Secinfo_failed name (var_ip_addr v)) g)
             else encode_variables cu force off vars b2 g)"
          using ns Some sn nv si by (auto simp: Let_def writer_call_def)
        show ?thesis
        proof (cases "is_neg ?id")
          case True
          then have "snd (encode_variables cu force off (v # vars) b g) =
                (?b1, report (Variable_failed name (var_ip_addr v)) g)"
            by (simp add: step del: encode_variables.simps)
          then show ?thesis by (rule stop [where pre = "[?c1]"]) (simp_all add: P1)
        next
          case n1: False
          show ?thesis
          proof (cases "is_neg r2")
            case True
            then have "snd (encode_variables cu force off (v # vars) b g) =
                (b2, report (Secinfo_failed name (var_ip_addr v)) g)"
              using n1 by (simp add: step del: encode_variables.simps)
            then show ?thesis
              using c2 by (rule stop [where pre = "[?c1, ?c2]"]) (simp_all add: P1 P2)
          next
            case False
            then have "encode_variables cu force off (v # vars) b g =
               encode_variables cu force off vars b2 g"
              using n1 by (simp add: step del: encode_variables.simps)
            then show ?thesis
              using c2
              by (intro exI [of _ b2] exI [of _ g] exI [of _ "[?c1, ?c2]"]) (simp add: P1 P2)
          qed
        qed
      qed
    qed
  qed
qed

lemma encode_variables_calls_gen:
  assumes P1: "\<And>t n l. P (Add_var_type t n l)" and P2: "\<And>i off sz. P (Add_var_secinfo i off sz)"
  shows "\<exists>rest. calls (fst (snd (encode_variables cu force off vars b g))) = calls b @ rest \<and>
          list_all P rest \<and> same_tables g (snd (snd (encode_variables cu force off vars b g)))"
proof (induction vars arbitrary: b g)
  case Nil
  show ?case by simp
next
  case (Cons v vars)
  obtain b' g' pre where pre: "calls b' = calls b @ pre" "list_all P pre" "same_tables g g'"
    and alt: "encode_variables cu force off (v # vars) b g =
                encode_variables cu force off vars b' g' \<or>
              snd (encode_variables cu force off (v # vars) b g) = (b', g')"
    using encode_variables_step_calls [OF P1 P2, where b = b and g = g and cu = cu
        and force = force and off = off and v = v and vars = vars]
    by blast
  from alt show ?case
  proof
    assume "snd (encode_variables cu force off (v # vars) b g) = (b', g')"
    with pre show ?thesis by (simp del: encode_variables.simps)
  next
    assume e: "encode_variables cu force off (v # vars) b g =
                encode_variables cu force off vars b' g'"
    obtain rest where rest: "calls (fst (snd (encode_variables cu force off vars b' g'))) =
        calls b' @ rest" "list_all P rest"
        "same_tables g' (snd (snd (encode_variables cu force off vars b' g')))"
      using Cons.IH [of b' g'] by blast
    have st: "same_tables g (snd (snd (encode_variables cu force off vars b' g')))"
      using pre(3) rest(3) by (rule same_tables_trans)
    have "calls (fst (snd (encode_variables cu force off (v # vars) b g))) =
        calls b @ (pre @ rest)"
      using pre(1) rest(1) by (simp add: e del: encode_variables.simps)
    moreover have "list_all P (pre @ rest)"
      using pre(2) rest(2) by simp
    moreover have "same_tables g (snd (snd (encode_variables cu force off (v # vars) b g)))"
      using st by (simp add: e del: encode_variables.simps)
    ultimately show ?thesis by blast
  qed
qed

lemma encode_variables_calls:
  "\<exists>rest. calls (fst (snd (encode_variables cu force off vars b g))) = calls b @ rest \<and>
          list_all (\<lambda>c. \<not> is_base_type_call c) rest"
proof -
  have "\<exists>rest. calls (fst (snd (encode_variables cu force off vars b g))) = calls b @ rest \<and>
          list_all (\<lambda>c. \<not> is_base_type_call c) rest \<and>
          same_tables g (snd (snd (encode_variables cu force off vars b g)))"
    by (rule encode_variables_calls_gen [where P = "\<lambda>c. \<not> is_base_type_call c"]) simp_all
  then show ?thesis
    by (elim exE conjE, intro exI conjI)
qed

lemma encode_cu_passes_calls:
  assumes ty: "encode_types cu (btf__get_nr_types b) (types_table cu) b
       (prepare_index_type cu (btf__get_nr_types b)
          (g\<lparr>btf_elf__verbose := verbose, btf_elf__force := force\<rparr>)) = (0, b2, g2)"
  shows "\<exists>rest. calls (fst (snd (encode_cu_passes cu verbose force skip b g))) =
           calls (fst (encode_index_type b2 g2)) @ rest \<and>
           list_all (\<lambda>c. \<not> is_base_type_call c) rest"
proof -
  let ?off = "btf__get_nr_types b"
  obtain b3 g3 where ix: "encode_index_type b2 g2 = (b3, g3)"
    by (cases "encode_index_type b2 g2")
  obtain err4 b4 g4 where fn: "encode_functions cu ?off (cu_functions cu) b3 g3 = (err4, b4, g4)"
    by (metis prod_cases3)
  obtain r1 where r1: "calls b4 = calls b3 @ r1" "list_all (\<lambda>c. \<not> is_base_type_call c) r1"
    using encode_functions_calls [of cu ?off "cu_functions cu" b3 g3] fn by auto
  obtain r2 where r2:
    "calls (fst (snd (encode_variables cu force ?off (cu_variables cu) b4 g4))) = calls b4 @ r2"
    "list_all (\<lambda>c. \<not> is_base_type_call c) r2"
    using encode_variables_calls [of cu force ?off "cu_variables cu" b4 g4] by blast
  have "fst (snd (encode_cu_passes cu verbose force skip b g)) = b4 \<or>
        fst (snd (encode_cu_passes cu verbose force skip b g)) =
          fst (snd (encode_variables cu force ?off (cu_variables cu) b4 g4))"
    by (simp add: encode_cu_passes_def Let_def ty ix fn)
  then show ?thesis
  proof
    assume "fst (snd (encode_cu_passes cu verbose force skip b g)) = b4"
    with r1 ix show ?thesis by simp
  next
    assume "fst (snd (encode_cu_passes cu verbose force skip b g)) =
          fst (snd (encode_variables cu force ?off (cu_variables cu) b4 g4))"
    with r1 r2 ix have "calls (fst (snd (encode_cu_passes cu verbose force skip b g))) =
           calls (fst (encode_index_type b2 g2)) @ (r1 @ r2) \<and>
           list_all (\<lambda>c. \<not> is_base_type_call c) (r1 @ r2)"
      by simp
    then show ?thesis by blast
  qed
qed

lemma encode_array_fresh:
  "tag__encode_btf cu_array tag_array_4_3 1 btfe_fresh idx 0 g =
     (1, btfe_fresh\<lparr>calls := [Add_array 0 idx 12]\<rparr>, g\<lparr>need_index_type := True\<rparr>)"
  by (simp add: tag__encode_btf_def tag_array_4_3_def tag_zero_def writer_call_def
      btfe_fresh_def seq_answer_def seq_nr_types_def Let_def array_type__nelems_eq)

lemma cu_array_fields:
  "types_table cu_array = [(1, tag_array_4_3)]" "types_nr_entries cu_array = 2"
  "cu_functions cu_array = []" "cu_variables cu_array = []"
  "find_int cu_array = None" "cu_filename cu_array = ''a.o''"
  by (simp_all add: cu_array_def cu_empty_def)

lemma cu_int_array_fields:
  "types_table cu_int_array = [(1, tag_int), (2, tag_array_4_3\<lparr>tag_type := 1\<rparr>)]"
  "cu_functions cu_int_array = []" "cu_variables cu_int_array = []"
  "find_int cu_int_array = Some 1" "cu_filename cu_int_array = ''a.o''"
  by (simp_all add: cu_int_array_def cu_empty_def)

lemma encode_int_fresh2:
  "tag__encode_btf cu_int_array tag_int 1 btfe_fresh idx 0 g =
     (1, btfe_fresh\<lparr>calls := [Add_base_type (tag_base tag_int) (Some ''int'')]\<rparr>, g)"
  by (simp add: tag__encode_btf_def tag_int_def tag_zero_def writer_call_def btfe_fresh_def
      seq_answer_def seq_nr_types_def strings__ptr_def cu_int_array_def cu_empty_def Let_def)

lemma encode_array_after_int:
  "tag__encode_btf cu_int_array (tag_array_4_3\<lparr>tag_type := 1\<rparr>) 2
     (btfe_fresh\<lparr>calls := [Add_base_type (tag_base tag_int) (Some ''int'')]\<rparr>) idx 0 g =
     (2, btfe_fresh\<lparr>calls := [Add_base_type (tag_base tag_int) (Some ''int''),
                               Add_array 1 idx 12]\<rparr>, g\<lparr>need_index_type := True\<rparr>)"
  by (simp add: tag__encode_btf_def tag_array_4_3_def tag_zero_def writer_call_def
      btfe_fresh_def seq_answer_def seq_nr_types_def Let_def array_type__nelems_eq)

subsection \<open>Lemmas: a run with a writer that refuses\<close>

lemma nr_types_reject: "btf__get_nr_types btfe_reject = 0"
  by (simp add: btf__get_nr_types_def btfe_reject_def btfe_fresh_def seq_nr_types_def)

lemma begin_reject:
  "encode_cu_begin env_seq cu_array False globals_reject = Inr (btfe_reject, globals_reject)"
  by (simp add: encode_cu_begin_def encode_cu_open_def globals_reject_def globals_init_def
      btfe_reject_def btfe_fresh_def cu_array_def cu_empty_def)

lemma encode_array_reject:
  "tag__encode_btf cu_array tag_array_4_3 1 btfe_reject idx 0 g =
     (1, btfe_reject\<lparr>calls := [Add_array 0 idx 12]\<rparr>, g\<lparr>need_index_type := True\<rparr>)"
  by (simp add: tag__encode_btf_def tag_array_4_3_def tag_zero_def writer_call_def
      btfe_reject_def btfe_fresh_def reject_answer_def seq_answer_def seq_nr_types_def Let_def
      array_type__nelems_eq)

lemma passes_reject:
  "encode_cu_passes cu_array False False False btfe_reject globals_reject =
     (0, btfe_reject\<lparr>calls := [Add_array 0 2 12,
            Add_base_type synthetic_index_type (Some ''__ARRAY_SIZE_TYPE__'')]\<rparr>,
      globals_reject\<lparr>array_index_id := 2, need_index_type := True, has_index_type := True\<rparr>)"
proof -
  let ?g = "globals_reject\<lparr>btf_elf__verbose := False, btf_elf__force := False\<rparr>"
  have g: "?g = globals_reject"
    by (simp add: globals_reject_def globals_init_def)
  have p1: "prepare_index_type cu_array 0 globals_reject =
      globals_reject\<lparr>has_index_type := False, array_index_id := 2\<rparr>"
    by (simp add: prepare_index_type_def cu_array_fields globals_reject_def globals_init_def)
  have ty: "encode_types cu_array 0 [(1, tag_array_4_3)] btfe_reject
       (globals_reject\<lparr>has_index_type := False, array_index_id := 2\<rparr>) =
       (0, btfe_reject\<lparr>calls := [Add_array 0 2 12]\<rparr>,
        globals_reject\<lparr>has_index_type := False, array_index_id := 2, need_index_type := True\<rparr>)"
    by (simp add: encode_array_reject tag__check_id_drift_def)
  have sh: "percpu_shndx btfe_reject = 0"
    by (simp add: btfe_reject_def btfe_fresh_def)
  show ?thesis
    by (simp add: encode_cu_passes_def Let_def g nr_types_reject p1 ty cu_array_fields
        encode_index_type_def writer_call_def sh del: encode_types.simps)
qed

subsection \<open>Lemmas: FUNC entries and the generated flag\<close>

lemma func_names_append: "func_names (xs @ ys) = func_names xs @ func_names ys"
  by (induction xs rule: func_names.induct) simp_all

lemma func_names_snoc_other:
  "func_names [c] = [] \<Longrightarrow> func_names (xs @ [c]) = func_names xs"
  by (simp add: func_names_append)

lemma add_members_func_names:
  "func_names (calls (snd (add_members b cu off tid ms))) = func_names (calls b)"
proof (induction ms arbitrary: b)
  case Nil
  show ?case by simp
next
  case (Cons m ms)
  have "func_names (calls (snd (add_members (b\<lparr>calls := cs\<rparr>) cu off tid ms))) =
        func_names cs" for cs
    using Cons.IH [of "b\<lparr>calls := cs\<rparr>"] by simp
  then show ?case
    by (simp add: writer_call_def func_names_append)
qed

lemma add_enum_vals_func_names:
  "func_names (calls (snd (add_enum_vals b cu tid es))) = func_names (calls b)"
proof (induction es arbitrary: b)
  case Nil
  show ?case by simp
next
  case (Cons e es)
  have "func_names (calls (snd (add_enum_vals (b\<lparr>calls := cs\<rparr>) cu tid es))) =
        func_names cs" for cs
    using Cons.IH [of "b\<lparr>calls := cs\<rparr>"] by simp
  then show ?case
    by (simp add: writer_call_def func_names_append)
qed

lemma structure_type__encode_func_names:
  "func_names (calls (snd (structure_type__encode b cu tg off))) = func_names (calls b)"
proof -
  have "func_names (calls (snd (add_members (b\<lparr>calls := cs\<rparr>) cu off tid ms))) =
        func_names cs" for cs tid ms
    using add_members_func_names [of "b\<lparr>calls := cs\<rparr>"] by simp
  then show ?thesis
    by (simp add: structure_type__encode_def writer_call_def Let_def func_names_append)
qed

lemma enumeration_type__encode_func_names:
  "func_names (calls (snd (enumeration_type__encode b cu tg))) = func_names (calls b)"
proof -
  have "func_names (calls (snd (add_enum_vals (b\<lparr>calls := cs\<rparr>) cu tid es))) =
        func_names cs" for cs tid es
    using add_enum_vals_func_names [of "b\<lparr>calls := cs\<rparr>"] by simp
  then show ?thesis
    by (simp add: enumeration_type__encode_def writer_call_def func_names_append)
qed

lemma tag__encode_btf_func_names:
  "func_names (calls (fst (snd (tag__encode_btf cu tg core_id b idx off g)))) =
     func_names (calls b)"
  using structure_type__encode_func_names [of b cu tg off]
    enumeration_type__encode_func_names [of b cu tg]
  by (cases "tag_tag tg")
    (simp_all add: tag__encode_btf_def Let_def writer_call_def case_prod_beta func_names_append)

lemma encode_types_func_names:
  "func_names (calls (fst (snd (encode_types cu off tys b g)))) = func_names (calls b)"
proof (induction tys arbitrary: b g)
  case Nil
  show ?case by simp
next
  case (Cons ct tys)
  obtain core_id pos where ct: "ct = (core_id, pos)"
    by (cases ct)
  obtain r b1 g1 where enc:
    "tag__encode_btf cu pos core_id b (array_index_id g) off g = (r, b1, g1)"
    by (metis prod_cases3)
  have b1: "func_names (calls b1) = func_names (calls b)"
    using tag__encode_btf_func_names [of cu pos core_id b "array_index_id g" off g] enc by simp
  obtain d g2 where dr: "tag__check_id_drift pos core_id r off g1 = (d, g2)"
    by (cases "tag__check_id_drift pos core_id r off g1")
  show ?case
    using Cons.IH [of b1 g2] b1 by (simp add: ct enc dr)
qed

lemma encode_index_type_func_names:
  "func_names (calls (fst (encode_index_type b g))) = func_names (calls b)"
  by (simp add: encode_index_type_def writer_call_def func_names_append)

lemma func_names_no_func:
  "list_all (\<lambda>c. func_names [c] = []) cs \<Longrightarrow> func_names cs = []"
proof (induction cs)
  case Nil
  show ?case by simp
next
  case (Cons c cs)
  then show ?case
    using func_names_append [of "[c]" cs] by simp
qed

lemma encode_variables_func_names:
  "func_names (calls (fst (snd (encode_variables cu force off vars b g)))) = func_names (calls b)"
proof -
  have "\<exists>rest. calls (fst (snd (encode_variables cu force off vars b g))) = calls b @ rest \<and>
          list_all (\<lambda>c. func_names [c] = []) rest \<and>
          same_tables g (snd (snd (encode_variables cu force off vars b g)))"
    by (rule encode_variables_calls_gen [where P = "\<lambda>c. func_names [c] = []"]) simp_all
  then obtain rest where rest:
    "calls (fst (snd (encode_variables cu force off vars b g))) = calls b @ rest"
    "list_all (\<lambda>c. func_names [c] = []) rest"
    by (elim exE conjE)
  show ?thesis
    using func_names_no_func [OF rest(2)] by (simp add: rest(1) func_names_append)
qed

lemma encode_variables_tables:
  "same_tables g (snd (snd (encode_variables cu force off vars b g)))"
proof -
  have "\<exists>rest. calls (fst (snd (encode_variables cu force off vars b g))) = calls b @ rest \<and>
          list_all (\<lambda>c. True) rest \<and>
          same_tables g (snd (snd (encode_variables cu force off vars b g)))"
    by (rule encode_variables_calls_gen [where P = "\<lambda>c. True"]) simp_all
  then show ?thesis
    by (elim exE conjE)
qed

lemma bsearch_loop_cong:
  "(\<And>i. i < u \<Longrightarrow> compar key (xs ! i) = compar key (ys ! i)) \<Longrightarrow>
   bsearch_loop compar key xs l u = bsearch_loop compar key ys l u"
proof (induction compar key xs l u rule: bsearch_loop.induct)
  case (1 compar key base l u)
  show ?case
  proof (cases "l < u")
    case False
    then show ?thesis
      by (simp add: bsearch_loop.simps [of _ _ _ l u])
  next
    case True
    let ?m = "(l + u) div 2"
    have m: "?m < u" using True by auto
    have c: "compar key (base ! ?m) = compar key (ys ! ?m)"
      using "1.prems" m by blast
    have lo: "bsearch_loop compar key base l ?m = bsearch_loop compar key ys l ?m"
      if "compar key (base ! ?m) < 0"
      using "1.IH"(1) [OF True that] "1.prems" m by simp
    have hi: "bsearch_loop compar key base (?m + 1) u = bsearch_loop compar key ys (?m + 1) u"
      if "\<not> compar key (base ! ?m) < 0" "compar key (base ! ?m) > 0"
      using "1.IH"(2) [OF True that] "1.prems" by simp
    show ?thesis
      using True c lo hi
      by (subst (1 2) bsearch_loop.simps) auto
  qed
qed

lemma fn_name_flag_update:
  "fn_name (xs[p := (xs ! p)\<lparr>generated := True\<rparr>] ! i) = fn_name (xs ! i)"
  by (cases "p < length xs") (simp_all add: nth_list_update list_update_beyond)

lemma bsearch_flag_update:
  "bsearch key (xs[p := (xs ! p)\<lparr>generated := True\<rparr>]) n functions_cmp =
   bsearch key xs n functions_cmp"
  unfolding bsearch_def
  by (rule bsearch_loop_cong) (simp add: functions_cmp_def fn_name_flag_update)

lemma bsearch_bounds: "bsearch key xs n compar = Some p \<Longrightarrow> p < n"
  using bsearch_loop_bounds [of compar key xs 0 n p] by (simp add: bsearch_def)

lemma should_generate_function_True:
  assumes r: "should_generate_function k g = (True, g1)"
    and wf: "functions_cnt g \<le> length (functions g)"
  shows "\<not> flagged g k" and "flagged g1 k" and "flagged g k' \<Longrightarrow> flagged g1 k'"
    and "functions_cnt g1 = functions_cnt g" and "length (functions g1) = length (functions g)"
proof -
  let ?key = "\<lparr>fn_name = k, fn_addr = 0, generated = False\<rparr>"
  from r obtain p where p: "bsearch ?key (functions g) (functions_cnt g) functions_cmp = Some p"
    and ng: "\<not> generated (functions g ! p)"
    and g1: "g1 = g\<lparr>functions := (functions g)[p := (functions g ! p)\<lparr>generated := True\<rparr>]\<rparr>"
    by (auto simp: should_generate_function_def split: option.splits if_splits)
  have pl: "p < length (functions g)"
    using bsearch_bounds [OF p] wf by simp
  show "\<not> flagged g k"
    using p ng by (simp add: flagged_def)
  show "flagged g1 k"
    using p pl by (simp add: flagged_def g1 bsearch_flag_update)
  show "functions_cnt g1 = functions_cnt g" and "length (functions g1) = length (functions g)"
    by (simp_all add: g1)
  assume "flagged g k'"
  then obtain q where
    q: "bsearch \<lparr>fn_name = k', fn_addr = 0, generated = False\<rparr> (functions g) (functions_cnt g)
          functions_cmp = Some q" and gq: "generated (functions g ! q)"
    by (auto simp: flagged_def split: option.splits)
  have "generated ((functions g)[p := (functions g ! p)\<lparr>generated := True\<rparr>] ! q)"
    using gq pl by (simp add: nth_list_update)
  then show "flagged g1 k'"
    using q by (simp add: flagged_def g1 bsearch_flag_update)
qed

lemma should_generate_function_False:
  "should_generate_function k g = (False, g1) \<Longrightarrow> g1 = g"
  by (auto simp: should_generate_function_def split: option.splits if_splits)

lemma function__name_key: "function__name fn cu = name_key (strings__ptr cu (func_name fn))"
  by (simp add: function__name_def name_key_def)

lemma function_selected_kernel:
  assumes "function_selected cu fn g = (sel, g1)" and "functions_cnt g \<noteq> 0"
  shows "\<not> sel \<Longrightarrow> g1 = g"
    and "sel \<Longrightarrow> should_generate_function (function__name fn cu) g = (True, g1)"
  using assms
  by (auto simp: function_selected_def split: if_splits dest: should_generate_function_False)

lemma emitted_once_standalone:
  "functions_cnt g = 0 \<Longrightarrow> emitted_once b g"
  by (simp add: emitted_once_def)

lemma flagged_cong:
  "functions g' = functions g \<Longrightarrow> functions_cnt g' = functions_cnt g \<Longrightarrow>
   flagged g' k = flagged g k"
  by (simp add: flagged_def split: option.splits)

lemma emitted_once_cong:
  "emitted_once b g \<Longrightarrow> func_names (calls b') = func_names (calls b) \<Longrightarrow>
   functions g' = functions g \<Longrightarrow> functions_cnt g' = functions_cnt g \<Longrightarrow> emitted_once b' g'"
  using flagged_cong [of g' g] by (simp add: emitted_once_def)

lemma emitted_once_add:
  assumes inv: "emitted_once b g" and k: "functions_cnt g \<noteq> 0"
    and sg: "should_generate_function (name_key n) g = (True, g1)"
    and fn: "func_names (calls b2) = func_names (calls b) @ [n]"
  shows "emitted_once b2 g1"
proof -
  have wf: "functions_cnt g \<le> length (functions g)"
    using inv by (simp add: emitted_once_def)
  note f = should_generate_function_True [OF sg wf]
  have d: "distinct (map name_key (func_names (calls b)))"
    and fl: "\<forall>m\<in>set (func_names (calls b)). flagged g (name_key m)"
    using inv k by (simp_all add: emitted_once_def)
  have new: "name_key n \<notin> set (map name_key (func_names (calls b)))"
    using fl f(1) by auto
  have fl1: "\<forall>m\<in>set (func_names (calls b)). flagged g1 (name_key m)"
    using fl f(3) by blast
  show ?thesis
    using d new fl1 f(2) f(4) f(5) wf by (simp add: emitted_once_def fn)
qed

lemma encode_functions_once:
  "emitted_once b g \<Longrightarrow>
   emitted_once (fst (snd (encode_functions cu off fns b g)))
     (snd (snd (encode_functions cu off fns b g)))"
proof (induction fns arbitrary: b g)
  case Nil
  then show ?case by simp
next
  case (Cons fn fns)
  obtain sel g1 where sel: "function_selected cu fn g = (sel, g1)"
    by (cases "function_selected cu fn g")
  let ?c1 = "Add_func_proto cu (proto fn) off"
  let ?n = "strings__ptr cu (func_name fn)"
  let ?c2 = "Add_ref_type BTF_KIND_FUNC (answer b (calls b) ?c1) ?n False"
  let ?b2 = "b\<lparr>calls := calls b @ [?c1, ?c2]\<rparr>"
  have step: "encode_functions cu off (fn # fns) b g =
      (if \<not> sel then encode_functions cu off fns b g1
       else if is_neg (answer b (calls b) ?c1) \<or> is_neg (answer b (calls b @ [?c1]) ?c2)
         then (-1, ?b2, g1)
       else encode_functions cu off fns ?b2 g1)"
    using sel by (simp add: writer_call_def)
  have fn2: "func_names (calls ?b2) = func_names (calls b) @ [?n]"
    by (simp add: func_names_append)
  have inv1: "emitted_once b g1" if "\<not> sel"
  proof (cases "functions_cnt g = 0")
    case True
    then have "g1 = g"
      using sel by (auto simp: function_selected_def split: if_splits)
    with Cons.prems show ?thesis by simp
  next
    case False
    with function_selected_kernel(1) [OF sel False that] Cons.prems show ?thesis by simp
  qed
  have inv2: "emitted_once ?b2 g1" if "sel"
  proof (cases "functions_cnt g = 0")
    case True
    then have "g1 = g"
      using sel by (auto simp: function_selected_def split: if_splits)
    with True show ?thesis
      by (simp add: emitted_once_standalone)
  next
    case False
    have sg: "should_generate_function (name_key ?n) g = (True, g1)"
      using function_selected_kernel(2) [OF sel False that]
      by (simp add: function__name_key)
    show ?thesis
      by (rule emitted_once_add [OF Cons.prems False sg fn2])
  qed
  show ?case
  proof (cases sel)
    case False
    then show ?thesis
      using Cons.IH [OF inv1 [OF False]] by (simp add: step del: encode_functions.simps)
  next
    case True
    show ?thesis
    proof (cases "is_neg (answer b (calls b) ?c1) \<or> is_neg (answer b (calls b @ [?c1]) ?c2)")
      case neg: True
      then show ?thesis
        using inv2 [OF True] True by (simp add: step del: encode_functions.simps)
    next
      case False
      then show ?thesis
        using Cons.IH [OF inv2 [OF True]] True by (simp add: step del: encode_functions.simps)
    qed
  qed
qed

lemma encode_cu_passes_once:
  assumes inv: "emitted_once b g"
  shows "emitted_once (fst (snd (encode_cu_passes cu verbose force skip b g)))
           (snd (snd (encode_cu_passes cu verbose force skip b g)))"
proof -
  let ?off = "btf__get_nr_types b"
  let ?g = "g\<lparr>btf_elf__verbose := verbose, btf_elf__force := force\<rparr>"
  let ?g1 = "prepare_index_type cu ?off ?g"
  obtain err b2 g2 where ty: "encode_types cu ?off (types_table cu) b ?g1 = (err, b2, g2)"
    by (metis prod_cases3)
  obtain b3 g3 where ix: "encode_index_type b2 g2 = (b3, g3)"
    by (cases "encode_index_type b2 g2")
  obtain err4 b4 g4 where fn: "encode_functions cu ?off (cu_functions cu) b3 g3 = (err4, b4, g4)"
    by (metis prod_cases3)
  obtain err5 b5 g5 where va:
    "encode_variables cu force ?off (cu_variables cu) b4 g4 = (err5, b5, g5)"
    by (metis prod_cases3)
  have i1: "emitted_once b ?g1"
    by (rule emitted_once_cong [OF inv]) (simp_all add: prepare_index_type_def split: option.splits)
  have t: "same_tables ?g1 g2" "func_names (calls b2) = func_names (calls b)"
    using encode_types_frame [of b cu ?off "types_table cu" ?g1]
      encode_types_func_names [of cu ?off "types_table cu" b ?g1] ty by simp_all
  have i2: "emitted_once b2 g2"
    using t by (intro emitted_once_cong [OF i1]) (simp_all add: same_tables_def)
  have x: "func_names (calls b3) = func_names (calls b2)" "functions g3 = functions g2"
    "functions_cnt g3 = functions_cnt g2"
    using encode_index_type_func_names [of b2 g2] ix
    by (auto simp: encode_index_type_def split: if_splits)
  have i3: "emitted_once b3 g3"
    by (rule emitted_once_cong [OF i2 x])
  have i4: "emitted_once b4 g4"
    using encode_functions_once [OF i3, of cu ?off "cu_functions cu"] fn by simp
  have v: "same_tables g4 g5" "func_names (calls b5) = func_names (calls b4)"
    using encode_variables_tables [of g4 cu force ?off "cu_variables cu" b4]
      encode_variables_func_names [of cu force ?off "cu_variables cu" b4 g4] va by simp_all
  have i5: "emitted_once b5 g5"
    using v by (intro emitted_once_cong [OF i4]) (simp_all add: same_tables_def)
  have "snd (encode_cu_passes cu verbose force skip b g) = (b2, g2) \<or>
        snd (encode_cu_passes cu verbose force skip b g) = (b4, g4) \<or>
        snd (encode_cu_passes cu verbose force skip b g) = (b5, g5)"
    by (simp add: encode_cu_passes_def Let_def ty ix fn va)
  then show ?thesis
    using i2 i4 i5 by auto
qed

lemma length_array_store:
  "i \<le> length xs \<Longrightarrow> Suc i \<le> length (array_store xs i v)"
  by (simp add: array_store_def)

lemma collect_function_cells:
  "functions_cnt g \<le> length (functions g) \<Longrightarrow>
   functions_cnt (snd (collect_function e s g)) \<le> length (functions (snd (collect_function e s g)))"
  by (simp add: collect_function_def Let_def length_array_store)

lemma collect_percpu_var_functions:
  "functions (snd (collect_percpu_var b s g)) = functions g \<and>
   functions_cnt (snd (collect_percpu_var b s g)) = functions_cnt g"
  by (simp add: collect_percpu_var_def dump_invalid_symbol_def report_def)

lemma collect_symbols_loop_cells:
  "functions_cnt g \<le> length (functions g) \<Longrightarrow>
   functions_cnt (snd (snd (collect_symbols_loop e b pc syms fl g)))
     \<le> length (functions (snd (snd (collect_symbols_loop e b pc syms fl g))))"
proof (induction syms arbitrary: fl g)
  case Nil
  then show ?case by simp
next
  case (Cons s syms)
  let ?g1 = "snd (if pc then collect_percpu_var b s g else (0, g))"
  let ?g2 = "snd (collect_function e s ?g1)"
  have g1: "functions_cnt ?g1 \<le> length (functions ?g1)"
    using Cons.prems collect_percpu_var_functions [of b s g] by simp
  have g2: "functions_cnt ?g2 \<le> length (functions ?g2)"
    using g1 by (rule collect_function_cells)
  have "snd (snd (collect_symbols_loop e b pc (s # syms) fl g)) = ?g1 \<or>
        snd (snd (collect_symbols_loop e b pc (s # syms) fl g)) = ?g2 \<or>
        snd (snd (collect_symbols_loop e b pc (s # syms) fl g)) =
          snd (snd (collect_symbols_loop e b pc syms (collect_symbol s fl) ?g2))"
    by (simp add: case_prod_beta)
  then show ?case
    using g1 g2 Cons.IH [OF g2] by metis
qed

lemma filter_functions_cells:
  assumes "functions_cnt g \<le> length (functions g)"
  shows "functions_cnt (snd (filter_functions e b fl g))
           \<le> length (functions (snd (filter_functions e b fl g)))"
proof (cases "fst (filter_functions e b fl g) = 0")
  case False
  then have "snd (filter_functions e b fl g) = report (Section_header_failed (mcount_sec_idx fl)) g \<or>
    snd (filter_functions e b fl g) = report (Section_data_failed (mcount_sec_idx fl)) g \<or>
    snd (filter_functions e b fl g) = report Ftrace_alloc_failed g"
    by (auto simp: filter_functions_def Let_def case_prod_beta split: option.splits if_splits)
  then show ?thesis
    using assms by (auto simp: report_def)
next
  case True
  then obtain addrs count where
    r: "snd (filter_functions e b fl g) =
          g\<lparr>functions := fst (filter_functions_loop fl addrs count (functions_cnt g) 0 (functions g) 0),
            functions_cnt := snd (filter_functions_loop fl addrs count (functions_cnt g) 0 (functions g) 0)\<rparr>"
    by (auto simp: filter_functions_def Let_def case_prod_beta split: option.splits if_splits)
  obtain fs v where l: "filter_functions_loop fl addrs count (functions_cnt g) 0 (functions g) 0 = (fs, v)"
    by (metis surj_pair)
  have "length fs = length (functions g) \<and> v \<le> functions_cnt g"
    using filter_functions_loop_inv [OF _ _ assms l] by simp
  then show ?thesis
    using assms by (simp add: r l)
qed

lemma collect_symbols_cells:
  assumes "functions_cnt g \<le> length (functions g)"
  shows "functions_cnt (snd (collect_symbols e b pc g))
           \<le> length (functions (snd (collect_symbols e b pc g)))"
proof -
  let ?syms = "case symtab b of None \<Rightarrow> [] | Some syms \<Rightarrow> syms"
  obtain r fl g1 where lp:
    "collect_symbols_loop e b pc ?syms funcs_layout_zero (g\<lparr>percpu_var_cnt := 0\<rparr>) = (r, fl, g1)"
    by (metis prod_cases3)
  have g1: "functions_cnt g1 \<le> length (functions g1)"
    using collect_symbols_loop_cells [of "g\<lparr>percpu_var_cnt := 0\<rparr>" e b pc ?syms funcs_layout_zero]
      assms lp by simp
  let ?g2 = "if pc \<and> percpu_var_cnt g1 \<noteq> 0
             then g1\<lparr>percpu_vars := qsort (take (percpu_var_cnt g1) (percpu_vars g1)) percpu_var_cmp
                                     @ drop (percpu_var_cnt g1) (percpu_vars g1)\<rparr>
             else g1"
  have g2: "functions_cnt ?g2 \<le> length (functions ?g2)"
    using g1 by simp
  let ?g2s = "?g2\<lparr>functions := qsort (take (functions_cnt ?g2) (functions ?g2)) functions_cmp
                         @ drop (functions_cnt ?g2) (functions ?g2)\<rparr>"
  have g2s: "functions_cnt ?g2s \<le> length (functions ?g2s)"
    using g2 by (simp add: length_qsort)
  have ff: "functions_cnt (snd (filter_functions e b fl ?g2s))
           \<le> length (functions (snd (filter_functions e b fl ?g2s)))"
    using g2s by (rule filter_functions_cells)
  have "snd (collect_symbols e b pc g) = g1 \<or>
        snd (collect_symbols e b pc g) = delete_functions ?g2 \<or>
        snd (collect_symbols e b pc g) = snd (filter_functions e b fl ?g2s) \<or>
        snd (collect_symbols e b pc g) = report Filter_failed (snd (filter_functions e b fl ?g2s))"
    unfolding collect_symbols_def lp Let_def
    by (simp add: case_prod_beta)
  then show ?thesis
    using g1 ff by (auto simp: delete_functions_def report_def)
qed

lemma kernel_inv_cells: "kernel_inv g \<Longrightarrow> functions_cnt g \<le> length (functions g)"
  by (cases "btfe g") (simp_all add: kernel_inv_def emitted_once_def)

lemma kernel_inv_finalized: "kernel_inv ((delete_functions g)\<lparr>btfe := None\<rparr>)"
  by (simp add: kernel_inv_def delete_functions_def)

lemma kernel_inv_encode_out:
  assumes "emitted_once b g"
  shows "kernel_inv (snd (encode_out err (Some b) g))"
proof (cases "err = 0")
  case False
  then show ?thesis by (simp add: encode_out_def kernel_inv_finalized)
next
  case True
  have "emitted_once b (g\<lparr>btfe := Some b\<rparr>)"
    by (rule emitted_once_cong [OF assms]) simp_all
  then show ?thesis
    using True by (simp add: encode_out_def kernel_inv_def)
qed

lemma kernel_inv_encode_out_none:
  "err \<noteq> 0 \<Longrightarrow> kernel_inv (snd (encode_out err bo g))"
  by (simp add: encode_out_def kernel_inv_finalized)

lemma btf_elf__new_calls: "btf_elf__new e f el = Some b \<Longrightarrow> calls b = []"
  by (auto simp: btf_elf__new_def split: if_splits)

lemma encode_cu_open_inv:
  assumes inv: "kernel_inv g"
  shows "case encode_cu_open e cu skip g of
           Inl r \<Rightarrow> kernel_inv (snd r)
         | Inr bg \<Rightarrow> emitted_once (fst bg) (snd bg)"
proof (cases "btfe g")
  case (Some b)
  with inv show ?thesis
    by (simp add: encode_cu_open_def kernel_inv_def)
next
  case None
  show ?thesis
  proof (cases "btf_elf__new e (cu_filename cu) (cu_elf cu)")
    case nn: None
    with None inv show ?thesis
      by (simp add: encode_cu_open_def)
  next
    case (Some b)
    obtain err g1 where cs: "collect_symbols e b (\<not> skip) (g\<lparr>btfe := Some b\<rparr>) = (err, g1)"
      by (cases "collect_symbols e b (\<not> skip) (g\<lparr>btfe := Some b\<rparr>)")
    have "functions_cnt (g\<lparr>btfe := Some b\<rparr>) \<le> length (functions (g\<lparr>btfe := Some b\<rparr>))"
      using kernel_inv_cells [OF inv] by simp
    then have g1: "functions_cnt g1 \<le> length (functions g1)"
      using collect_symbols_cells [of "g\<lparr>btfe := Some b\<rparr>" e b "\<not> skip"] cs by simp
    show ?thesis
    proof (cases "err = 0")
      case False
      then show ?thesis
        using None Some cs by (simp add: encode_cu_open_def kernel_inv_encode_out_none)
    next
      case True
      have "emitted_once b (g1\<lparr>has_index_type := False, need_index_type := False,
                                 array_index_id := 0\<rparr>)"
        using g1 btf_elf__new_calls [OF Some] by (simp add: emitted_once_def)
      then show ?thesis
        using None Some cs True by (simp add: encode_cu_open_def)
    qed
  qed
qed

lemma encode_cu_begin_inv:
  assumes inv: "kernel_inv g"
  shows "case encode_cu_begin e cu skip g of
           Inl r \<Rightarrow> kernel_inv (snd r)
         | Inr bg \<Rightarrow> emitted_once (fst bg) (snd bg)"
proof (cases "btfe g")
  case None
  then show ?thesis
    using encode_cu_open_inv [OF inv, of e cu skip] by (simp add: encode_cu_begin_def)
next
  case (Some b)
  show ?thesis
  proof (cases "strcmp (filename b) (cu_filename cu) \<noteq> 0")
    case False
    then show ?thesis
      using Some encode_cu_open_inv [OF inv, of e cu skip] by (simp add: encode_cu_begin_def)
  next
    case True
    obtain err b' g1 where fin: "btf_encoder__encode b g = (err, b', g1)"
      by (metis prod_cases3)
    then have g1: "g1 = (delete_functions g)\<lparr>btfe := None\<rparr>"
      by (auto simp: btf_encoder__encode_def Let_def case_prod_beta)
    have k1: "kernel_inv g1"
      by (simp add: g1 kernel_inv_finalized)
    show ?thesis
    proof (cases "err = 0")
      case False
      then show ?thesis
        using Some True fin by (simp add: encode_cu_begin_def kernel_inv_encode_out_none)
    next
      case e0: True
      then show ?thesis
        using Some True fin encode_cu_open_inv [OF k1, of e cu skip]
        by (simp add: encode_cu_begin_def)
    qed
  qed
qed

lemma cu__encode_btf_inv:
  assumes inv: "kernel_inv g"
  shows "kernel_inv (snd (cu__encode_btf e cu verbose force skip g))"
proof (cases "encode_cu_begin e cu skip g")
  case (Inl r)
  then show ?thesis
    using encode_cu_begin_inv [OF inv, of e cu skip] by (simp add: cu__encode_btf_def)
next
  case (Inr bg)
  obtain b g1 where bg: "bg = (b, g1)"
    by (cases bg)
  have "emitted_once b g1"
    using encode_cu_begin_inv [OF inv, of e cu skip] Inr bg by simp
  then have "emitted_once (fst (snd (encode_cu_passes cu verbose force skip b g1)))
           (snd (snd (encode_cu_passes cu verbose force skip b g1)))"
    by (rule encode_cu_passes_once)
  then show ?thesis
    using Inr bg by (simp add: cu__encode_btf_def case_prod_beta kernel_inv_encode_out)
qed

lemma encode_cus_inv: "kernel_inv g \<Longrightarrow> kernel_inv (encode_cus e reqs g)"
proof (induction reqs arbitrary: g)
  case Nil
  then show ?case by simp
next
  case (Cons r reqs)
  obtain cu verbose force skip where r: "r = (cu, verbose, force, skip)"
    by (metis prod_cases4)
  show ?case
    using Cons.IH [OF cu__encode_btf_inv [OF Cons.prems, of e cu verbose force skip]]
    by (simp add: r)
qed

lemma kernel_inv_init: "kernel_inv globals_init"
  by (simp add: kernel_inv_def globals_init_def)

subsection \<open>Lemmas: runs of two units with the same function\<close>

lemma cu_foo_fields:
  "types_table cu_foo = []" "cu_functions cu_foo = [func_foo]" "find_int cu_foo = None"
  "types_nr_entries cu_foo = 1" "cu_filename cu_foo = ''a.o''" "cu_elf cu_foo = elf_empty"
  "strings__ptr cu_foo 1 = Some ''foo''"
  by (simp_all add: cu_foo_def cu_empty_def strings__ptr_def)

lemma func_foo_fields:
  "func_name func_foo = 1" "proto func_foo = ftype_zero" "\<not> func_declaration func_foo"
  "func_external func_foo" "parms ftype_zero = []"
  by (simp_all add: func_foo_def ftype_zero_def)

lemma btfe_fresh_fields:
  "filename btfe_fresh = ''a.o''" "calls btfe_fresh = []" "answer btfe_fresh = seq_answer"
  "nr_types btfe_fresh = seq_nr_types" "symtab btfe_fresh = Some []" "percpu_shndx btfe_fresh = 0"
  by (simp_all add: btfe_fresh_def)

lemma new_fresh: "btf_elf__new env_seq ''a.o'' elf_empty = Some btfe_fresh"
  by (simp add: btf_elf__new_def env_seq_def btfe_fresh_def elf_empty_def)

lemma collect_fresh:
  "collect_symbols env_seq btfe_fresh False (globals_init\<lparr>btfe := Some btfe_fresh\<rparr>) =
     (0, globals_init\<lparr>btfe := Some btfe_fresh\<rparr>)"
  by (simp add: collect_symbols_def btfe_fresh_fields globals_init_def delete_functions_def
      Let_def)

lemma begin_init:
  "encode_cu_begin env_seq cu_foo True globals_init =
     Inr (btfe_fresh, globals_init\<lparr>btfe := Some btfe_fresh\<rparr>)"
proof -
  have "btfe globals_init = None"
    by (simp add: globals_init_def)
  then show ?thesis
    by (simp add: encode_cu_begin_def encode_cu_open_def cu_foo_fields new_fresh collect_fresh)
      (simp add: globals_init_def)
qed


lemma not_neg_ids [simp]: "\<not> is_neg 3" "\<not> is_neg 4"
  by (simp_all add: is_neg_def)

lemma run_foo_first:
  "cu__encode_btf env_seq cu_foo False False True globals_init =
     (0, globals_init\<lparr>array_index_id := 1,
           btfe := Some (btfe_fresh\<lparr>calls :=
             [Add_func_proto cu_foo ftype_zero 0,
              Add_ref_type BTF_KIND_FUNC 1 (Some ''foo'') False]\<rparr>)\<rparr>)"
proof -
  let ?g = "globals_init\<lparr>btfe := Some btfe_fresh\<rparr>"
  have sel: "function_selected cu_foo func_foo g = (True, g)" if "functions_cnt g = 0" for g
    using that by (simp add: function_selected_def func_foo_fields)
  have p: "encode_cu_passes cu_foo False False True btfe_fresh ?g =
     (0, btfe_fresh\<lparr>calls := [Add_func_proto cu_foo ftype_zero 0,
              Add_ref_type BTF_KIND_FUNC 1 (Some ''foo'') False]\<rparr>,
      ?g\<lparr>array_index_id := 1\<rparr>)"
    by (simp add: encode_cu_passes_def Let_def nr_types_fresh prepare_index_type_def
        cu_foo_fields encode_index_type_def sel func_foo_fields writer_call_def
        btfe_fresh_fields seq_answer_def seq_nr_types_def globals_init_def)
  show ?thesis
    by (simp add: cu__encode_btf_passes [OF begin_init] p encode_out_def)
qed

lemma run_foo_second:
  "cu__encode_btf env_seq cu_foo False False True
     (globals_init\<lparr>array_index_id := 1,
        btfe := Some (btfe_fresh\<lparr>calls :=
             [Add_func_proto cu_foo ftype_zero 0,
              Add_ref_type BTF_KIND_FUNC 1 (Some ''foo'') False]\<rparr>)\<rparr>) =
     (0, globals_init\<lparr>array_index_id := 3,
           btfe := Some (btfe_fresh\<lparr>calls :=
             [Add_func_proto cu_foo ftype_zero 0,
              Add_ref_type BTF_KIND_FUNC 1 (Some ''foo'') False,
              Add_func_proto cu_foo ftype_zero 2,
              Add_ref_type BTF_KIND_FUNC 3 (Some ''foo'') False]\<rparr>)\<rparr>)"
proof -
  let ?b = "btfe_fresh\<lparr>calls := [Add_func_proto cu_foo ftype_zero 0,
              Add_ref_type BTF_KIND_FUNC 1 (Some ''foo'') False]\<rparr>"
  let ?g = "globals_init\<lparr>array_index_id := 1, btfe := Some ?b\<rparr>"
  have sel: "function_selected cu_foo func_foo g = (True, g)" if "functions_cnt g = 0" for g
    using that by (simp add: function_selected_def func_foo_fields)
  have bg: "encode_cu_begin env_seq cu_foo True ?g = Inr (?b, ?g)"
    by (simp add: encode_cu_begin_def encode_cu_open_def cu_foo_fields btfe_fresh_fields)
  have nr: "btf__get_nr_types ?b = 2"
    by (simp add: btf__get_nr_types_def btfe_fresh_fields seq_nr_types_def)
  have p: "encode_cu_passes cu_foo False False True ?b ?g =
     (0, btfe_fresh\<lparr>calls := [Add_func_proto cu_foo ftype_zero 0,
              Add_ref_type BTF_KIND_FUNC 1 (Some ''foo'') False,
              Add_func_proto cu_foo ftype_zero 2,
              Add_ref_type BTF_KIND_FUNC 3 (Some ''foo'') False]\<rparr>,
      ?g\<lparr>array_index_id := 3\<rparr>)"
    by (simp add: encode_cu_passes_def Let_def nr prepare_index_type_def
        cu_foo_fields encode_index_type_def sel func_foo_fields writer_call_def
        btfe_fresh_fields seq_answer_def seq_nr_types_def globals_init_def)
  show ?thesis
    by (simp add: cu__encode_btf_passes [OF bg] p encode_out_def)
qed

lemma kernel_inv_example: "kernel_inv globals_kernel"
  by (simp add: kernel_inv_def emitted_once_def globals_kernel_def globals_init_def
      btfe_fresh_fields)

lemma select_foo_first:
  "functions g = [\<lparr>fn_name = ''bar'', fn_addr = 0x1000, generated = False\<rparr>,
                  \<lparr>fn_name = ''foo'', fn_addr = 0x1100, generated = False\<rparr>] \<Longrightarrow>
   functions_cnt g = 2 \<Longrightarrow>
   function_selected cu_foo func_foo g =
     (True, g\<lparr>functions := [\<lparr>fn_name = ''bar'', fn_addr = 0x1000, generated = False\<rparr>,
                              \<lparr>fn_name = ''foo'', fn_addr = 0x1100, generated = True\<rparr>]\<rparr>)"
  by (simp add: function_selected_def has_arg_names_def func_foo_fields
      should_generate_function_def function__name_def cu_foo_fields
      bsearch_def bsearch_loop.simps functions_cmp_def)

lemma select_foo_again:
  "functions g = [\<lparr>fn_name = ''bar'', fn_addr = 0x1000, generated = False\<rparr>,
                  \<lparr>fn_name = ''foo'', fn_addr = 0x1100, generated = True\<rparr>] \<Longrightarrow>
   functions_cnt g = 2 \<Longrightarrow>
   function_selected cu_foo func_foo g = (False, g)"
  by (simp add: function_selected_def has_arg_names_def func_foo_fields
      should_generate_function_def function__name_def cu_foo_fields
      bsearch_def bsearch_loop.simps functions_cmp_def)

lemma run_kernel_first:
  "cu__encode_btf env_seq cu_foo False False True globals_kernel = (0, globals_kernel_after 1)"
proof -
  have bg: "encode_cu_begin env_seq cu_foo True globals_kernel = Inr (btfe_fresh, globals_kernel)"
    by (simp add: encode_cu_begin_def encode_cu_open_def cu_foo_fields btfe_fresh_fields
        globals_kernel_def globals_init_def)
  have p: "encode_cu_passes cu_foo False False True btfe_fresh globals_kernel =
     (0, btfe_fresh\<lparr>calls := [Add_func_proto cu_foo ftype_zero 0,
              Add_ref_type BTF_KIND_FUNC 1 (Some ''foo'') False]\<rparr>,
      (globals_kernel_after 1)\<lparr>btfe := Some btfe_fresh\<rparr>)"
    unfolding globals_kernel_def globals_kernel_after_def globals_init_def
    by (simp add: encode_cu_passes_def Let_def nr_types_fresh prepare_index_type_def
        cu_foo_fields encode_index_type_def func_foo_fields writer_call_def
        btfe_fresh_fields seq_answer_def seq_nr_types_def select_foo_first)
  show ?thesis
    by (simp add: cu__encode_btf_passes [OF bg] p encode_out_def)
      (simp add: globals_kernel_after_def globals_init_def)
qed


lemma run_kernel_second:
  "cu__encode_btf env_seq cu_foo False False True (globals_kernel_after 1) =
     (0, globals_kernel_after 3)"
proof -
  let ?b = "btfe_fresh\<lparr>calls := [Add_func_proto cu_foo ftype_zero 0,
              Add_ref_type BTF_KIND_FUNC 1 (Some ''foo'') False]\<rparr>"
  have bg: "encode_cu_begin env_seq cu_foo True (globals_kernel_after 1) =
      Inr (?b, globals_kernel_after 1)"
    by (simp add: encode_cu_begin_def encode_cu_open_def cu_foo_fields btfe_fresh_fields
        globals_kernel_after_def globals_init_def)
  have nr: "btf__get_nr_types ?b = 2"
    by (simp add: btf__get_nr_types_def btfe_fresh_fields seq_nr_types_def)
  have p: "encode_cu_passes cu_foo False False True ?b (globals_kernel_after 1) =
     (0, ?b, globals_kernel_after 3)"
    unfolding globals_kernel_after_def globals_init_def
    by (simp add: encode_cu_passes_def Let_def nr prepare_index_type_def
        cu_foo_fields encode_index_type_def select_foo_again)
  show ?thesis
    by (simp add: cu__encode_btf_passes [OF bg] p encode_out_def)
      (simp add: globals_kernel_after_def globals_init_def)
qed

subsection \<open>Lemmas: the variable pass, one variable at a time\<close>

lemma encode_variables_Cons_cases:
  obtains (go) b' g' more where
      "\<And>rest. encode_variables cu force off (v # rest) b g =
               encode_variables cu force off rest b' g'"
      "stderr g' = stderr g @ more"
  | (stop) b' g' more where
      "\<And>rest. encode_variables cu force off (v # rest) b g = (-1, b', g')"
      "stderr g' = stderr g @ more"
proof -
  let ?var = "case var_spec v of Some sp \<Rightarrow> sp | None \<Rightarrow> v"
  show ?thesis
  proof (cases "(var_declaration v \<and> var_spec v = None) \<or>
                (var_scope v \<noteq> VSCOPE_GLOBAL \<and> var_spec v = None)")
    case True
    then have "encode_variables cu force off (v # rest) b g =
      encode_variables cu force off rest b g" for rest
      by auto
    then show ?thesis by (rule go [where more = "[]"]) simp
  next
    case ns: False
    show ?thesis
    proof (cases "percpu_var_exists (var_ip_addr v) g")
      case None
      with ns have "encode_variables cu force off (v # rest) b g =
        encode_variables cu force off rest b g" for rest
        by (auto simp: Let_def)
      then show ?thesis by (rule go [where more = "[]"]) simp
    next
      case (Some sn)
      obtain sz name where sn: "sn = (sz, name)"
        by (cases sn)
      show ?thesis
      proof (cases "var_ip_tag_type ?var = 0")
        case True
        show ?thesis
        proof (cases force)
          case True
          with ns Some sn \<open>var_ip_tag_type ?var = 0\<close>
          have "encode_variables cu force off (v # rest) b g =
            encode_variables cu force off rest b (report (Void_type_variable name (cu_name cu)) g)"
            for rest
            by (auto simp: Let_def)
          then show ?thesis
            by (rule go [where more = "[Void_type_variable name (cu_name cu)]"])
              (simp add: report_def)
        next
          case False
          with ns Some sn \<open>var_ip_tag_type ?var = 0\<close>
          have "encode_variables cu force off (v # rest) b g =
                 (-1, b, report (Void_type_variable name (cu_name cu)) g)" for rest
            by (auto simp: Let_def)
          then show ?thesis
            by (rule stop [where more = "[Void_type_variable name (cu_name cu)]"])
              (simp add: report_def)
        qed
      next
        case nv: False
        let ?c1 = "Add_var_type (var_ip_tag_type ?var + off) name
                     (if var_external ?var then BTF_VAR_GLOBAL_ALLOCATED else BTF_VAR_STATIC)"
        let ?id = "answer b (calls b) ?c1"
        let ?b1 = "b\<lparr>calls := calls b @ [?c1]\<rparr>"
        obtain r2 b2 where si: "btf_elf__add_var_secinfo ?b1 ?id
            (ucast (var_ip_addr v - percpu_base_addr ?b1)) sz = (r2, b2)"
          by (cases "btf_elf__add_var_secinfo ?b1 ?id
            (ucast (var_ip_addr v - percpu_base_addr ?b1)) sz")
        have step: "encode_variables cu force off (v # rest) b g =
            (if is_neg ?id then (-1, ?b1, report (Variable_failed name (var_ip_addr v)) g)
             else if is_neg r2 then (-1, b2, report (Secinfo_failed name (var_ip_addr v)) g)
             else encode_variables cu force off rest b2 g)" for rest
          using ns Some sn nv si by (auto simp: Let_def writer_call_def)
        show ?thesis
        proof (cases "is_neg ?id")
          case True
          then have "encode_variables cu force off (v # rest) b g =
                (-1, ?b1, report (Variable_failed name (var_ip_addr v)) g)" for rest
            by (simp add: step del: encode_variables.simps)
          then show ?thesis
            by (rule stop [where more = "[Variable_failed name (var_ip_addr v)]"])
              (simp add: report_def)
        next
          case n1: False
          show ?thesis
          proof (cases "is_neg r2")
            case True
            then have "encode_variables cu force off (v # rest) b g =
                (-1, b2, report (Secinfo_failed name (var_ip_addr v)) g)" for rest
              using n1 by (simp add: step del: encode_variables.simps)
            then show ?thesis
              by (rule stop [where more = "[Secinfo_failed name (var_ip_addr v)]"])
                (simp add: report_def)
          next
            case False
            then have "encode_variables cu force off (v # rest) b g =
               encode_variables cu force off rest b2 g" for rest
              using n1 by (simp add: step del: encode_variables.simps)
            then show ?thesis
              by (rule go [where more = "[]"]) simp
          qed
        qed
      qed
    qed
  qed
qed

lemma encode_variables_status:
  "fst (encode_variables cu force off vars b g) = 0 \<or>
   fst (encode_variables cu force off vars b g) = -1"
proof (induction vars arbitrary: b g)
  case Nil
  show ?case by simp
next
  case (Cons v vars)
  show ?case
  proof (cases rule: encode_variables_Cons_cases [of cu force off v b g])
    case (go b' g' more)
    then show ?thesis
      using Cons.IH [of b' g'] by (simp del: encode_variables.simps)
  next
    case (stop b' g' more)
    then show ?thesis
      by (simp del: encode_variables.simps)
  qed
qed

lemma encode_variables_append:
  "encode_variables cu force off (pre @ rest) b g =
     (if fst (encode_variables cu force off pre b g) \<noteq> 0
      then encode_variables cu force off pre b g
      else encode_variables cu force off rest
             (fst (snd (encode_variables cu force off pre b g)))
             (snd (snd (encode_variables cu force off pre b g))))"
proof (induction pre arbitrary: b g)
  case Nil
  show ?case by simp
next
  case (Cons v pre)
  show ?case
  proof (cases rule: encode_variables_Cons_cases [of cu force off v b g])
    case (go b' g' more)
    have "encode_variables cu force off ((v # pre) @ rest) b g =
          encode_variables cu force off (pre @ rest) b' g'"
      using go(1) [of "pre @ rest"] by (simp del: encode_variables.simps)
    then show ?thesis
      using Cons.IH [of b' g'] go(1) [of pre] by (simp del: encode_variables.simps)
  next
    case (stop b' g' more)
    have "encode_variables cu force off ((v # pre) @ rest) b g = (-1, b', g')"
      using stop(1) [of "pre @ rest"] by (simp del: encode_variables.simps)
    then show ?thesis
      using stop(1) [of pre] by (simp del: encode_variables.simps)
  qed
qed

lemma encode_variables_stderr:
  "\<exists>more. stderr (snd (snd (encode_variables cu force off vars b g))) = stderr g @ more"
proof (induction vars arbitrary: b g)
  case Nil
  show ?case by simp
next
  case (Cons v vars)
  show ?case
  proof (cases rule: encode_variables_Cons_cases [of cu force off v b g])
    case (go b' g' more)
    obtain more' where
      "stderr (snd (snd (encode_variables cu force off vars b' g'))) = stderr g' @ more'"
      using Cons.IH [of b' g'] by blast
    then have "stderr (snd (snd (encode_variables cu force off (v # vars) b g))) =
        stderr g @ (more @ more')"
      using go by (simp del: encode_variables.simps)
    then show ?thesis by blast
  next
    case (stop b' g' more)
    then show ?thesis
      by (simp del: encode_variables.simps)
  qed
qed

lemma encode_cu_passes_vars:
  assumes p: "encode_cu_passes cu verbose force True b g = (0, bv, gv)"
    and sh: "percpu_shndx bv \<noteq> 0" and st: "symtab bv \<noteq> None"
  shows "encode_cu_passes cu verbose force False b g =
           encode_variables cu force (btf__get_nr_types b) (cu_variables cu) bv gv"
proof -
  let ?off = "btf__get_nr_types b"
  let ?g1 = "prepare_index_type cu ?off (g\<lparr>btf_elf__verbose := verbose, btf_elf__force := force\<rparr>)"
  obtain err b2 g2 where ty: "encode_types cu ?off (types_table cu) b ?g1 = (err, b2, g2)"
    by (metis prod_cases3)
  obtain b3 g3 where ix: "encode_index_type b2 g2 = (b3, g3)"
    by (cases "encode_index_type b2 g2")
  obtain err4 b4 g4 where fn: "encode_functions cu ?off (cu_functions cu) b3 g3 = (err4, b4, g4)"
    by (metis prod_cases3)
  have e: "err = 0"
    using p by (auto simp: encode_cu_passes_def Let_def ty ix fn split: if_splits)
  have e4: "err4 = 0 \<and> b4 = bv \<and> g4 = gv"
    using p e by (auto simp: encode_cu_passes_def Let_def ty ix fn split: if_splits)
  show ?thesis
    using e e4 sh st by (auto simp: encode_cu_passes_def Let_def ty ix fn)
qed

lemma stderr_encode_out [simp]: "stderr (snd (encode_out err bo g)) = stderr g"
  by (simp add: encode_out_def delete_functions_def)

lemma percpu_two_lookup:
  assumes "percpu_vars g = [\<lparr>vi_addr = 0x40, vi_sz = 8, vi_name = ''v''\<rparr>,
                            \<lparr>vi_addr = 0x48, vi_sz = 4, vi_name = ''w''\<rparr>]"
    and "percpu_var_cnt g = 2"
  shows "percpu_var_exists 0x40 g = Some (8, ''v'')"
    and "percpu_var_exists 0x48 g = Some (4, ''w'')"
    and "void_percpu_variable g var_void"
  using assms
  by (simp_all add: void_percpu_variable_def var_void_def resolved_def percpu_var_exists_def
      bsearch_def bsearch_loop.simps percpu_var_cmp_def)

lemma cu_void_w_fields:
  "types_table cu_void_w = []" "cu_functions cu_void_w = []" "find_int cu_void_w = None"
  "types_nr_entries cu_void_w = 1" "cu_filename cu_void_w = ''a.o''"
  "cu_name cu_void_w = ''a.c''" "cu_variables cu_void_w = [var_void, var_w]"
  by (simp_all add: cu_void_w_def cu_empty_def)

lemma btfe_percpu_fields:
  "filename btfe_percpu = ''a.o''" "calls btfe_percpu = []" "answer btfe_percpu = seq_answer"
  "nr_types btfe_percpu = seq_nr_types" "symtab btfe_percpu = Some []"
  "percpu_shndx btfe_percpu = 3" "percpu_base_addr btfe_percpu = 0"
  "percpu_secinfo btfe_percpu = []"
  by (simp_all add: btfe_percpu_def btfe_fresh_def)

lemma begin_two:
  "encode_cu_begin env_seq cu_void_w False globals_percpu_two =
     Inr (btfe_percpu, globals_percpu_two)"
  by (simp add: encode_cu_begin_def encode_cu_open_def globals_percpu_two_def globals_init_def
      btfe_percpu_fields cu_void_w_fields)

lemma passes_two:
  "encode_cu_passes cu_void_w False force True btfe_percpu globals_percpu_two =
     (0, btfe_percpu, globals_percpu_two\<lparr>array_index_id := 1, btf_elf__force := force\<rparr>)"
  by (simp add: encode_cu_passes_def Let_def btf__get_nr_types_def btfe_percpu_fields
      seq_nr_types_def cu_void_w_fields prepare_index_type_def encode_index_type_def
      globals_percpu_two_def globals_init_def)

subsection \<open>Lemmas: the function pass in standalone mode\<close>

lemma function_selected_standalone:
  "functions_cnt g = 0 \<Longrightarrow>
   function_selected cu fn g = (\<not> func_declaration fn \<and> func_external fn, g)"
  by (simp add: function_selected_def)

lemma encode_functions_standalone:
  "functions_cnt g = 0 \<Longrightarrow> encode_functions cu off fns b g = (0, b', g') \<Longrightarrow>
   g' = g \<and>
   func_names (calls b') =
     func_names (calls b) @
     map (\<lambda>fn. strings__ptr cu (func_name fn))
       (filter (\<lambda>fn. \<not> func_declaration fn \<and> func_external fn) fns)"
proof (induction fns arbitrary: b)
  case Nil
  then show ?case by simp
next
  case (Cons fn fns)
  let ?c1 = "Add_func_proto cu (proto fn) off"
  let ?n = "strings__ptr cu (func_name fn)"
  let ?c2 = "Add_ref_type BTF_KIND_FUNC (answer b (calls b) ?c1) ?n False"
  let ?b2 = "b\<lparr>calls := calls b @ [?c1, ?c2]\<rparr>"
  have step: "encode_functions cu off (fn # fns) b g =
      (if \<not> (\<not> func_declaration fn \<and> func_external fn) then encode_functions cu off fns b g
       else if is_neg (answer b (calls b) ?c1) \<or> is_neg (answer b (calls b @ [?c1]) ?c2)
         then (-1, ?b2, g)
       else encode_functions cu off fns ?b2 g)"
    using Cons.prems(1) by (simp add: function_selected_standalone writer_call_def)
  show ?case
  proof (cases "\<not> func_declaration fn \<and> func_external fn")
    case False
    then have "encode_functions cu off fns b g = (0, b', g')"
      using Cons.prems(2) by (simp add: step del: encode_functions.simps)
    from Cons.IH [OF Cons.prems(1) this] False show ?thesis by simp
  next
    case True
    then have ok: "\<not> (is_neg (answer b (calls b) ?c1) \<or> is_neg (answer b (calls b @ [?c1]) ?c2))"
      using Cons.prems(2) by (auto simp: step simp del: encode_functions.simps split: if_splits)
    then have "encode_functions cu off fns ?b2 g = (0, b', g')"
      using Cons.prems(2) True by (simp add: step del: encode_functions.simps)
    from Cons.IH [OF Cons.prems(1) this] True show ?thesis
      by (simp add: func_names_append)
  qed
qed

lemma cu__encode_btf_standalone:
  assumes bg: "encode_cu_begin e cu skip g0 = Inr (b1, g1)"
    and k: "functions_cnt g1 = 0"
    and ok: "fst (cu__encode_btf e cu verbose force skip g0) = 0"
  shows "\<exists>b2. btfe (snd (cu__encode_btf e cu verbose force skip g0)) = Some b2 \<and>
           func_names (calls b2) =
             func_names (calls b1) @
             map (\<lambda>fn. strings__ptr cu (func_name fn))
               (filter (\<lambda>fn. \<not> func_declaration fn \<and> func_external fn) (cu_functions cu))"
proof -
  let ?off = "btf__get_nr_types b1"
  let ?g = "g1\<lparr>btf_elf__verbose := verbose, btf_elf__force := force\<rparr>"
  let ?gp = "prepare_index_type cu ?off ?g"
  let ?names = "map (\<lambda>fn. strings__ptr cu (func_name fn))
               (filter (\<lambda>fn. \<not> func_declaration fn \<and> func_external fn) (cu_functions cu))"
  obtain err b2 g2 where ty: "encode_types cu ?off (types_table cu) b1 ?gp = (err, b2, g2)"
    by (metis prod_cases3)
  obtain b3 g3 where ix: "encode_index_type b2 g2 = (b3, g3)"
    by (cases "encode_index_type b2 g2")
  obtain err4 b4 g4 where fn: "encode_functions cu ?off (cu_functions cu) b3 g3 = (err4, b4, g4)"
    by (metis prod_cases3)
  obtain err5 b5 g5 where va:
    "encode_variables cu force ?off (cu_variables cu) b4 g4 = (err5, b5, g5)"
    by (metis prod_cases3)
  note run = cu__encode_btf_passes [OF bg, of verbose force]
  have p0: "fst (encode_cu_passes cu verbose force skip b1 g1) = 0"
    using ok by (simp add: run)
  have e: "err = 0"
    using p0 by (auto simp: encode_cu_passes_def Let_def ty ix fn split: if_splits)
  have e4: "err4 = 0"
    using p0 e by (auto simp: encode_cu_passes_def Let_def ty ix fn split: if_splits)
  have t: "same_tables ?gp g2" "func_names (calls b2) = func_names (calls b1)"
    using encode_types_frame [of b1 cu ?off "types_table cu" ?gp]
      encode_types_func_names [of cu ?off "types_table cu" b1 ?gp] ty by simp_all
  have k2: "functions_cnt g2 = 0"
    using t(1) k by (simp add: same_tables_def prepare_index_type_def split: option.splits)
  have x: "func_names (calls b3) = func_names (calls b2)" "functions_cnt g3 = functions_cnt g2"
    using encode_index_type_func_names [of b2 g2] ix
    by (auto simp: encode_index_type_def split: if_splits)
  have f4: "func_names (calls b4) = func_names (calls b3) @ ?names"
    using encode_functions_standalone [of g3 cu ?off "cu_functions cu" b3 b4 g4] fn e4 x(2) k2
    by simp
  have v: "func_names (calls b5) = func_names (calls b4)"
    using encode_variables_func_names [of cu force ?off "cu_variables cu" b4 g4] va by simp
  have n4: "func_names (calls b4) = func_names (calls b1) @ ?names"
    using f4 x(1) t(2) by simp
  have "encode_cu_passes cu verbose force skip b1 g1 = (0, b4, g4) \<or>
        encode_cu_passes cu verbose force skip b1 g1 = (err5, b5, g5)"
    using e e4 by (simp add: encode_cu_passes_def Let_def ty ix fn va)
  then show ?thesis
  proof
    assume p: "encode_cu_passes cu verbose force skip b1 g1 = (0, b4, g4)"
    show ?thesis
      using n4 by (simp add: run p encode_out_def)
  next
    assume p: "encode_cu_passes cu verbose force skip b1 g1 = (err5, b5, g5)"
    with p0 have "err5 = 0" by simp
    then show ?thesis
      using n4 v by (simp add: run p encode_out_def)
  qed
qed

lemma cu_three_fields:
  "types_table cu_three = []" "cu_functions cu_three = [func_decl, func_foo, func_local]"
  "find_int cu_three = None" "types_nr_entries cu_three = 1" "cu_filename cu_three = ''a.o''"
  "strings__ptr cu_three 1 = Some ''foo''"
  by (simp_all add: cu_three_def cu_empty_def strings__ptr_def)

lemma func_three_fields:
  "func_declaration func_decl" "func_external func_decl"
  "\<not> func_declaration func_local" "\<not> func_external func_local"
  by (simp_all add: func_decl_def func_local_def)

lemma begin_three:
  "encode_cu_begin env_seq cu_three True globals_active = Inr (btfe_fresh, globals_active)"
  by (simp add: encode_cu_begin_def encode_cu_open_def cu_three_fields btfe_fresh_fields
      globals_active_def globals_init_def)

lemma run_three:
  "cu__encode_btf env_seq cu_three False False True globals_active =
     (0, globals_active\<lparr>array_index_id := 1,
           btfe := Some (btfe_fresh\<lparr>calls :=
             [Add_func_proto cu_three ftype_zero 0,
              Add_ref_type BTF_KIND_FUNC 1 (Some ''foo'') False]\<rparr>)\<rparr>)"
proof -
  have p: "encode_cu_passes cu_three False False True btfe_fresh globals_active =
     (0, btfe_fresh\<lparr>calls := [Add_func_proto cu_three ftype_zero 0,
              Add_ref_type BTF_KIND_FUNC 1 (Some ''foo'') False]\<rparr>,
      globals_active\<lparr>array_index_id := 1\<rparr>)"
    by (simp add: encode_cu_passes_def Let_def nr_types_fresh prepare_index_type_def
        cu_three_fields encode_index_type_def function_selected_def func_foo_fields
        func_three_fields writer_call_def btfe_fresh_fields seq_answer_def seq_nr_types_def
        globals_active_def globals_init_def)
  show ?thesis
    by (simp add: cu__encode_btf_passes [OF begin_three] p encode_out_def)
qed

subsection \<open>Lemmas: the per-CPU table across sessions\<close>

lemma collect_percpu_var_cnt:
  "percpu_var_cnt (snd (collect_percpu_var b s g)) \<le> Suc (percpu_var_cnt g)"
  by (simp add: collect_percpu_var_def dump_invalid_symbol_def report_def)

lemma collect_function_percpu:
  "percpu_var_cnt (snd (collect_function e s g)) = percpu_var_cnt g"
  by (simp add: collect_function_def Let_def)

lemma collect_symbols_loop_percpu:
  "percpu_var_cnt (snd (snd (collect_symbols_loop e b pc syms fl g)))
     \<le> percpu_var_cnt g + length syms"
proof (induction syms arbitrary: fl g)
  case Nil
  show ?case by simp
next
  case (Cons s syms)
  let ?g1 = "snd (if pc then collect_percpu_var b s g else (0, g))"
  let ?g2 = "snd (collect_function e s ?g1)"
  have g1: "percpu_var_cnt ?g1 \<le> Suc (percpu_var_cnt g)"
    using collect_percpu_var_cnt [of b s g] by simp
  have g2: "percpu_var_cnt ?g2 \<le> Suc (percpu_var_cnt g)"
    using g1 by (simp add: collect_function_percpu)
  have ih: "percpu_var_cnt (snd (snd (collect_symbols_loop e b pc syms (collect_symbol s fl) ?g2)))
      \<le> percpu_var_cnt g + length (s # syms)"
    using Cons.IH [of "collect_symbol s fl" ?g2] g2 by simp
  have "snd (snd (collect_symbols_loop e b pc (s # syms) fl g)) = ?g1 \<or>
        snd (snd (collect_symbols_loop e b pc (s # syms) fl g)) = ?g2 \<or>
        snd (snd (collect_symbols_loop e b pc (s # syms) fl g)) =
          snd (snd (collect_symbols_loop e b pc syms (collect_symbol s fl) ?g2))"
    by (simp add: case_prod_beta)
  then show ?case
  proof (elim disjE)
    assume "snd (snd (collect_symbols_loop e b pc (s # syms) fl g)) = ?g1"
    then show ?thesis using g1 by simp
  next
    assume "snd (snd (collect_symbols_loop e b pc (s # syms) fl g)) = ?g2"
    then show ?thesis using g2 by simp
  next
    assume "snd (snd (collect_symbols_loop e b pc (s # syms) fl g)) =
          snd (snd (collect_symbols_loop e b pc syms (collect_symbol s fl) ?g2))"
    then show ?thesis using ih by simp
  qed
qed

lemma filter_functions_percpu:
  "percpu_var_cnt (snd (filter_functions e b fl g)) = percpu_var_cnt g"
  by (simp add: filter_functions_def Let_def report_def case_prod_beta split: option.splits)

lemma collect_symbols_percpu:
  "percpu_var_cnt (snd (collect_symbols e b pc g))
     \<le> length (case symtab b of None \<Rightarrow> [] | Some syms \<Rightarrow> syms)"
proof -
  let ?syms = "case symtab b of None \<Rightarrow> [] | Some syms \<Rightarrow> syms"
  obtain r fl g1 where lp:
    "collect_symbols_loop e b pc ?syms funcs_layout_zero (g\<lparr>percpu_var_cnt := 0\<rparr>) = (r, fl, g1)"
    by (metis prod_cases3)
  have g1: "percpu_var_cnt g1 \<le> length ?syms"
    using collect_symbols_loop_percpu [of e b pc ?syms funcs_layout_zero "g\<lparr>percpu_var_cnt := 0\<rparr>"]
      lp by simp
  let ?g2 = "if pc \<and> percpu_var_cnt g1 \<noteq> 0
             then g1\<lparr>percpu_vars := qsort (take (percpu_var_cnt g1) (percpu_vars g1)) percpu_var_cmp
                                     @ drop (percpu_var_cnt g1) (percpu_vars g1)\<rparr>
             else g1"
  let ?g2s = "?g2\<lparr>functions := qsort (take (functions_cnt ?g2) (functions ?g2)) functions_cmp
                         @ drop (functions_cnt ?g2) (functions ?g2)\<rparr>"
  have ff: "percpu_var_cnt (snd (filter_functions e b fl ?g2s)) = percpu_var_cnt g1"
    by (simp add: filter_functions_percpu)
  have "snd (collect_symbols e b pc g) = g1 \<or>
        snd (collect_symbols e b pc g) = delete_functions ?g2 \<or>
        snd (collect_symbols e b pc g) = snd (filter_functions e b fl ?g2s) \<or>
        snd (collect_symbols e b pc g) = report Filter_failed (snd (filter_functions e b fl ?g2s))"
    unfolding collect_symbols_def lp Let_def
    by (simp add: case_prod_beta)
  then have "percpu_var_cnt (snd (collect_symbols e b pc g)) = percpu_var_cnt g1"
    using ff by (auto simp: delete_functions_def report_def)
  then show ?thesis
    using g1 by simp
qed

lemma collect_symbols_reset:
  "collect_symbols e b pc g = collect_symbols e b pc (g\<lparr>percpu_var_cnt := 0\<rparr>)"
  by (simp add: collect_symbols_def)

section \<open>The claims\<close>

text \<open>
  C1: let a call of \<^const>\<open>cu__encode_btf\<close> reach the type pass with the active writer
  \<open>b\<close>, and let \<open>off\<close> be the writer's type count at that moment. For a tag of the
  unit's type table with core ID \<open>core_id\<close> that the pass reaches (the tags before it
  were encoded without error), let \<open>btf_type_id\<close> be what the writer answers. If it
  differs from \<open>off + core_id\<close> (in \<^verbatim>\<open>uint32_t\<close>, as \<^const>\<open>tag__check_id_drift\<close>
  computes it), the call returns -1 and leaves no active writer; and whenever the call
  returns 0, the answer is not negative and equals \<open>off + core_id\<close>.
\<close>

theorem id_drift_is_fatal:
  assumes "encode_cu_begin e cu skip g = Inr (b, g1)"
    and "off = btf__get_nr_types b"
    and "gp = prepare_index_type cu off (g1\<lparr>btf_elf__verbose := verbose, btf_elf__force := force\<rparr>)"
    and "types_table cu = pre @ (core_id, pos) # post"
    and "encode_types cu off pre b gp = (0, b0, g0)"
    and "tag__encode_btf cu pos core_id b0 (array_index_id g0) off g0 = (btf_type_id, b1, g1')"
  shows "(btf_type_id \<noteq> off + core_id \<longrightarrow>
            fst (cu__encode_btf e cu verbose force skip g) = -1 \<and>
            btfe (snd (cu__encode_btf e cu verbose force skip g)) = None) \<and>
         (fst (cu__encode_btf e cu verbose force skip g) = 0 \<longrightarrow>
            btf_type_id = off + core_id \<and> \<not> is_neg btf_type_id)"
proof (intro conjI impI)
  note run = cu__encode_btf_passes [OF assms(1), of verbose force]
  let ?ty = "encode_types cu off (types_table cu) b gp"
  assume d: "btf_type_id \<noteq> off + core_id"
  then have "fst ?ty = -1"
    using encode_types_at(1) [OF assms(5,6), of post] assms(4) by (simp add: add.commute)
  then have "fst (encode_cu_passes cu verbose force skip b g1) = -1"
    using encode_cu_passes_types_failed [where cu = cu and b = b and g = g1 and verbose = verbose and force = force and skip = skip] assms(2,3) by simp
  then show "fst (cu__encode_btf e cu verbose force skip g) = -1"
    and "btfe (snd (cu__encode_btf e cu verbose force skip g)) = None"
    by (simp_all add: run btfe_encode_out)
next
  note run = cu__encode_btf_passes [OF assms(1), of verbose force]
  assume "fst (cu__encode_btf e cu verbose force skip g) = 0"
  then have "fst (encode_cu_passes cu verbose force skip b g1) = 0"
    by (simp add: run)
  then have "fst (encode_types cu off (types_table cu) b gp) = 0"
    using encode_cu_passes_ok_types [where cu = cu and b = b and g = g1 and verbose = verbose and force = force and skip = skip] assms(2,3) by simp
  then have t: "fst (encode_types cu off (pre @ (core_id, pos) # post) b gp) = 0"
    by (simp add: assms(4))
  have r: "btf_type_id = core_id + off \<and> \<not> is_neg btf_type_id"
    by (rule encode_types_at(2) [OF assms(5,6) t])
  from r show "btf_type_id = off + core_id"
    by (simp add: add.commute)
  from r show "\<not> is_neg btf_type_id"
    by blast
qed


theorem id_drift_is_fatal_witness:
  "encode_cu_begin env_seq cu_int_ptr True globals_active = Inr (btfe_fresh, globals_active) \<and>
   types_table cu_int_ptr = [(1, tag_int)] @ (2, tag_ptr_int) # [] \<and>
   fst (cu__encode_btf env_seq cu_int_ptr False False True globals_active) = 0 \<and>
   (2 :: u32) = btf__get_nr_types btfe_fresh + 2 \<and>
   encode_cu_begin env_seq cu_int_ptr True globals_drift = Inr (btfe_drift, globals_drift) \<and>
   types_table cu_int_ptr = [] @ (1, tag_int) # [(2, tag_ptr_int)] \<and>
   (7 :: u32) \<noteq> btf__get_nr_types btfe_drift + 1 \<and>
   fst (cu__encode_btf env_seq cu_int_ptr False False True globals_drift) = -1 \<and>
   btfe (snd (cu__encode_btf env_seq cu_int_ptr False False True globals_drift)) = None"
proof -
  let ?gp = "prepare_index_type cu_int_ptr (btf__get_nr_types btfe_fresh)
               (globals_active\<lparr>btf_elf__verbose := False, btf_elf__force := False\<rparr>)"
  let ?gd = "prepare_index_type cu_int_ptr (btf__get_nr_types btfe_drift)
               (globals_drift\<lparr>btf_elf__verbose := False, btf_elf__force := False\<rparr>)"
  have pre: "encode_types cu_int_ptr (btf__get_nr_types btfe_fresh) [(1, tag_int)] btfe_fresh ?gp =
      (0, btfe_fresh\<lparr>calls := [Add_base_type (tag_base tag_int) (Some ''int'')]\<rparr>, ?gp)"
    by (simp add: nr_types_fresh encode_int_fresh tag__check_id_drift_def)
  have enc: "tag__encode_btf cu_int_ptr tag_ptr_int 2
      (btfe_fresh\<lparr>calls := [Add_base_type (tag_base tag_int) (Some ''int'')]\<rparr>)
      (array_index_id ?gp) (btf__get_nr_types btfe_fresh) ?gp =
      (2, btfe_fresh\<lparr>calls := [Add_base_type (tag_base tag_int) (Some ''int''),
                               Add_ref_type BTF_KIND_PTR 1 None False]\<rparr>, ?gp)"
    by (simp add: nr_types_fresh encode_ptr_fresh)
  have pre_d: "encode_types cu_int_ptr (btf__get_nr_types btfe_drift) [] btfe_drift ?gd =
      (0, btfe_drift, ?gd)"
    by simp
  have enc_d: "tag__encode_btf cu_int_ptr tag_int 1 btfe_drift (array_index_id ?gd)
      (btf__get_nr_types btfe_drift) ?gd =
      (7, btfe_drift\<lparr>calls := [Add_base_type (tag_base tag_int) (Some ''int'')]\<rparr>, ?gd)"
    by (simp add: nr_types_drift encode_int_drift)
  show ?thesis
    using id_drift_is_fatal [OF begin_active refl refl types_table_int_ptr(2) pre enc]
      id_drift_is_fatal [OF begin_drift refl refl types_table_int_ptr(1) pre_d enc_d]
      begin_active begin_drift types_table_int_ptr run_int_ptr
    by (simp add: nr_types_fresh nr_types_drift)
qed

text \<open>
  C6, as the code has it: for a name without an embedded NUL, \<^const>\<open>btf_name_valid\<close>
  accepts it exactly when its first character is a letter, an underscore or a dot and it
  is followed by at most 127 characters that are letters, digits, underscores or dots.
  The total length is at most 128: the loop stops at the limit and the byte at offset
  128 is then tested for NUL.
\<close>

theorem btf_name_valid_language:
  "CHR 0x00 \<notin> set s \<Longrightarrow> btf_name_valid s = name_language 127 s"
  by (rule btf_name_valid_eq)

theorem btf_name_valid_language_witness:
  "CHR 0x00 \<notin> set ''cpu_info.0'' \<and> btf_name_valid ''cpu_info.0'' \<and>
   \<not> btf_name_valid ''0cpu''"
  using btf_name_valid_language [of "''cpu_info.0''"] btf_name_valid_language [of "''0cpu''"]
  by (simp add: name_language_def first_class_def rest_class_def isalpha_def isupper_def
      islower_def isdigit_def)

text \<open>
  C6 as stated (at most 126 characters after the first) fails on a name of 128 letters:
  the validator accepts it.
\<close>

theorem btf_name_valid_accepts_128:
  "btf_name_valid (CHR ''a'' # replicate 127 (CHR ''a'')) \<noteq>
   name_language 126 (CHR ''a'' # replicate 127 (CHR ''a''))"
proof -
  have "CHR 0x00 \<notin> set (CHR ''a'' # replicate 127 (CHR ''a''))"
    by simp
  then have "btf_name_valid (CHR ''a'' # replicate 127 (CHR ''a''))"
    by (simp add: btf_name_valid_eq name_language_def first_class_def rest_class_def
        isalpha_def isupper_def islower_def list_all_iff)
  moreover have "\<not> name_language 126 (CHR ''a'' # replicate 127 (CHR ''a''))"
    by (simp add: name_language_def)
  ultimately show ?thesis by simp
qed

text \<open>
  C9, as the code has it: for an array tag, \<^const>\<open>tag__encode_btf\<close> makes one call,
  \<^verbatim>\<open>add_array\<close>, whose element count is the product of the dimension entry counts
  in \<^verbatim>\<open>uint32_t\<close> arithmetic, that is, the product modulo \<open>2 ^ 32\<close>; it is the exact
  product whenever that is below \<open>2 ^ 32\<close>.
\<close>

theorem array_nelems_is_product_mod:
  "tag_tag tg = DW_TAG_array_type \<Longrightarrow>
   tag__encode_btf cu tg core_id b idx off g =
     (answer b (calls b)
        (Add_array (if tag_type tg = 0 then 0 else off + tag_type tg) idx (array_type__nelems tg)),
      b\<lparr>calls := calls b @
          [Add_array (if tag_type tg = 0 then 0 else off + tag_type tg) idx
             (array_type__nelems tg)]\<rparr>,
      g\<lparr>need_index_type := True\<rparr>) \<and>
   unat (array_type__nelems tg) = prod_list (map unat (nr_entries (tag_array tg))) mod 2 ^ 32 \<and>
   (prod_list (map unat (nr_entries (tag_array tg))) < 2 ^ 32 \<longrightarrow>
      unat (array_type__nelems tg) = prod_list (map unat (nr_entries (tag_array tg))))"
  by (simp add: tag__encode_btf_def writer_call_def array_type__nelems_eq unat_prod_list Let_def)

theorem array_nelems_is_product_mod_witness:
  "tag_tag tag_array_4_3 = DW_TAG_array_type \<and>
   tag__encode_btf cu_empty tag_array_4_3 1 btfe_fresh 2 0 globals_init =
     (1, btfe_fresh\<lparr>calls := [Add_array 0 2 12]\<rparr>, globals_init\<lparr>need_index_type := True\<rparr>)"
  using array_nelems_is_product_mod [of tag_array_4_3 cu_empty 1 btfe_fresh 2 0 globals_init]
  by (simp add: tag_array_4_3_def tag_zero_def array_type__nelems_eq btfe_fresh_def
      seq_answer_def seq_nr_types_def)

text \<open>
  C9 as stated (the exact product) fails on an array \<^verbatim>\<open>[65536][65536]\<close>: the count
  handed to the writer is 0, the product is \<open>2 ^ 32\<close>.
\<close>

theorem array_nelems_overflow:
  "calls (fst (snd (tag__encode_btf cu_empty tag_array_big 1 btfe_fresh 2 0 globals_init))) =
     [Add_array 0 2 0] \<and>
   unat (0 :: u32) \<noteq> prod_list (map unat (nr_entries (tag_array tag_array_big)))"
  by (simp add: tag__encode_btf_def writer_call_def tag_array_big_def tag_zero_def
      array_type__nelems_eq btfe_fresh_def Let_def)

text \<open>
  C10: a function whose prototype has no parameters passes \<^const>\<open>has_arg_names\<close>, so
  in kernel mode (a non-empty function table) the head of the function loop decides on
  it by \<^const>\<open>should_generate_function\<close> alone: the lookup of its name in the table
  and the generated flag.
\<close>

theorem no_parameters_pass_arg_name_check:
  "parms (proto fn) = [] \<Longrightarrow>
   has_arg_names cu (proto fn) \<and>
   (functions_cnt g \<noteq> 0 \<longrightarrow>
      function_selected cu fn g = should_generate_function (function__name fn cu) g)"
  by (simp add: has_arg_names_def function_selected_def)

theorem no_parameters_pass_arg_name_check_witness:
  "parms (proto func_foo) = [] \<and> has_arg_names cu_foo (proto func_foo) \<and>
   functions_cnt globals_kernel \<noteq> 0 \<and>
   function_selected cu_foo func_foo globals_kernel =
     (True, globals_kernel\<lparr>functions :=
        [\<lparr>fn_name = ''bar'', fn_addr = 0x1000, generated = False\<rparr>,
         \<lparr>fn_name = ''foo'', fn_addr = 0x1100, generated = True\<rparr>]\<rparr>)"
  using no_parameters_pass_arg_name_check [of func_foo cu_foo globals_kernel]
  by (simp add: func_foo_def ftype_zero_def cu_foo_def cu_empty_def globals_kernel_def
      globals_init_def should_generate_function_def function__name_def strings__ptr_def
      bsearch_def bsearch_loop.simps functions_cmp_def)

text \<open>
  C2, as the code has it. In kernel mode (a non-empty function table) the FUNC entries
  that an active writer has received carry distinct names, whatever sequence of units
  the session has encoded, and the finalization adds none; the state \<open>g\<close> is any state
  in which this holds so far, the initial state among them. In standalone mode (an empty
  function table) the head of the function loop selects a function exactly when it is
  external and not a declaration, and a call of \<^const>\<open>cu__encode_btf\<close> that returns 0
  has added one FUNC entry for each such function of the unit, in their order, and no
  other FUNC entry.
\<close>

theorem function_names_emitted_once:
  "(kernel_inv g \<and> btfe (encode_cus e reqs g) = Some b \<and>
    functions_cnt (encode_cus e reqs g) \<noteq> 0 \<longrightarrow>
      distinct (func_names (calls b)) \<and>
      distinct (func_names (calls (fst (snd (btf_encoder__encode b (encode_cus e reqs g))))))) \<and>
   (functions_cnt g1 = 0 \<longrightarrow>
      function_selected cu fn g1 = (\<not> func_declaration fn \<and> func_external fn, g1)) \<and>
   (encode_cu_begin e cu skip g0 = Inr (b1, g1) \<and> functions_cnt g1 = 0 \<and>
    fst (cu__encode_btf e cu verbose force skip g0) = 0 \<longrightarrow>
      (\<exists>b2. btfe (snd (cu__encode_btf e cu verbose force skip g0)) = Some b2 \<and>
            func_names (calls b2) =
              func_names (calls b1) @
              map (\<lambda>fn. strings__ptr cu (func_name fn))
                (filter (\<lambda>fn. \<not> func_declaration fn \<and> func_external fn) (cu_functions cu))))"
proof (intro conjI impI)
  assume a: "kernel_inv g \<and> btfe (encode_cus e reqs g) = Some b \<and>
    functions_cnt (encode_cus e reqs g) \<noteq> 0"
  then have inv: "kernel_inv g" and b: "btfe (encode_cus e reqs g) = Some b"
    and k: "functions_cnt (encode_cus e reqs g) \<noteq> 0"
    by blast+
  have "kernel_inv (encode_cus e reqs g)"
    using inv by (rule encode_cus_inv)
  then have "distinct (map name_key (func_names (calls b)))"
    using b k by (simp add: kernel_inv_def emitted_once_def)
  then show d: "distinct (func_names (calls b))"
    by (simp add: distinct_map)
  have "func_names (calls (fst (snd (btf_encoder__encode b (encode_cus e reqs g))))) =
     func_names (calls b)"
    by (simp add: btf_encoder__encode_def btf_elf__delete_def Let_def writer_call_def
        case_prod_beta func_names_append)
  with d show "distinct (func_names (calls (fst (snd (btf_encoder__encode b
      (encode_cus e reqs g))))))"
    by simp
next
  assume "functions_cnt g1 = 0"
  then show "function_selected cu fn g1 = (\<not> func_declaration fn \<and> func_external fn, g1)"
    by (rule function_selected_standalone)
next
  assume a: "encode_cu_begin e cu skip g0 = Inr (b1, g1) \<and> functions_cnt g1 = 0 \<and>
    fst (cu__encode_btf e cu verbose force skip g0) = 0"
  then show "\<exists>b2. btfe (snd (cu__encode_btf e cu verbose force skip g0)) = Some b2 \<and>
            func_names (calls b2) =
              func_names (calls b1) @
              map (\<lambda>fn. strings__ptr cu (func_name fn))
                (filter (\<lambda>fn. \<not> func_declaration fn \<and> func_external fn) (cu_functions cu))"
    using cu__encode_btf_standalone [of e cu skip g0 b1 g1 verbose force] by blast
qed

theorem function_names_emitted_once_witness:
  "kernel_inv globals_kernel \<and>
   btfe (encode_cus env_seq [(cu_foo, False, False, True), (cu_foo, False, False, True)]
           globals_kernel) =
     Some (btfe_fresh\<lparr>calls := [Add_func_proto cu_foo ftype_zero 0,
                                  Add_ref_type BTF_KIND_FUNC 1 (Some ''foo'') False]\<rparr>) \<and>
   functions_cnt (encode_cus env_seq [(cu_foo, False, False, True), (cu_foo, False, False, True)]
           globals_kernel) \<noteq> 0 \<and>
   func_names [Add_func_proto cu_foo ftype_zero 0,
               Add_ref_type BTF_KIND_FUNC 1 (Some ''foo'') False] = [Some ''foo''] \<and>
   distinct (func_names (calls (btfe_fresh\<lparr>calls := [Add_func_proto cu_foo ftype_zero 0,
                                  Add_ref_type BTF_KIND_FUNC 1 (Some ''foo'') False]\<rparr>))) \<and>
   functions_cnt globals_active = 0 \<and>
   function_selected cu_three func_decl globals_active = (False, globals_active) \<and>
   function_selected cu_three func_foo globals_active = (True, globals_active) \<and>
   function_selected cu_three func_local globals_active = (False, globals_active) \<and>
   encode_cu_begin env_seq cu_three True globals_active = Inr (btfe_fresh, globals_active) \<and>
   fst (cu__encode_btf env_seq cu_three False False True globals_active) = 0 \<and>
   map_option (func_names \<circ> calls)
     (btfe (snd (cu__encode_btf env_seq cu_three False False True globals_active))) =
     Some [Some ''foo'']"
proof -
  let ?reqs = "[(cu_foo, False, False, True), (cu_foo, False, False, True)]"
  have run: "encode_cus env_seq ?reqs globals_kernel = globals_kernel_after 3"
    by (simp add: run_kernel_first run_kernel_second)
  have b: "btfe (encode_cus env_seq ?reqs globals_kernel) =
     Some (btfe_fresh\<lparr>calls := [Add_func_proto cu_foo ftype_zero 0,
                                  Add_ref_type BTF_KIND_FUNC 1 (Some ''foo'') False]\<rparr>)"
    unfolding run by (simp add: globals_kernel_after_def)
  have k: "functions_cnt (encode_cus env_seq ?reqs globals_kernel) \<noteq> 0"
    unfolding run by (simp add: globals_kernel_after_def globals_init_def)
  have p1: "kernel_inv globals_kernel \<and>
      btfe (encode_cus env_seq ?reqs globals_kernel) =
        Some (btfe_fresh\<lparr>calls := [Add_func_proto cu_foo ftype_zero 0,
                                  Add_ref_type BTF_KIND_FUNC 1 (Some ''foo'') False]\<rparr>) \<and>
      functions_cnt (encode_cus env_seq ?reqs globals_kernel) \<noteq> 0"
    by (intro conjI kernel_inv_example b k)
  have s: "functions_cnt globals_active = 0"
    by (simp add: globals_active_def globals_init_def)
  have ok: "fst (cu__encode_btf env_seq cu_three False False True globals_active) = 0"
    by (simp add: run_three)
  have p3: "encode_cu_begin env_seq cu_three True globals_active = Inr (btfe_fresh, globals_active) \<and>
      functions_cnt globals_active = 0 \<and>
      fst (cu__encode_btf env_seq cu_three False False True globals_active) = 0"
    by (intro conjI begin_three s ok)
  note c1 = function_names_emitted_once [where g = globals_kernel and e = env_seq
      and reqs = ?reqs, THEN conjunct1, THEN mp, OF p1]
  note c2 = function_names_emitted_once [where ?g1.0 = globals_active and cu = cu_three,
      THEN conjunct2, THEN conjunct1, THEN mp, OF s]
  note c3 = function_names_emitted_once [where e = env_seq and cu = cu_three and skip = True
      and ?g0.0 = globals_active and verbose = False and force = False,
      THEN conjunct2, THEN conjunct2, THEN mp, OF p3]
  have names: "func_names (calls btfe_fresh) @
      map (\<lambda>fn. strings__ptr cu_three (func_name fn))
        (filter (\<lambda>fn. \<not> func_declaration fn \<and> func_external fn) (cu_functions cu_three)) =
      [Some ''foo'']"
    by (simp add: cu_three_fields func_three_fields func_foo_fields btfe_fresh_fields)
  show ?thesis
    using c1 c3 kernel_inv_example b k s begin_three ok
    by (auto simp: c2 func_three_fields func_foo_fields names simp del: encode_cus.simps)
qed

text \<open>
  C2 as stated fails in standalone mode (an empty function table): two units that each
  define the external function \<^verbatim>\<open>foo\<close> give two FUNC entries of that name.
\<close>

theorem standalone_repeats_function_name:
  "map_option (func_names \<circ> calls)
     (btfe (encode_cus env_seq [(cu_foo, False, False, True), (cu_foo, False, False, True)]
              globals_init)) = Some [Some ''foo'', Some ''foo''] \<and>
   functions_cnt (encode_cus env_seq [(cu_foo, False, False, True), (cu_foo, False, False, True)]
              globals_init) = 0"
  by (simp add: run_foo_first run_foo_second) (simp add: globals_init_def)

text \<open>
  C3, on the code: the answer of the writer to the synthetic \<^verbatim>\<open>__ARRAY_SIZE_TYPE__\<close>
  base type and to the DATASEC record is not looked at. With a writer that answers -1 to
  both, \<^const>\<open>cu__encode_btf\<close> on a unit with one array and no \<^verbatim>\<open>int\<close> returns 0 and
  keeps the writer active, and \<^const>\<open>btf_encoder__encode\<close> goes on to flush the writer
  and returns the status of the flush.
\<close>

theorem rejected_writer_calls_not_fatal:
  "is_neg (answer btfe_reject [Add_array 0 2 12]
             (Add_base_type synthetic_index_type (Some ''__ARRAY_SIZE_TYPE__''))) \<and>
   fst (cu__encode_btf env_seq cu_array False False False globals_reject) = 0 \<and>
   map_option calls (btfe (snd (cu__encode_btf env_seq cu_array False False False globals_reject))) =
     Some [Add_array 0 2 12, Add_base_type synthetic_index_type (Some ''__ARRAY_SIZE_TYPE__'')] \<and>
   is_neg (answer btfe_reject_secinfo []
             (Add_datasec_type PERCPU_SECTION (percpu_secinfo btfe_reject_secinfo))) \<and>
   fst (btf_encoder__encode btfe_reject_secinfo globals_reject) = 0 \<and>
   calls (fst (snd (btf_encoder__encode btfe_reject_secinfo globals_reject))) =
     [Add_datasec_type PERCPU_SECTION (percpu_secinfo btfe_reject_secinfo), Encode 0]"
proof -
  have a: "cu__encode_btf env_seq cu_array False False False globals_reject =
     (0, globals_reject\<lparr>array_index_id := 2, need_index_type := True, has_index_type := True,
          btfe := Some (btfe_reject\<lparr>calls := [Add_array 0 2 12,
            Add_base_type synthetic_index_type (Some ''__ARRAY_SIZE_TYPE__'')]\<rparr>)\<rparr>)"
    by (simp add: cu__encode_btf_passes [OF begin_reject] passes_reject encode_out_def)
  have b: "is_neg (-1)"
    by (simp add: is_neg_def)
  show ?thesis
    by (simp add: a b btf_encoder__encode_def btf_elf__delete_def writer_call_def Let_def
        btfe_reject_secinfo_def
        btfe_reject_def btfe_fresh_def reject_answer_def seq_answer_def)
qed

text \<open>
  C4: let the type pass of a unit complete, in a session that has no index type yet.
  If the lookup of \<^verbatim>\<open>int\<close> found nothing and the type table holds an array tag, the
  call that follows the calls of the type pass adds a base type named
  \<^verbatim>\<open>__ARRAY_SIZE_TYPE__\<close> whose size is 32 bits and whose other fields are zero, and
  no base type is added after it in the unit. If the lookup found \<^verbatim>\<open>int\<close> with core
  ID \<open>i\<close>, no base type is added after the type pass, and \<^verbatim>\<open>array_index_id\<close> is the
  type count at the start of the unit plus \<open>i\<close>.
\<close>

theorem synthetic_index_type_emitted:
  assumes ty: "encode_types cu (btf__get_nr_types b) (types_table cu) b
       (prepare_index_type cu (btf__get_nr_types b)
          (g\<lparr>btf_elf__verbose := verbose, btf_elf__force := force\<rparr>)) = (0, b2, g2)"
    and nh: "\<not> has_index_type g"
  shows "(find_int cu = None \<and> (\<exists>ct\<in>set (types_table cu). tag_tag (snd ct) = DW_TAG_array_type) \<longrightarrow>
           (\<exists>rest. calls (fst (snd (encode_cu_passes cu verbose force skip b g))) =
               calls b2 @
               Add_base_type \<lparr>bt_name = 0, bit_size = 32, bt_encoding = 0\<rparr>
                 (Some ''__ARRAY_SIZE_TYPE__'') # rest \<and>
               list_all (\<lambda>c. \<not> is_base_type_call c) rest)) \<and>
         (\<forall>i. find_int cu = Some i \<longrightarrow>
           (\<exists>rest. calls (fst (snd (encode_cu_passes cu verbose force skip b g))) =
               calls b2 @ rest \<and> list_all (\<lambda>c. \<not> is_base_type_call c) rest) \<and>
           array_index_id g2 = btf__get_nr_types b + i)"
proof -
  let ?off = "btf__get_nr_types b"
  let ?gp = "prepare_index_type cu ?off (g\<lparr>btf_elf__verbose := verbose, btf_elf__force := force\<rparr>)"
  have fr: "same_tables ?gp g2"
    using encode_types_frame [of b cu ?off "types_table cu" ?gp] ty by simp
  have need: "need_index_type g2 =
     (need_index_type ?gp \<or> (\<exists>ct\<in>set (types_table cu). tag_tag (snd ct) = DW_TAG_array_type))"
    using encode_types_need [of cu ?off "types_table cu" b ?gp] ty by simp
  obtain rest where rest:
    "calls (fst (snd (encode_cu_passes cu verbose force skip b g))) =
       calls (fst (encode_index_type b2 g2)) @ rest"
    "list_all (\<lambda>c. \<not> is_base_type_call c) rest"
    using encode_cu_passes_calls [OF ty] by blast
  show ?thesis
  proof (intro conjI impI allI)
    assume a: "find_int cu = None \<and>
      (\<exists>ct\<in>set (types_table cu). tag_tag (snd ct) = DW_TAG_array_type)"
    then have "\<not> has_index_type ?gp"
      using nh by (simp add: prepare_index_type_def)
    then have "\<not> has_index_type g2"
      using fr by (simp add: same_tables_def)
    moreover have "need_index_type g2"
      using need a by simp
    ultimately have "calls (fst (encode_index_type b2 g2)) =
        calls b2 @
          [Add_base_type \<lparr>bt_name = 0, bit_size = 32, bt_encoding = 0\<rparr>
             (Some ''__ARRAY_SIZE_TYPE__'')]"
      by (simp add: encode_index_type_def writer_call_def synthetic_index_type_def)
    with rest show "\<exists>rest. calls (fst (snd (encode_cu_passes cu verbose force skip b g))) =
        calls b2 @
               Add_base_type \<lparr>bt_name = 0, bit_size = 32, bt_encoding = 0\<rparr>
                 (Some ''__ARRAY_SIZE_TYPE__'') # rest \<and>
        list_all (\<lambda>c. \<not> is_base_type_call c) rest"
      by simp
  next
    fix i assume i: "find_int cu = Some i"
    then have p: "has_index_type ?gp" "array_index_id ?gp = ?off + i"
      using nh by (simp_all add: prepare_index_type_def)
    then have "has_index_type g2"
      using fr by (simp add: same_tables_def)
    then have "calls (fst (encode_index_type b2 g2)) = calls b2"
      by (simp add: encode_index_type_def)
    with rest show "\<exists>rest. calls (fst (snd (encode_cu_passes cu verbose force skip b g))) =
        calls b2 @ rest \<and> list_all (\<lambda>c. \<not> is_base_type_call c) rest"
      by simp
    show "array_index_id g2 = ?off + i"
      using fr p by (simp add: same_tables_def)
  qed
qed

theorem synthetic_index_type_emitted_witness:
  "\<not> has_index_type globals_active \<and> find_int cu_array = None \<and>
   (\<exists>ct\<in>set (types_table cu_array). tag_tag (snd ct) = DW_TAG_array_type) \<and>
   calls (fst (snd (encode_cu_passes cu_array False False True btfe_fresh globals_active))) =
     [Add_array 0 2 12,
      Add_base_type \<lparr>bt_name = 0, bit_size = 32, bt_encoding = 0\<rparr>
        (Some ''__ARRAY_SIZE_TYPE__'')] \<and>
   find_int cu_int_array = Some 1 \<and>
   calls (fst (snd (encode_cu_passes cu_int_array False False True btfe_fresh globals_active))) =
     [Add_base_type (tag_base tag_int) (Some ''int''), Add_array 1 1 12]"
proof -
  let ?g = "globals_active\<lparr>btf_elf__verbose := False, btf_elf__force := False\<rparr>"
  have nh: "\<not> has_index_type globals_active"
    by (simp add: globals_active_def globals_init_def)
  have p1: "prepare_index_type cu_array 0 ?g =
      ?g\<lparr>has_index_type := False, array_index_id := 2\<rparr>"
    by (simp add: prepare_index_type_def nr_types_fresh cu_array_fields globals_active_def
        globals_init_def)
  have ty1: "encode_types cu_array (btf__get_nr_types btfe_fresh) (types_table cu_array) btfe_fresh
       (prepare_index_type cu_array (btf__get_nr_types btfe_fresh) ?g) =
       (0, btfe_fresh\<lparr>calls := [Add_array 0 2 12]\<rparr>,
        ?g\<lparr>has_index_type := False, array_index_id := 2, need_index_type := True\<rparr>)"
    by (simp add: p1 nr_types_fresh cu_array_fields encode_array_fresh tag__check_id_drift_def)
  have p2: "prepare_index_type cu_int_array 0 ?g =
      ?g\<lparr>has_index_type := True, array_index_id := 1\<rparr>"
    by (simp add: prepare_index_type_def nr_types_fresh cu_int_array_fields globals_active_def
        globals_init_def)
  have ty2: "encode_types cu_int_array (btf__get_nr_types btfe_fresh) (types_table cu_int_array)
       btfe_fresh (prepare_index_type cu_int_array (btf__get_nr_types btfe_fresh) ?g) =
       (0, btfe_fresh\<lparr>calls := [Add_base_type (tag_base tag_int) (Some ''int''),
                                 Add_array 1 1 12]\<rparr>,
        ?g\<lparr>has_index_type := True, array_index_id := 1, need_index_type := True\<rparr>)"
    by (simp add: p2 nr_types_fresh cu_int_array_fields encode_int_fresh2 encode_array_after_int
        tag__check_id_drift_def)
  have run1: "calls (fst (snd (encode_cu_passes cu_array False False True btfe_fresh globals_active))) =
     [Add_array 0 2 12,
      Add_base_type \<lparr>bt_name = 0, bit_size = 32, bt_encoding = 0\<rparr>
        (Some ''__ARRAY_SIZE_TYPE__'')]"
    by (simp add: encode_cu_passes_def Let_def ty1 [unfolded cu_array_fields(1)]
        cu_array_fields encode_index_type_def synthetic_index_type_def
        writer_call_def del: encode_types.simps)
  have run2: "calls (fst (snd (encode_cu_passes cu_int_array False False True btfe_fresh globals_active))) =
     [Add_base_type (tag_base tag_int) (Some ''int''), Add_array 1 1 12]"
    by (simp add: encode_cu_passes_def Let_def ty2 [unfolded cu_int_array_fields(1)]
        cu_int_array_fields encode_index_type_def
        del: encode_types.simps)
  show ?thesis
    using synthetic_index_type_emitted [OF ty1 nh, of True]
      synthetic_index_type_emitted [OF ty2 nh, of True] nh run1 run2
    by (simp add: cu_array_fields cu_int_array_fields tag_array_4_3_def tag_zero_def)
qed



text \<open>
  C7: let \<open>pos\<close> be a per-CPU variable whose resolved type is 0, in the state \<open>g\<close>
  in which the variable loop comes to it, and let \<open>name\<close> be the name of its symbol.
  The loop appends the message for \<open>name\<close> and the unit to the error stream; with the
  force flag it goes on with the variables that follow, without it it ends with -1.
  A unit that holds such a variable makes \<^const>\<open>cu__encode_btf\<close> without force
  return -1 and leave no active writer, when the variable pass is due (variables
  requested, a per-CPU section and a symbol table present). And when the type and
  function passes of a call complete and the variable loop reaches \<open>pos\<close> with the
  writer \<open>b\<close>: without force the call returns -1 with the function table cleared, no
  active writer, and the message last on the error stream; with force the call is the
  end of the call applied to the loop over the variables after \<open>pos\<close>, run with the
  same writer; in both cases the error stream of the result holds the message right
  after what it held before.
\<close>

theorem void_percpu_variable_reported:
  assumes v: "void_percpu_variable g pos"
    and x: "percpu_var_exists (var_ip_addr pos) g = Some (sz, name)"
  shows
  "encode_variables cu True off (pos # rest) b g =
     encode_variables cu True off rest b
       (g\<lparr>stderr := stderr g @ [Void_type_variable name (cu_name cu)]\<rparr>) \<and>
   encode_variables cu False off (pos # rest) b g =
     (-1, b, g\<lparr>stderr := stderr g @ [Void_type_variable name (cu_name cu)]\<rparr>) \<and>
   (encode_cu_begin e cu False g0 = Inr (b0, g) \<and> percpu_shndx b0 \<noteq> 0 \<and> symtab b0 \<noteq> None \<and>
    pos \<in> set (cu_variables cu) \<longrightarrow>
      fst (cu__encode_btf e cu verbose False False g0) = -1 \<and>
      btfe (snd (cu__encode_btf e cu verbose False False g0)) = None) \<and>
   (encode_cu_begin e cu False g0 = Inr (b0, g1) \<and>
    encode_cu_passes cu verbose force True b0 g1 = (0, bv, gv) \<and>
    percpu_shndx bv \<noteq> 0 \<and> symtab bv \<noteq> None \<and>
    cu_variables cu = pre @ pos # post \<and>
    encode_variables cu force (btf__get_nr_types b0) pre bv gv = (0, b, g) \<longrightarrow>
      (\<not> force \<longrightarrow>
         cu__encode_btf e cu verbose force False g0 =
           (-1, (delete_functions
                   (g\<lparr>stderr := stderr g @ [Void_type_variable name (cu_name cu)]\<rparr>))
                 \<lparr>btfe := None\<rparr>)) \<and>
      (force \<longrightarrow>
         cu__encode_btf e cu verbose force False g0 =
           (case encode_variables cu True (btf__get_nr_types b0) post b
                   (g\<lparr>stderr := stderr g @ [Void_type_variable name (cu_name cu)]\<rparr>) of
              (err, b', g') \<Rightarrow> encode_out err (Some b') g')) \<and>
      (\<exists>more. stderr (snd (cu__encode_btf e cu verbose force False g0)) =
                stderr g @ Void_type_variable name (cu_name cu) # more))"
proof (intro conjI impI)
  let ?m = "Void_type_variable name (cu_name cu)"
  let ?gm = "g\<lparr>stderr := stderr g @ [?m]\<rparr>"
  have rp: "report ?m g = ?gm"
    by (simp add: report_def)
  show "encode_variables cu True off (pos # rest) b g = encode_variables cu True off rest b ?gm"
    using encode_variables_void_step [OF v x, of cu True] by (simp add: rp)
  show "encode_variables cu False off (pos # rest) b g = (-1, b, ?gm)"
    using encode_variables_void_step [OF v x, of cu False] by (simp add: rp)
  {
    assume a: "encode_cu_begin e cu False g0 = Inr (b0, g) \<and> percpu_shndx b0 \<noteq> 0 \<and>
      symtab b0 \<noteq> None \<and> pos \<in> set (cu_variables cu)"
    obtain err b2 g2 where p: "encode_cu_passes cu verbose False False b0 g = (err, b2, g2)"
      by (cases "encode_cu_passes cu verbose False False b0 g")
    from a have a1: "encode_cu_begin e cu False g0 = Inr (b0, g)"
      and a2: "percpu_shndx b0 \<noteq> 0" and a3: "symtab b0 \<noteq> None"
      and a4: "pos \<in> set (cu_variables cu)"
      by blast+
    have "fst (encode_cu_passes cu verbose False False b0 g) = -1"
      by (rule encode_cu_passes_void [OF v a4 a2 a3])
    with p have err: "err = -1" by simp
    have r: "cu__encode_btf e cu verbose False False g0 =
               (-1, (delete_functions g2)\<lparr>btfe := None\<rparr>)"
      using p err by (simp add: cu__encode_btf_def encode_out_error a1)
    show "fst (cu__encode_btf e cu verbose False False g0) = -1"
      by (simp add: r)
    show "btfe (snd (cu__encode_btf e cu verbose False False g0)) = None"
      by (simp add: r)
  }
  assume a: "encode_cu_begin e cu False g0 = Inr (b0, g1) \<and>
    encode_cu_passes cu verbose force True b0 g1 = (0, bv, gv) \<and>
    percpu_shndx bv \<noteq> 0 \<and> symtab bv \<noteq> None \<and>
    cu_variables cu = pre @ pos # post \<and>
    encode_variables cu force (btf__get_nr_types b0) pre bv gv = (0, b, g)"
  let ?off = "btf__get_nr_types b0"
  from a have bg: "encode_cu_begin e cu False g0 = Inr (b0, g1)"
    and ps: "encode_cu_passes cu verbose force True b0 g1 = (0, bv, gv)"
    and sh: "percpu_shndx bv \<noteq> 0" and st: "symtab bv \<noteq> None"
    and vs: "cu_variables cu = pre @ pos # post"
    and pr: "encode_variables cu force ?off pre bv gv = (0, b, g)"
    by blast+
  have pv: "encode_cu_passes cu verbose force False b0 g1 =
      encode_variables cu force ?off (pos # post) b g"
    by (simp add: encode_cu_passes_vars [OF ps sh st] vs encode_variables_append pr
        del: encode_variables.simps)
  have step: "encode_variables cu force ?off (pos # post) b g =
      (if force then encode_variables cu force ?off post b ?gm else (-1, b, ?gm))"
    using encode_variables_void_step [OF v x, of cu force ?off post b] by (simp add: rp)
  have run: "cu__encode_btf e cu verbose force False g0 =
      (case encode_variables cu force ?off (pos # post) b g of
         (err, b', g') \<Rightarrow> encode_out err (Some b') g')"
    by (simp add: cu__encode_btf_def bg pv del: encode_variables.simps)
  show nf: "cu__encode_btf e cu verbose force False g0 =
      (-1, (delete_functions ?gm)\<lparr>btfe := None\<rparr>)" if "\<not> force"
    unfolding run step using that by (simp add: encode_out_def)
  show fo: "cu__encode_btf e cu verbose force False g0 =
      (case encode_variables cu True ?off post b ?gm of
         (err, b', g') \<Rightarrow> encode_out err (Some b') g')" if force
    unfolding run step using that by simp
  show "\<exists>more. stderr (snd (cu__encode_btf e cu verbose force False g0)) =
      stderr g @ ?m # more"
  proof (cases force)
    case False
    have "stderr (snd (cu__encode_btf e cu verbose force False g0)) = stderr g @ [?m]"
      by (simp add: nf [OF False] delete_functions_def)
    then show ?thesis by simp
  next
    case True
    obtain more where
      "stderr (snd (snd (encode_variables cu True ?off post b ?gm))) = stderr ?gm @ more"
      using encode_variables_stderr [of cu True ?off post b ?gm] by blast
    then have "stderr (snd (cu__encode_btf e cu verbose force False g0)) =
        stderr g @ ?m # more"
      by (simp add: fo [OF True] case_prod_beta)
    then show ?thesis by blast
  qed
qed

theorem void_percpu_variable_reported_witness:
  "void_percpu_variable globals_percpu_two var_void \<and>
   percpu_var_exists (var_ip_addr var_void) globals_percpu_two = Some (8, ''v'') \<and>
   encode_cu_begin env_seq cu_void_w False globals_percpu_two =
     Inr (btfe_percpu, globals_percpu_two) \<and>
   percpu_shndx btfe_percpu \<noteq> 0 \<and> symtab btfe_percpu \<noteq> None \<and>
   cu_variables cu_void_w = [] @ var_void # [var_w] \<and>
   encode_cu_passes cu_void_w False False True btfe_percpu globals_percpu_two =
     (0, btfe_percpu, globals_percpu_two\<lparr>array_index_id := 1, btf_elf__force := False\<rparr>) \<and>
   encode_cu_passes cu_void_w False True True btfe_percpu globals_percpu_two =
     (0, btfe_percpu, globals_percpu_two\<lparr>array_index_id := 1, btf_elf__force := True\<rparr>) \<and>
   fst (cu__encode_btf env_seq cu_void_w False False False globals_percpu_two) = -1 \<and>
   btfe (snd (cu__encode_btf env_seq cu_void_w False False False globals_percpu_two)) = None \<and>
   stderr (snd (cu__encode_btf env_seq cu_void_w False False False globals_percpu_two)) =
     [Void_type_variable ''v'' ''a.c''] \<and>
   fst (cu__encode_btf env_seq cu_void_w False True False globals_percpu_two) = 0 \<and>
   map_option calls
     (btfe (snd (cu__encode_btf env_seq cu_void_w False True False globals_percpu_two))) =
     Some [Add_var_type 1 ''w'' BTF_VAR_GLOBAL_ALLOCATED, Add_var_secinfo 1 0x48 4] \<and>
   stderr (snd (cu__encode_btf env_seq cu_void_w False True False globals_percpu_two)) =
     [Void_type_variable ''v'' ''a.c'']"
proof -
  let ?g = "\<lambda>force. globals_percpu_two\<lparr>array_index_id := 1, btf_elf__force := force\<rparr>"
  have tab: "percpu_vars (?g force) = [\<lparr>vi_addr = 0x40, vi_sz = 8, vi_name = ''v''\<rparr>,
                            \<lparr>vi_addr = 0x48, vi_sz = 4, vi_name = ''w''\<rparr>]"
    "percpu_var_cnt (?g force) = 2" "stderr (?g force) = []" for force
    by (simp_all add: globals_percpu_two_def globals_init_def)
  have tab0: "percpu_vars globals_percpu_two = [\<lparr>vi_addr = 0x40, vi_sz = 8, vi_name = ''v''\<rparr>,
                            \<lparr>vi_addr = 0x48, vi_sz = 4, vi_name = ''w''\<rparr>]"
    "percpu_var_cnt globals_percpu_two = 2"
    by (simp_all add: globals_percpu_two_def globals_init_def)
  have a: "var_ip_addr var_void = 0x40"
    by (simp add: var_void_def)
  have h: "percpu_shndx btfe_percpu \<noteq> 0" "symtab btfe_percpu \<noteq> None"
    "cu_variables cu_void_w = [] @ var_void # [var_w]" "var_void \<in> set (cu_variables cu_void_w)"
    by (simp_all add: btfe_percpu_fields cu_void_w_fields)
  have reach: "encode_variables cu_void_w force (btf__get_nr_types btfe_percpu) [] btfe_percpu
      (?g force) = (0, btfe_percpu, ?g force)" for force
    by simp
  have lw: "percpu_var_exists 0x48
      ((?g True)\<lparr>stderr := [Void_type_variable ''v'' ''a.c'']\<rparr>) =
      Some (4, ''w'')"
    by (rule percpu_two_lookup(2)) (simp_all add: globals_percpu_two_def globals_init_def)
  have w: "encode_variables cu_void_w True (btf__get_nr_types btfe_percpu) [var_w] btfe_percpu
      ((?g True)\<lparr>stderr := [Void_type_variable ''v'' ''a.c'']\<rparr>) =
      (0, btfe_percpu\<lparr>calls := [Add_var_type 1 ''w'' BTF_VAR_GLOBAL_ALLOCATED,
                                 Add_var_secinfo 1 0x48 4],
                       percpu_secinfo := [\<lparr>si_type = 1, si_offset = 0x48, si_size = 4\<rparr>]\<rparr>,
       (?g True)\<lparr>stderr := [Void_type_variable ''v'' ''a.c'']\<rparr>)"
    using lw
    by (simp add: var_w_def tab Let_def writer_call_def
        btf_elf__add_var_secinfo_def btfe_percpu_fields btf__get_nr_types_def seq_answer_def
        seq_nr_types_def is_neg_def)
  note v0 = percpu_two_lookup(3) [OF tab0]
  note x0 = percpu_two_lookup(1) [OF tab0, folded a]
  have vf: "void_percpu_variable (?g force) var_void"
    and xf: "percpu_var_exists (var_ip_addr var_void) (?g force) = Some (8, ''v'')" for force
    using percpu_two_lookup(3) [OF tab(1,2) [of force]]
      percpu_two_lookup(1) [OF tab(1,2) [of force], folded a] by simp_all
  have p3: "encode_cu_begin env_seq cu_void_w False globals_percpu_two =
        Inr (btfe_percpu, globals_percpu_two) \<and>
      percpu_shndx btfe_percpu \<noteq> 0 \<and> symtab btfe_percpu \<noteq> None \<and>
      var_void \<in> set (cu_variables cu_void_w)"
    by (intro conjI begin_two h)
  have p4: "encode_cu_begin env_seq cu_void_w False globals_percpu_two =
        Inr (btfe_percpu, globals_percpu_two) \<and>
      encode_cu_passes cu_void_w False force True btfe_percpu globals_percpu_two =
        (0, btfe_percpu, ?g force) \<and>
      percpu_shndx btfe_percpu \<noteq> 0 \<and> symtab btfe_percpu \<noteq> None \<and>
      cu_variables cu_void_w = [] @ var_void # [var_w] \<and>
      encode_variables cu_void_w force (btf__get_nr_types btfe_percpu) [] btfe_percpu (?g force) =
        (0, btfe_percpu, ?g force)" for force
    by (intro conjI begin_two h passes_two reach)
  have nf: "\<not> False"
    by simp
  note c3 = void_percpu_variable_reported [OF v0 x0, where cu = cu_void_w and e = env_seq
        and ?g0.0 = globals_percpu_two and ?b0.0 = btfe_percpu and verbose = False,
        THEN conjunct2, THEN conjunct2, THEN conjunct1, THEN mp, OF p3]
  note c1 = void_percpu_variable_reported [OF vf xf, where cu = cu_void_w and e = env_seq
        and ?g0.0 = globals_percpu_two and ?b0.0 = btfe_percpu and verbose = False
        and ?g1.0 = globals_percpu_two and force = False and bv = btfe_percpu
        and pre = "[]" and post = "[var_w]" and b = btfe_percpu,
        THEN conjunct2, THEN conjunct2, THEN conjunct2, THEN mp, OF p4,
        THEN conjunct1, THEN mp, OF nf]
  note c2 = void_percpu_variable_reported [OF vf xf, where cu = cu_void_w and e = env_seq
        and ?g0.0 = globals_percpu_two and ?b0.0 = btfe_percpu and verbose = False
        and ?g1.0 = globals_percpu_two and force = True and bv = btfe_percpu
        and pre = "[]" and post = "[var_w]" and b = btfe_percpu,
        THEN conjunct2, THEN conjunct2, THEN conjunct2, THEN mp, OF p4,
        THEN conjunct2, THEN conjunct1, THEN mp, OF TrueI]
  show ?thesis
    using v0 x0 begin_two h passes_two c3
    by (simp add: c1 c2 w tab(3) cu_void_w_fields(6) encode_out_def delete_functions_def
        del: encode_variables.simps)
qed

text \<open>
  C8, as the code has it: \<^const>\<open>btf_encoder__encode\<close> calls the DATASEC operation
  exactly when the section-info buffer is not empty, then flushes the writer, clears the
  function table, deletes the writer and sets the active pointer to null; its status is
  the answer to the flush. The per-CPU variable table and its count are left as they
  are. It is \<^const>\<open>collect_symbols\<close> that resets the count: what it returns does not
  depend on the count it finds, and the count it leaves is at most the number of symbols
  of the file it reads.
\<close>

theorem finalization_effects:
  "btf_encoder__encode b g =
     (sint (answer b (calls b @ datasec_calls b) (Encode 0)),
      b\<lparr>calls := calls b @ datasec_calls b @ [Encode 0], deleted := True\<rparr>,
      g\<lparr>functions := [], functions_alloc := 0, functions_cnt := 0, btfe := None\<rparr>) \<and>
   percpu_vars (snd (snd (btf_encoder__encode b g))) = percpu_vars g \<and>
   percpu_var_cnt (snd (snd (btf_encoder__encode b g))) = percpu_var_cnt g \<and>
   collect_symbols e b' collect_percpu_vars g' =
     collect_symbols e b' collect_percpu_vars (g'\<lparr>percpu_var_cnt := 0\<rparr>) \<and>
   percpu_var_cnt (snd (collect_symbols e b' collect_percpu_vars g'))
     \<le> length (case symtab b' of None \<Rightarrow> [] | Some syms \<Rightarrow> syms)"
proof (intro conjI)
  show r: "btf_encoder__encode b g =
     (sint (answer b (calls b @ datasec_calls b) (Encode 0)),
      b\<lparr>calls := calls b @ datasec_calls b @ [Encode 0], deleted := True\<rparr>,
      g\<lparr>functions := [], functions_alloc := 0, functions_cnt := 0, btfe := None\<rparr>)"
    by (simp add: btf_encoder__encode_def btf_elf__delete_def datasec_calls_def writer_call_def
        delete_functions_def Let_def)
  show "percpu_vars (snd (snd (btf_encoder__encode b g))) = percpu_vars g"
    by (simp add: r)
  show "percpu_var_cnt (snd (snd (btf_encoder__encode b g))) = percpu_var_cnt g"
    by (simp add: r)
  show "collect_symbols e b' collect_percpu_vars g' =
     collect_symbols e b' collect_percpu_vars (g'\<lparr>percpu_var_cnt := 0\<rparr>)"
    by (rule collect_symbols_reset)
  show "percpu_var_cnt (snd (collect_symbols e b' collect_percpu_vars g'))
     \<le> length (case symtab b' of None \<Rightarrow> [] | Some syms \<Rightarrow> syms)"
    by (rule collect_symbols_percpu)
qed

theorem finalization_effects_witness:
  "btf_encoder__encode (btfe_percpu\<lparr>percpu_secinfo := [\<lparr>si_type = 1, si_offset = 0x40, si_size = 8\<rparr>]\<rparr>)
     globals_percpu =
     (0, btfe_percpu\<lparr>percpu_secinfo := [\<lparr>si_type = 1, si_offset = 0x40, si_size = 8\<rparr>],
           calls := [Add_datasec_type ''.data..percpu''
                       [\<lparr>si_type = 1, si_offset = 0x40, si_size = 8\<rparr>], Encode 0],
           deleted := True\<rparr>,
      globals_percpu\<lparr>functions := [], functions_alloc := 0, functions_cnt := 0, btfe := None\<rparr>) \<and>
   btf_encoder__encode btfe_percpu globals_percpu =
     (0, btfe_percpu\<lparr>calls := [Encode 0], deleted := True\<rparr>,
      globals_percpu\<lparr>functions := [], functions_alloc := 0, functions_cnt := 0, btfe := None\<rparr>) \<and>
   \<not> deleted btfe_percpu \<and>
   percpu_var_cnt (snd (snd (btf_encoder__encode btfe_percpu globals_percpu))) = 1 \<and>
   percpu_var_cnt (snd (collect_symbols env_seq btfe_fresh True
     (snd (snd (btf_encoder__encode btfe_percpu globals_percpu))))) = 0"
proof -
  let ?b1 = "btfe_percpu\<lparr>percpu_secinfo := [\<lparr>si_type = 1, si_offset = 0x40, si_size = 8\<rparr>]\<rparr>"
  let ?g' = "snd (snd (btf_encoder__encode btfe_percpu globals_percpu))"
  note r1 = finalization_effects [of ?b1 globals_percpu, THEN conjunct1]
  note r2 = finalization_effects [of btfe_percpu globals_percpu, THEN conjunct1]
  note r3 = finalization_effects [of btfe_percpu globals_percpu, THEN conjunct2,
      THEN conjunct2, THEN conjunct1]
  note r4 = finalization_effects [where e = env_seq and b' = btfe_fresh
      and collect_percpu_vars = True and g' = ?g', THEN conjunct2, THEN conjunct2,
      THEN conjunct2, THEN conjunct2]
  have c1: "datasec_calls ?b1 =
      [Add_datasec_type ''.data..percpu'' [\<lparr>si_type = 1, si_offset = 0x40, si_size = 8\<rparr>]]"
    "datasec_calls btfe_percpu = []"
    by (simp_all add: datasec_calls_def btfe_percpu_def btfe_fresh_def PERCPU_SECTION_def)
  have c2: "answer btfe_percpu h (Encode 0) = 0" "calls btfe_percpu = []"
    "\<not> deleted btfe_percpu" for h
    by (simp_all add: btfe_percpu_def btfe_fresh_def seq_answer_def)
  have c3: "percpu_var_cnt globals_percpu = 1"
    by (simp add: globals_percpu_def globals_init_def)
  have c4: "length (case symtab btfe_fresh of None \<Rightarrow> [] | Some syms \<Rightarrow> syms) = 0"
    by (simp add: btfe_fresh_def)
  show ?thesis
    using r1 r2 r3 r4 by (simp add: c1 c2 c3 c4)
qed

text \<open>
  C8 as stated (the per-CPU variable table is cleared) fails: after the finalization
  of a session with one per-CPU symbol the table still holds it.
\<close>

theorem finalization_keeps_percpu_table:
  "percpu_var_cnt (snd (snd (btf_encoder__encode btfe_percpu globals_percpu))) \<noteq> 0 \<and>
   percpu_vars (snd (snd (btf_encoder__encode btfe_percpu globals_percpu))) \<noteq> []"
  by (simp add: btf_encoder__encode_def writer_call_def delete_functions_def Let_def
      globals_percpu_def globals_init_def case_prod_beta)


end
